(* ===== verification/Prelude.thy ===== *)
theory Prelude
  imports
    Complex_Main
    "HOL-Library.AList"
    "HOL-Library.Char_ord"
    "HOL-Library.List_Lexorder"
    "HOL-Library.Sublist"
begin

text \<open>
  Shared vocabulary of the development: results that may be an exception, insertion-ordered
  dictionaries, the string operations of Python the program uses, and the generic lemmas the
  component theories rest on.

  Conventions. A Python \<^verbatim>\<open>str\<close> is a \<^typ>\<open>string\<close>; characters are those with a code below
  256, and case mapping is the ASCII one. A Python \<^verbatim>\<open>int\<close> is an \<^typ>\<open>int\<close>. A Python
  \<^verbatim>\<open>float\<close> is the \<^typ>\<open>rat\<close> it denotes: every finite float is a rational, and the model
  computes exactly where the machine rounds. A Python \<^verbatim>\<open>dict\<close> whose order can be observed is
  an association list with distinct keys (\<^const>\<open>AList.update\<close> overwrites in place or appends,
  as the dict does); one whose order cannot be observed is a map.
\<close>

named_theorems odict_simps \<open>lookups and key sets of updated ordered dictionaries\<close>
named_theorems str_simps \<open>string predicates in terms of list operations\<close>
named_theorems str_eval \<open>string predicates as computations, for concrete strings\<close>
named_theorems res_simps \<open>results: sums of an error and a value\<close>

section \<open>Results\<close>

type_synonym ('e, 'a) res = "'e + 'a"

fun bind_res :: "('e, 'a) res \<Rightarrow> ('a \<Rightarrow> ('e, 'b) res) \<Rightarrow> ('e, 'b) res" where
  "bind_res (Inl e) f = Inl e"
| "bind_res (Inr a) f = f a"

fun is_ok :: "('e, 'a) res \<Rightarrow> bool" where
  "is_ok (Inl e) = False"
| "is_ok (Inr a) = True"

lemma bind_res_Inr [res_simps]:
  "bind_res r f = Inr b \<longleftrightarrow> (\<exists>a. r = Inr a \<and> f a = Inr b)"
  by (cases r) auto

lemma bind_res_Inl [res_simps]:
  "bind_res r f = Inl e \<longleftrightarrow> r = Inl e \<or> (\<exists>a. r = Inr a \<and> f a = Inl e)"
  by (cases r) auto

lemma is_ok_iff [res_simps]: "is_ok r \<longleftrightarrow> (\<exists>a. r = Inr a)"
  by (cases r) auto

section \<open>Ordered dictionaries\<close>

type_synonym ('k, 'v) odict = "('k \<times> 'v) list"

abbreviation keys_of :: "('k, 'v) odict \<Rightarrow> 'k list" where
  "keys_of d \<equiv> map fst d"

definition wf_odict :: "('k, 'v) odict \<Rightarrow> bool" where
  "wf_odict d \<longleftrightarrow> distinct (keys_of d)"

text \<open>\<^verbatim>\<open>OrderedDict.move_to_end\<close>: the key's entry, if there is one, goes last.\<close>

definition move_to_end :: "'k \<Rightarrow> ('k, 'v) odict \<Rightarrow> ('k, 'v) odict" where
  "move_to_end k d = (case map_of d k of None \<Rightarrow> d | Some v \<Rightarrow> AList.delete k d @ [(k, v)])"

lemma wf_odict_Nil [simp, intro]: "wf_odict []"
  by (simp add: wf_odict_def)

lemma wf_odict_update [simp, intro]: "wf_odict d \<Longrightarrow> wf_odict (AList.update k v d)"
  by (simp add: wf_odict_def distinct_update)

lemma wf_odict_delete [simp, intro]: "wf_odict d \<Longrightarrow> wf_odict (AList.delete k d)"
  by (simp add: wf_odict_def distinct_delete)

lemma map_of_update [odict_simps, simp]:
  "map_of (AList.update k v d) = (map_of d)(k \<mapsto> v)"
  by (simp add: update_conv')

lemma map_of_delete [odict_simps, simp]:
  "map_of (AList.delete k d) = (map_of d)(k := None)"
  by (simp add: delete_conv')

lemma keys_delete: "set (keys_of (AList.delete k d)) = set (keys_of d) - {k}"
  by (simp add: AList.delete_keys)

lemma map_of_move_to_end [odict_simps, simp]: "map_of (move_to_end k d) = map_of d"
  by (auto simp: move_to_end_def map_add_def fun_eq_iff split: option.split)

lemma wf_odict_move_to_end [simp, intro]: "wf_odict d \<Longrightarrow> wf_odict (move_to_end k d)"
  by (auto simp: move_to_end_def wf_odict_def delete_keys distinct_removeAll split: option.split)

lemma length_delete_mem:
  "wf_odict d \<Longrightarrow> k \<in> set (keys_of d) \<Longrightarrow> Suc (length (AList.delete k d)) = length d"
proof (induction d)
  case Nil
  then show ?case by simp
next
  case (Cons p d)
  show ?case
  proof (cases "fst p = k")
    case True
    with Cons.prems have "k \<notin> set (keys_of d)" by (simp add: wf_odict_def)
    then have "AList.delete k d = d" by (induction d) auto
    with True show ?thesis by (cases p) simp
  next
    case False
    with Cons show ?thesis by (cases p) (auto simp: wf_odict_def)
  qed
qed

lemma length_move_to_end [simp]: "wf_odict d \<Longrightarrow> length (move_to_end k d) = length d"
  using length_delete_mem [of d k]
  by (force simp: move_to_end_def split: option.split dest: map_of_SomeD)

text \<open>Dropping every key with a property, as the prefix invalidations do.\<close>

lemma map_of_filter_key:
  "map_of (filter (\<lambda>(k, v). P k) d) k = (if P k then map_of d k else None)"
  by (induction d) auto

lemma wf_odict_filter [simp, intro]: "wf_odict d \<Longrightarrow> wf_odict (filter Q d)"
  by (simp add: wf_odict_def distinct_map_filter)

lemma wf_odict_drop [simp, intro]: "wf_odict d \<Longrightarrow> wf_odict (drop n d)"
  by (simp add: wf_odict_def drop_map [symmetric])

lemma map_of_drop_SomeD:
  assumes "wf_odict d" and "map_of (drop n d) k = Some v"
  shows "map_of d k = Some v"
proof -
  from assms(2) have "(k, v) \<in> set d"
    by (meson in_set_dropD map_of_SomeD)
  with assms(1) show ?thesis
    by (simp add: wf_odict_def)
qed

section \<open>Strings\<close>

definition startswith :: "string \<Rightarrow> string \<Rightarrow> bool" where
  "startswith s p = prefix p s"

definition endswith :: "string \<Rightarrow> string \<Rightarrow> bool" where
  "endswith s p = suffix p s"

text \<open>The operator \<^verbatim>\<open>needle in text\<close>.\<close>

definition contains_str :: "string \<Rightarrow> string \<Rightarrow> bool" where
  "contains_str s p = sublist p s"

lemma startswith_eval [str_eval]: "startswith s p = prefix p s"
  by (simp add: startswith_def)

lemma endswith_eval [str_eval]: "endswith s p = prefix (rev p) (rev s)"
  by (simp add: endswith_def suffix_to_prefix)

lemma contains_str_eval [str_eval]:
  "contains_str [] p = (p = [])"
  "contains_str (c # cs) p = (prefix p (c # cs) \<or> contains_str cs p)"
  by (auto simp: contains_str_def sublist_Cons_right)

lemma startswith_iff [str_simps]: "startswith s p \<longleftrightarrow> (\<exists>r. s = p @ r)"
  by (simp add: startswith_def prefix_def)

lemma endswith_iff [str_simps]: "endswith s p \<longleftrightarrow> (\<exists>r. s = r @ p)"
  by (simp add: endswith_def suffix_def)

lemma contains_str_iff [str_simps]: "contains_str s p \<longleftrightarrow> (\<exists>l r. s = l @ p @ r)"
  by (simp add: contains_str_def sublist_def)

text \<open>
  Two keys built with a separator are equal only if their parts are, as long as the last part
  does not contain the separator: the argument behind every namespaced key of the program.
\<close>

lemma append_sep_eq:
  assumes "x @ c # y = x' @ c # y'" and "c \<notin> set y" and "c \<notin> set y'"
  shows "x = x' \<and> y = y'"
proof -
  from assms(1) have "rev y @ c # rev x = rev y' @ c # rev x'"
    by (metis append_Cons append_Nil append_assoc rev.simps(2) rev_append)
  moreover have "takeWhile (\<lambda>d. d \<noteq> c) (rev y @ c # rev x) = rev y"
    using assms(2) by (subst takeWhile_append2) auto
  moreover have "takeWhile (\<lambda>d. d \<noteq> c) (rev y' @ c # rev x') = rev y'"
    using assms(3) by (subst takeWhile_append2) auto
  ultimately have "y = y'" by simp
  with assms(1) show ?thesis by simp
qed

lemma append_sep_eq_left:
  assumes "x @ c # y = x' @ c # y'" and "c \<notin> set x" and "c \<notin> set x'"
  shows "x = x' \<and> y = y'"
proof -
  have "takeWhile (\<lambda>d. d \<noteq> c) (x @ c # y) = x"
    using assms(2) by (subst takeWhile_append2) auto
  moreover have "takeWhile (\<lambda>d. d \<noteq> c) (x' @ c # y') = x'"
    using assms(3) by (subst takeWhile_append2) auto
  ultimately have "x = x'" using assms(1) by simp
  with assms(1) show ?thesis by simp
qed

text \<open>ASCII case mapping and whitespace.\<close>

definition upper_char :: "char \<Rightarrow> char" where
  "upper_char c = (if 97 \<le> (of_char c :: nat) \<and> (of_char c :: nat) \<le> 122
     then char_of ((of_char c :: nat) - 32) else c)"

definition lower_char :: "char \<Rightarrow> char" where
  "lower_char c = (if 65 \<le> (of_char c :: nat) \<and> (of_char c :: nat) \<le> 90
     then char_of ((of_char c :: nat) + 32) else c)"

abbreviation str_upper :: "string \<Rightarrow> string" where
  "str_upper s \<equiv> map upper_char s"

abbreviation str_lower :: "string \<Rightarrow> string" where
  "str_lower s \<equiv> map lower_char s"

text \<open>The characters \<^verbatim>\<open>str.isspace\<close> accepts below 256.\<close>

definition is_space :: "char \<Rightarrow> bool" where
  "is_space c = (let n = (of_char c :: nat) in
     9 \<le> n \<and> n \<le> 13 \<or> 28 \<le> n \<and> n \<le> 32 \<or> n = 133 \<or> n = 160)"

definition py_lstrip :: "string \<Rightarrow> string" where
  "py_lstrip s = dropWhile is_space s"

definition py_rstrip :: "string \<Rightarrow> string" where
  "py_rstrip s = rev (dropWhile is_space (rev s))"

definition py_strip :: "string \<Rightarrow> string" where
  "py_strip s = py_rstrip (py_lstrip s)"

section \<open>Printing\<close>

definition digit_char :: "nat \<Rightarrow> char" where
  "digit_char d = char_of (48 + d)"

fun str_of_nat :: "nat \<Rightarrow> string" where
  "str_of_nat n = (if n < 10 then [digit_char n] else str_of_nat (n div 10) @ [digit_char (n mod 10)])"

declare str_of_nat.simps [simp del]

definition str_of_int :: "int \<Rightarrow> string" where
  "str_of_int i = (if i < 0 then ''-'' @ str_of_nat (nat (- i)) else str_of_nat (nat i))"

text \<open>
  \<^verbatim>\<open>f"{x:.1f}"\<close>: one decimal, the nearest one, ties to the even digit.
\<close>

definition round_half_even :: "rat \<Rightarrow> int" where
  "round_half_even x = (let n = \<lfloor>x\<rfloor>; f = x - of_int n in
     if f < 1/2 then n else if 1/2 < f then n + 1 else if even n then n else n + 1)"

definition fmt_1f :: "rat \<Rightarrow> string" where
  "fmt_1f x = (let n = round_half_even (10 * \<bar>x\<bar>) in
     (if x < 0 then ''-'' else '''') @ str_of_int (n div 10) @ ''.'' @ str_of_int (n mod 10))"

text \<open>
  \<^verbatim>\<open>repr\<close> of a string (the conversion \<^verbatim>\<open>!r\<close>): single quotes, unless the text holds a single
  quote and no double quote; the quote, the backslash and unprintable characters are escaped.
\<close>

definition hex_digit :: "nat \<Rightarrow> char" where
  "hex_digit d = (if d < 10 then char_of (48 + d) else char_of (87 + d))"

abbreviation sq_char :: char where "sq_char \<equiv> CHR 0x27"
abbreviation dq_char :: char where "dq_char \<equiv> CHR 0x22"
abbreviation bs_char :: char where "bs_char \<equiv> CHR 0x5C"

definition repr_char :: "char \<Rightarrow> char \<Rightarrow> string" where
  "repr_char q c = (let n = (of_char c :: nat) in
     if c = q \<or> c = bs_char then [bs_char, c]
     else if n = 9 then [bs_char, CHR ''t'']
     else if n = 10 then [bs_char, CHR ''n'']
     else if n = 13 then [bs_char, CHR ''r'']
     else if n < 32 \<or> 127 \<le> n \<and> n < 161 \<or> n = 173
       then [bs_char, CHR ''x'', hex_digit (n div 16), hex_digit (n mod 16)]
     else [c])"

definition py_repr :: "string \<Rightarrow> string" where
  "py_repr s = (let q = (if sq_char \<in> set s \<and> dq_char \<notin> set s then dq_char else sq_char)
     in q # concat (map (repr_char q) s) @ [q])"

end
