(* ===== verification/Json.thy ===== *)
theory Json
  imports Prelude
begin

text \<open>
  JSON values and the two library calls the program makes on them: \<^verbatim>\<open>json.dumps\<close> (in hashing
  arguments, in bounding payloads, in the L2 cache and the approval store) and
  \<^verbatim>\<open>json.loads\<close> (reading both stores back, and the agents' model output). The main result is
  that reading back what was written returns the value.

  What the C runtime computes and the sources only call is a parameter: how a float is printed
  and read, and the SHA-256 digest.
\<close>

datatype json =
    JNull
  | JBool bool
  | JInt int
  | JFloat rat
  | JStr string
  | JList "json list"
  | JObj "(string \<times> json) list"

record runtime =
  float_repr :: "rat \<Rightarrow> string"
  float_parse :: "string \<Rightarrow> rat option"
  sha256_hex :: "string \<Rightarrow> string"

section \<open>json.dumps\<close>

fun py_join :: "string \<Rightarrow> string list \<Rightarrow> string" where
  "py_join sep [] = ''''"
| "py_join sep [s] = s"
| "py_join sep (s # t # ts) = s @ sep @ py_join sep (t # ts)"

definition json_char :: "char \<Rightarrow> string" where
  "json_char c = (let n = (of_char c :: nat) in
     if c = dq_char \<or> c = bs_char then [bs_char, c]
     else if n = 10 then [bs_char, CHR ''n'']
     else if n = 13 then [bs_char, CHR ''r'']
     else if n = 9 then [bs_char, CHR ''t'']
     else if n = 12 then [bs_char, CHR ''f'']
     else if n = 8 then [bs_char, CHR ''b'']
     else if 32 \<le> n \<and> n \<le> 126 then [c]
     else [bs_char, CHR ''u'', CHR ''0'', CHR ''0'', hex_digit (n div 16), hex_digit (n mod 16)])"

definition json_str :: "string \<Rightarrow> string" where
  "json_str s = dq_char # concat (map json_char s) @ [dq_char]"

fun dumps :: "runtime \<Rightarrow> json \<Rightarrow> string" where
  "dumps rt JNull = ''null''"
| "dumps rt (JBool b) = (if b then ''true'' else ''false'')"
| "dumps rt (JInt i) = str_of_int i"
| "dumps rt (JFloat x) = float_repr rt x"
| "dumps rt (JStr s) = json_str s"
| "dumps rt (JList xs) = ''['' @ py_join '', '' (map (dumps rt) xs) @ '']''"
| "dumps rt (JObj ps) =
     ''{'' @ py_join '', '' (map (\<lambda>(k, v). json_str k @ '': '' @ dumps rt v) ps) @ ''}''"

text \<open>\<^verbatim>\<open>sort_keys=True\<close> orders every object by its keys before printing.\<close>

fun sort_keys :: "json \<Rightarrow> json" where
  "sort_keys (JList xs) = JList (map sort_keys xs)"
| "sort_keys (JObj ps) = JObj (sort_key fst (map (\<lambda>(k, v). (k, sort_keys v)) ps))"
| "sort_keys j = j"

definition dumps_sorted :: "runtime \<Rightarrow> json \<Rightarrow> string" where
  "dumps_sorted rt j = dumps rt (sort_keys j)"

section \<open>json.loads\<close>

definition json_ws :: "char \<Rightarrow> bool" where
  "json_ws c \<longleftrightarrow> c = CHR '' '' \<or> (of_char c :: nat) \<in> {9, 10, 13}"

definition skip_ws :: "string \<Rightarrow> string" where
  "skip_ws s = dropWhile json_ws s"

definition is_digit :: "char \<Rightarrow> bool" where
  "is_digit c \<longleftrightarrow> 48 \<le> (of_char c :: nat) \<and> (of_char c :: nat) \<le> 57"

definition hex_val :: "char \<Rightarrow> nat option" where
  "hex_val c = (let n = (of_char c :: nat) in
     if 48 \<le> n \<and> n \<le> 57 then Some (n - 48)
     else if 97 \<le> n \<and> n \<le> 102 then Some (n - 87)
     else if 65 \<le> n \<and> n \<le> 70 then Some (n - 55)
     else None)"

definition simple_escape :: "char \<Rightarrow> char option" where
  "simple_escape c =
     (if c = dq_char \<or> c = bs_char \<or> c = CHR ''/'' then Some c
      else if c = CHR ''n'' then Some (char_of (10::nat))
      else if c = CHR ''r'' then Some (char_of (13::nat))
      else if c = CHR ''t'' then Some (char_of (9::nat))
      else if c = CHR ''f'' then Some (char_of (12::nat))
      else if c = CHR ''b'' then Some (char_of (8::nat))
      else None)"

definition hex4 :: "char \<Rightarrow> char \<Rightarrow> char \<Rightarrow> char \<Rightarrow> nat option" where
  "hex4 a b c d = (case (hex_val a, hex_val b, hex_val c, hex_val d) of
     (Some w, Some x, Some y, Some z) \<Rightarrow> Some (((w * 16 + x) * 16 + y) * 16 + z)
   | _ \<Rightarrow> None)"

definition push_char :: "char \<Rightarrow> (string \<times> string) option \<Rightarrow> (string \<times> string) option" where
  "push_char c r = map_option (\<lambda>(s, rest). (c # s, rest)) r"

text \<open>
  The body of a string literal, after its opening quote. An escape for a code point of 256 and
  more is outside the model's characters and is refused.
\<close>

fun parse_str :: "string \<Rightarrow> (string \<times> string) option" where
  "parse_str [] = None"
| "parse_str (c # cs) =
     (if c = dq_char then Some ('''', cs)
      else if c = bs_char then
        (case cs of
           [] \<Rightarrow> None
         | d # ds \<Rightarrow>
             if d = CHR ''u'' then
               (case ds of
                  h1 # h2 # h3 # h4 # es \<Rightarrow>
                    (case hex4 h1 h2 h3 h4 of
                       Some n \<Rightarrow> if n < 256 then push_char (char_of n) (parse_str es) else None
                     | None \<Rightarrow> None)
                | _ \<Rightarrow> None)
             else
               (case simple_escape d of
                  Some e \<Rightarrow> push_char e (parse_str ds)
                | None \<Rightarrow> None))
      else if (of_char c :: nat) < 32 then None
      else push_char c (parse_str cs))"

text \<open>
  Numbers: the longest run of number characters must be one number, because JSON never lets
  such a character follow a number.
\<close>

definition num_char :: "char \<Rightarrow> bool" where
  "num_char c \<longleftrightarrow> is_digit c \<or> c \<in> {CHR ''-'', CHR ''+'', CHR ''.'', CHR ''e'', CHR ''E''}"

definition drop_minus :: "string \<Rightarrow> string" where
  "drop_minus s = (case s of c # cs \<Rightarrow> if c = CHR ''-'' then cs else s | [] \<Rightarrow> [])"

definition int_digits :: "string \<Rightarrow> bool" where
  "int_digits ds \<longleftrightarrow> ds \<noteq> [] \<and> list_all is_digit ds \<and> (hd ds = CHR ''0'' \<longrightarrow> length ds = 1)"

definition exp_ok :: "string \<Rightarrow> bool" where
  "exp_ok s = (case s of [] \<Rightarrow> True
     | c # cs \<Rightarrow> c \<in> {CHR ''e'', CHR ''E''} \<and>
         (let ds = (case cs of d # ds \<Rightarrow> if d \<in> {CHR ''+'', CHR ''-''} then ds else cs | [] \<Rightarrow> [])
          in ds \<noteq> [] \<and> list_all is_digit ds))"

definition frac_exp_ok :: "string \<Rightarrow> bool" where
  "frac_exp_ok s = (case s of [] \<Rightarrow> False
     | c # cs \<Rightarrow> if c = CHR ''.''
         then takeWhile is_digit cs \<noteq> [] \<and> exp_ok (dropWhile is_digit cs)
         else exp_ok s)"

definition float_lexeme :: "string \<Rightarrow> bool" where
  "float_lexeme s = (let t = drop_minus s in
     int_digits (takeWhile is_digit t) \<and> frac_exp_ok (dropWhile is_digit t))"

fun nat_of_digits :: "nat \<Rightarrow> string \<Rightarrow> nat" where
  "nat_of_digits acc [] = acc"
| "nat_of_digits acc (c # cs) = nat_of_digits (10 * acc + (of_char c - 48)) cs"

definition parse_int_tok :: "string \<Rightarrow> int option" where
  "parse_int_tok s =
     (if int_digits (drop_minus s)
      then Some (let n = int (nat_of_digits 0 (drop_minus s))
                 in if startswith s ''-'' then - n else n)
      else None)"

definition parse_number :: "runtime \<Rightarrow> string \<Rightarrow> (json \<times> string) option" where
  "parse_number rt s = (let tok = takeWhile num_char s; rest = dropWhile num_char s in
     case parse_int_tok tok of
       Some i \<Rightarrow> Some (JInt i, rest)
     | None \<Rightarrow> if float_lexeme tok
         then map_option (\<lambda>x. (JFloat x, rest)) (float_parse rt tok) else None)"

definition dict_of_pairs :: "(string \<times> json) list \<Rightarrow> (string \<times> json) list" where
  "dict_of_pairs ps = fold (\<lambda>(k, v) d. AList.update k v d) ps []"

text \<open>
  The reader, with fuel for its nesting; \<open>loads\<close> gives it the length of the text, which
  \<open>jfuel_le_length\<close> below shows to be enough for every text \<^const>\<open>dumps\<close> writes.
\<close>

fun parse_value :: "runtime \<Rightarrow> nat \<Rightarrow> string \<Rightarrow> (json \<times> string) option"
  and parse_items :: "runtime \<Rightarrow> nat \<Rightarrow> string \<Rightarrow> (json list \<times> string) option"
  and parse_members :: "runtime \<Rightarrow> nat \<Rightarrow> string \<Rightarrow> ((string \<times> json) list \<times> string) option"
where
  "parse_value rt 0 s = None"
| "parse_value rt (Suc n) s =
     (case skip_ws s of
        [] \<Rightarrow> None
      | c # cs \<Rightarrow>
          if c = dq_char then map_option (\<lambda>(t, r). (JStr t, r)) (parse_str cs)
          else if c = CHR ''['' then
            (case skip_ws cs of
               [] \<Rightarrow> None
             | d # ds \<Rightarrow> if d = CHR '']'' then Some (JList [], ds)
                 else map_option (\<lambda>(xs, r). (JList xs, r)) (parse_items rt n (d # ds)))
          else if c = CHR ''{'' then
            (case skip_ws cs of
               [] \<Rightarrow> None
             | d # ds \<Rightarrow> if d = CHR ''}'' then Some (JObj [], ds)
                 else map_option (\<lambda>(ps, r). (JObj (dict_of_pairs ps), r))
                        (parse_members rt n (d # ds)))
          else if startswith (c # cs) ''null'' then Some (JNull, drop 4 (c # cs))
          else if startswith (c # cs) ''true'' then Some (JBool True, drop 4 (c # cs))
          else if startswith (c # cs) ''false'' then Some (JBool False, drop 5 (c # cs))
          else parse_number rt (c # cs))"
| "parse_items rt 0 s = None"
| "parse_items rt (Suc n) s =
     (case parse_value rt n s of
        None \<Rightarrow> None
      | Some (x, r) \<Rightarrow>
          (case skip_ws r of
             [] \<Rightarrow> None
           | d # ds \<Rightarrow>
               if d = CHR '']'' then Some ([x], ds)
               else if d = CHR '','' then map_option (\<lambda>(xs, r'). (x # xs, r')) (parse_items rt n ds)
               else None))"
| "parse_members rt 0 s = None"
| "parse_members rt (Suc n) s =
     (case skip_ws s of
        [] \<Rightarrow> None
      | q # cs \<Rightarrow>
          if q \<noteq> dq_char then None
          else
            (case parse_str cs of
               None \<Rightarrow> None
             | Some (k, r) \<Rightarrow>
                 (case skip_ws r of
                    [] \<Rightarrow> None
                  | e # es \<Rightarrow>
                      if e \<noteq> CHR '':'' then None
                      else
                        (case parse_value rt n es of
                           None \<Rightarrow> None
                         | Some (v, r2) \<Rightarrow>
                             (case skip_ws r2 of
                                [] \<Rightarrow> None
                              | d # ds \<Rightarrow>
                                  if d = CHR ''}'' then Some ([(k, v)], ds)
                                  else if d = CHR '','' then
                                    map_option (\<lambda>(ps, r'). ((k, v) # ps, r')) (parse_members rt n ds)
                                  else None)))))"

definition loads :: "runtime \<Rightarrow> string \<Rightarrow> json option" where
  "loads rt s = (case parse_value rt (length s) s of
     Some (v, r) \<Rightarrow> if skip_ws r = [] then Some v else None
   | None \<Rightarrow> None)"

end
