(* ===== verification/Json_Roundtrip.thy ===== *)
theory Json_Roundtrip
  imports Json
begin

text \<open>
  Reading back what \<^const>\<open>dumps\<close> wrote gives the value, for every value whose objects have
  distinct keys and whose floats the runtime prints as JSON numbers it reads back
  (\<open>wf_json\<close>); both stores of the program rest on this.
\<close>

section \<open>Well-formed values\<close>

fun wf_json :: "runtime \<Rightarrow> json \<Rightarrow> bool" where
  "wf_json rt (JFloat x) =
     (float_lexeme (float_repr rt x) \<and> list_all num_char (float_repr rt x) \<and>
      float_parse rt (float_repr rt x) = Some x)"
| "wf_json rt (JList xs) = list_all (wf_json rt) xs"
| "wf_json rt (JObj ps) = (distinct (keys_of ps) \<and> list_all (\<lambda>(k, v). wf_json rt v) ps)"
| "wf_json rt j = True"

section \<open>Characters and strings\<close>

lemma of_char_less_256 [simp]: "(of_char c :: nat) < 256"
  by (rule nat_of_char_less_256)

lemma char_eqI_nat: "(of_char c :: nat) = n \<Longrightarrow> c = char_of n"
  by (metis char_of_char)

lemma hex_val_digit: "d < 16 \<Longrightarrow> hex_val (hex_digit d) = Some d"
  by (auto simp: hex_val_def hex_digit_def Let_def of_char_of)

lemma hex4_digits: "n < 256 \<Longrightarrow>
    hex4 (CHR ''0'') (CHR ''0'') (hex_digit (n div 16)) (hex_digit (n mod 16)) = Some n"
proof -
  assume "n < 256"
  then have "n div 16 < 16" "n mod 16 < 16" by auto
  moreover have "hex_val (CHR ''0'') = Some 0" by (simp add: hex_val_def)
  ultimately show ?thesis
    by (simp add: hex4_def hex_val_digit)
qed

lemma parse_str_json_char: "parse_str (json_char c @ s) = push_char c (parse_str s)"
proof -
  let ?n = "of_char c :: nat"
  consider (quote) "c = dq_char \<or> c = bs_char"
    | (ctl) "c \<noteq> dq_char" "c \<noteq> bs_char" "?n \<in> {8, 9, 10, 12, 13}"
    | (plain) "c \<noteq> dq_char" "c \<noteq> bs_char" "?n \<notin> {8, 9, 10, 12, 13}" "32 \<le> ?n" "?n \<le> 126"
    | (uni) "c \<noteq> dq_char" "c \<noteq> bs_char" "?n \<notin> {8, 9, 10, 12, 13}" "\<not> (32 \<le> ?n \<and> ?n \<le> 126)"
    by blast
  then show ?thesis
  proof cases
    case quote
    then show ?thesis by (auto simp: json_char_def simple_escape_def)
  next
    case ctl
    then consider "?n = 8" | "?n = 9" | "?n = 10" | "?n = 12" | "?n = 13" by auto
    then show ?thesis
    proof cases
      case 1
      with ctl char_eqI_nat [OF 1] show ?thesis
        by (simp add: json_char_def simple_escape_def)
    next
      case 2
      with ctl char_eqI_nat [OF 2] show ?thesis
        by (simp add: json_char_def simple_escape_def)
    next
      case 3
      with ctl char_eqI_nat [OF 3] show ?thesis
        by (simp add: json_char_def simple_escape_def)
    next
      case 4
      with ctl char_eqI_nat [OF 4] show ?thesis
        by (simp add: json_char_def simple_escape_def)
    next
      case 5
      with ctl char_eqI_nat [OF 5] show ?thesis
        by (simp add: json_char_def simple_escape_def)
    qed
  next
    case plain
    then show ?thesis by (simp add: json_char_def)
  next
    case uni
    have "hex4 (CHR ''0'') (CHR ''0'') (hex_digit (?n div 16)) (hex_digit (?n mod 16)) = Some ?n"
      by (rule hex4_digits) simp
    with uni show ?thesis by (auto simp: json_char_def Let_def)
  qed
qed

lemma parse_str_concat:
  "parse_str (concat (map json_char s) @ dq_char # rest) = Some (s, rest)"
  by (induction s) (simp_all add: parse_str_json_char push_char_def)

section \<open>Numbers\<close>

lemma digit_char_code: "d < 10 \<Longrightarrow> (of_char (digit_char d) :: nat) = 48 + d"
  by (simp add: digit_char_def of_char_of)

lemma is_digit_digit_char: "d < 10 \<Longrightarrow> is_digit (digit_char d)"
  by (simp add: is_digit_def digit_char_code)

lemma str_of_nat_digits: "list_all is_digit (str_of_nat n)"
proof (induction n rule: str_of_nat.induct)
  case (1 n)
  then show ?case
    by (subst str_of_nat.simps) (simp add: is_digit_digit_char)
qed

lemma str_of_nat_not_Nil [simp]: "str_of_nat n \<noteq> []"
  by (subst str_of_nat.simps) simp

lemma str_of_nat_hd: "hd (str_of_nat n) = CHR ''0'' \<Longrightarrow> n = 0"
proof (induction n rule: str_of_nat.induct)
  case (1 n)
  show ?case
  proof (cases "n < 10")
    case True
    with "1.prems" have "digit_char n = CHR ''0''" by (subst (asm) str_of_nat.simps) simp
    then have "(of_char (digit_char n) :: nat) = 48" by simp
    with True show ?thesis by (simp add: digit_char_code)
  next
    case False
    with "1.prems" have "hd (str_of_nat (n div 10)) = CHR ''0''"
      by (subst (asm) str_of_nat.simps) simp
    with False "1.IH" have "n div 10 = 0" by blast
    with False show ?thesis by simp
  qed
qed

lemma int_digits_str_of_nat: "int_digits (str_of_nat n)"
proof -
  have "hd (str_of_nat n) = CHR ''0'' \<Longrightarrow> length (str_of_nat n) = 1"
    by (frule str_of_nat_hd) (simp add: str_of_nat.simps)
  then show ?thesis by (simp add: int_digits_def str_of_nat_digits)
qed

lemma nat_of_digits_append:
  "nat_of_digits acc (s @ t) = nat_of_digits (nat_of_digits acc s) t"
  by (induction s arbitrary: acc) auto

lemma nat_of_digits_str_of_nat: "nat_of_digits 0 (str_of_nat n) = n"
proof (induction n rule: str_of_nat.induct)
  case (1 n)
  show ?case
  proof (cases "n < 10")
    case True
    then show ?thesis by (subst str_of_nat.simps) (simp add: digit_char_code)
  next
    case False
    with "1.IH" show ?thesis
      by (subst str_of_nat.simps) (simp add: nat_of_digits_append digit_char_code)
  qed
qed

lemma hd_str_of_nat_not_minus: "hd (str_of_nat n) \<noteq> CHR ''-''"
proof
  assume "hd (str_of_nat n) = CHR ''-''"
  moreover have "is_digit (hd (str_of_nat n))"
    using str_of_nat_digits [of n] by (cases "str_of_nat n") auto
  ultimately show False by (simp add: is_digit_def)
qed

lemma drop_minus_str_of_nat: "drop_minus (str_of_nat n) = str_of_nat n"
  using hd_str_of_nat_not_minus [of n] str_of_nat_not_Nil [of n]
  by (cases "str_of_nat n") (auto simp: drop_minus_def)

lemma parse_int_tok_str_of_int: "parse_int_tok (str_of_int i) = Some i"
proof (cases "i < 0")
  case True
  then show ?thesis
    by (simp add: str_of_int_def parse_int_tok_def drop_minus_def int_digits_str_of_nat
        nat_of_digits_str_of_nat startswith_def)
next
  case False
  moreover have "\<not> startswith (str_of_nat (nat i)) ''-''"
    using hd_str_of_nat_not_minus [of "nat i"]
    by (cases "str_of_nat (nat i)") (auto simp: startswith_def)
  ultimately show ?thesis
    by (simp add: str_of_int_def parse_int_tok_def drop_minus_str_of_nat int_digits_str_of_nat
        nat_of_digits_str_of_nat)
qed

lemma is_digit_num_char: "is_digit c \<Longrightarrow> num_char c"
  by (simp add: num_char_def)

lemma str_of_int_num_chars: "list_all num_char (str_of_int i)"
  using str_of_nat_digits [of "nat i"] str_of_nat_digits [of "nat (- i)"]
  by (auto simp: str_of_int_def num_char_def list_all_iff)

lemma str_of_int_not_Nil [simp]: "str_of_int i \<noteq> []"
  by (simp add: str_of_int_def)

text \<open>What may follow a value in a JSON text: never a number character.\<close>

definition delim :: "string \<Rightarrow> bool" where
  "delim rest \<longleftrightarrow> rest = [] \<or> \<not> num_char (hd rest)"

lemma takeWhile_num: "list_all num_char t \<Longrightarrow> delim rest \<Longrightarrow> takeWhile num_char (t @ rest) = t"
  by (induction t) (auto simp: delim_def takeWhile_eq_Nil_iff)

lemma dropWhile_num: "list_all num_char t \<Longrightarrow> delim rest \<Longrightarrow> dropWhile num_char (t @ rest) = rest"
  by (induction t) (auto simp: delim_def dropWhile_eq_self_iff)

lemma parse_number_int:
  "delim rest \<Longrightarrow> parse_number rt (str_of_int i @ rest) = Some (JInt i, rest)"
  by (simp add: parse_number_def takeWhile_num dropWhile_num str_of_int_num_chars
      parse_int_tok_str_of_int)

lemma float_lexeme_not_int: "float_lexeme s \<Longrightarrow> parse_int_tok s = None"
proof -
  assume a: "float_lexeme s"
  let ?t = "drop_minus s"
  have "dropWhile is_digit ?t \<noteq> []"
    using a by (cases "dropWhile is_digit ?t")
      (simp_all add: float_lexeme_def Let_def frac_exp_ok_def del: dropWhile_eq_Nil_conv)
  then have "\<not> list_all is_digit ?t"
    by (simp add: list_all_iff)
  then show ?thesis by (simp add: parse_int_tok_def int_digits_def)
qed

lemma parse_number_float:
  "wf_json rt (JFloat x) \<Longrightarrow> delim rest \<Longrightarrow>
   parse_number rt (float_repr rt x @ rest) = Some (JFloat x, rest)"
  by (simp add: parse_number_def takeWhile_num dropWhile_num float_lexeme_not_int)

section \<open>The round trip\<close>

text \<open>The fuel a value's text needs, and that its length is enough.\<close>

fun fuels :: "nat list \<Rightarrow> nat" where
  "fuels [] = 0"
| "fuels (n # ns) = Suc (max n (fuels ns))"

fun jfuel :: "json \<Rightarrow> nat" where
  "jfuel (JList xs) = Suc (fuels (map jfuel xs))"
| "jfuel (JObj ps) = Suc (fuels (map (\<lambda>(k, v). jfuel v) ps))"
| "jfuel j = 1"

lemma num_start:
  "num_char c \<Longrightarrow> \<not> json_ws c \<and> c \<noteq> CHR '']'' \<and> c \<noteq> CHR ''}'' \<and> c \<noteq> dq_char \<and>
     c \<noteq> CHR ''['' \<and> c \<noteq> CHR ''{'' \<and> c \<noteq> CHR ''n'' \<and> c \<noteq> CHR ''t'' \<and> c \<noteq> CHR ''f''"
  by (auto simp: num_char_def is_digit_def json_ws_def)

lemma float_repr_not_Nil: "wf_json rt (JFloat x) \<Longrightarrow> float_repr rt x \<noteq> []"
  by (auto simp: float_lexeme_def drop_minus_def int_digits_def Let_def)

lemma num_text_cases:
  assumes "list_all num_char t" and "t \<noteq> []"
  obtains c cs where "t = c # cs" "num_char c"
  using assms by (cases t) auto

lemma json_ws_simps [simp]:
  "json_ws (CHR '' '')" "\<not> json_ws dq_char" "\<not> json_ws (CHR '','')" "\<not> json_ws (CHR '':'')"
  "\<not> json_ws (CHR '']'')" "\<not> json_ws (CHR ''}'')" "\<not> json_ws (CHR ''['')" "\<not> json_ws (CHR ''{'')"
  "\<not> json_ws (CHR ''n'')" "\<not> json_ws (CHR ''t'')" "\<not> json_ws (CHR ''f'')"
  by (simp_all add: json_ws_def)

lemma dumps_start:
  assumes "wf_json rt j"
  obtains c cs where "dumps rt j = c # cs" "\<not> json_ws c" "c \<noteq> CHR '']''"
proof (cases j)
  case (JInt i)
  then show ?thesis
    using num_text_cases [OF str_of_int_num_chars str_of_int_not_Nil, of i] num_start that
    by (metis dumps.simps(3))
next
  case (JFloat x)
  with assms have "list_all num_char (float_repr rt x)" "float_repr rt x \<noteq> []"
    using float_repr_not_Nil by auto
  then obtain c cs where "float_repr rt x = c # cs" "num_char c" by (rule num_text_cases)
  with JFloat that num_start show ?thesis by (metis dumps.simps(4))
next
  case JNull
  then show ?thesis using that [of "CHR ''n''"] by simp
next
  case (JBool b)
  then show ?thesis using that [of "CHR ''t''"] that [of "CHR ''f''"] by (cases b) simp_all
next
  case (JStr s)
  then show ?thesis using that [of dq_char] by (simp add: json_str_def)
next
  case (JList xs)
  then show ?thesis using that [of "CHR ''[''"] by simp
next
  case (JObj ps)
  then show ?thesis using that [of "CHR ''{''"] by simp
qed

lemma skip_ws_non [simp]: "\<not> json_ws c \<Longrightarrow> skip_ws (c # cs) = c # cs"
  by (simp add: skip_ws_def)

lemma skip_ws_space [simp]: "skip_ws (CHR '' '' # s) = skip_ws s"
  by (simp add: skip_ws_def)

lemma parse_value_space [simp]: "parse_value rt n (CHR '' '' # s) = parse_value rt n s"
  by (cases n) simp_all

lemma parse_items_space [simp]: "parse_items rt n (CHR '' '' # s) = parse_items rt n s"
  by (cases n) simp_all

lemma parse_members_space [simp]: "parse_members rt n (CHR '' '' # s) = parse_members rt n s"
  by (cases n) simp_all

lemma parse_value_num:
  assumes "list_all num_char t" and "t \<noteq> []"
  shows "parse_value rt (Suc n) (t @ rest) = parse_number rt (t @ rest)"
proof -
  obtain c cs where t: "t = c # cs" and c: "num_char c"
    using num_text_cases [OF assms] .
  show ?thesis
    using num_start [OF c] by (auto simp: t startswith_def)
qed

lemma delim_simps [simp]:
  "delim []" "delim (CHR '','' # s)" "delim (CHR '']'' # s)" "delim (CHR ''}'' # s)"
  by (simp_all add: delim_def num_char_def is_digit_def)

lemma parse_items_dumps:
  assumes "\<And>x n rest. x \<in> set xs \<Longrightarrow> jfuel x \<le> n \<Longrightarrow> delim rest \<Longrightarrow>
      parse_value rt n (dumps rt x @ rest) = Some (x, rest)"
    and "xs \<noteq> []" and "fuels (map jfuel xs) \<le> n"
  shows "parse_items rt n (py_join '', '' (map (dumps rt) xs) @ CHR '']'' # rest) = Some (xs, rest)"
  using assms
proof (induction xs arbitrary: n)
  case Nil
  then show ?case by simp
next
  case (Cons x xs)
  from Cons.prems(3) obtain m where n: "n = Suc m" and x: "jfuel x \<le> m"
    and xs: "fuels (map jfuel xs) \<le> m"
    by (cases n) auto
  show ?case
  proof (cases xs)
    case Nil
    then show ?thesis using n x Cons.prems(1) [of x m] by simp
  next
    case (Cons y ys)
    have "parse_items rt m (py_join '', '' (map (dumps rt) xs) @ CHR '']'' # rest) = Some (xs, rest)"
      by (rule Cons.IH) (use Cons.prems xs Cons in auto)
    then show ?thesis using n x Cons Cons.prems(1) [of x m] by simp
  qed
qed

lemma parse_members_dumps:
  assumes "\<And>k x n rest. (k, x) \<in> set ps \<Longrightarrow> jfuel x \<le> n \<Longrightarrow> delim rest \<Longrightarrow>
      parse_value rt n (dumps rt x @ rest) = Some (x, rest)"
    and "ps \<noteq> []" and "fuels (map (\<lambda>(k, v). jfuel v) ps) \<le> n"
  shows "parse_members rt n
      (py_join '', '' (map (\<lambda>(k, v). json_str k @ '': '' @ dumps rt v) ps) @ CHR ''}'' # rest) = Some (ps, rest)"
  using assms
proof (induction ps arbitrary: n)
  case Nil
  then show ?case by simp
next
  case (Cons p ps)
  obtain k x where p: "p = (k, x)" by (cases p)
  from Cons.prems(3) p obtain m where n: "n = Suc m" and x: "jfuel x \<le> m"
    and ps: "fuels (map (\<lambda>(k, v). jfuel v) ps) \<le> m"
    by (cases n) auto
  show ?case
  proof (cases ps)
    case Nil
    then show ?thesis using n x p Cons.prems(1) [of k x m]
      by (simp add: json_str_def parse_str_concat)
  next
    case (Cons y ys)
    have "parse_members rt m
        (py_join '', '' (map (\<lambda>(k, v). json_str k @ '': '' @ dumps rt v) ps) @ CHR ''}'' # rest)
        = Some (ps, rest)"
      by (rule Cons.IH) (use Cons.prems ps Cons in auto)
    then show ?thesis using n x p Cons Cons.prems(1) [of k x m]
      by (simp add: json_str_def parse_str_concat)
  qed
qed

lemma dict_of_pairs_append:
  "distinct (keys_of (qs @ ps)) \<Longrightarrow> fold (\<lambda>(k, v) d. AList.update k v d) ps qs = qs @ ps"
proof (induction ps arbitrary: qs)
  case Nil
  then show ?case by simp
next
  case (Cons p ps)
  obtain k v where p: "p = (k, v)" by (cases p)
  from Cons.prems p have "k \<notin> fst ` set qs" by auto
  then have "AList.update k v qs = qs @ [(k, v)]"
    by (induction qs) auto
  with Cons.IH [of "qs @ [(k, v)]"] Cons.prems p show ?case by simp
qed

lemma dict_of_pairs_distinct: "distinct (keys_of ps) \<Longrightarrow> dict_of_pairs ps = ps"
  using dict_of_pairs_append [of "[]" ps] by (simp add: dict_of_pairs_def)

lemma parse_value_list:
  assumes "xs \<noteq> []" and "\<And>x. x \<in> set xs \<Longrightarrow> wf_json rt x"
  shows "parse_value rt (Suc n) (dumps rt (JList xs) @ rest) =
    map_option (\<lambda>(xs, r). (JList xs, r))
      (parse_items rt n (py_join '', '' (map (dumps rt) xs) @ CHR '']'' # rest))"
proof -
  obtain x ys where xs: "xs = x # ys" using assms(1) by (cases xs) auto
  with assms(2) have "wf_json rt x" by simp
  then obtain c cs where c: "dumps rt x = c # cs" "\<not> json_ws c" "c \<noteq> CHR '']''"
    by (rule dumps_start)
  then obtain ds where "py_join '', '' (map (dumps rt) xs) = c # ds"
    using xs by (cases ys) auto
  with c show ?thesis by simp
qed

lemma parse_value_obj:
  assumes "ps \<noteq> []"
  shows "parse_value rt (Suc n) (dumps rt (JObj ps) @ rest) =
    map_option (\<lambda>(ps, r). (JObj (dict_of_pairs ps), r))
      (parse_members rt n
        (py_join '', '' (map (\<lambda>(k, v). json_str k @ '': '' @ dumps rt v) ps) @ CHR ''}'' # rest))"
proof -
  obtain k v qs where ps: "ps = (k, v) # qs" using assms by (cases ps) auto
  then obtain ds where
    "py_join '', '' (map (\<lambda>(k, v). json_str k @ '': '' @ dumps rt v) ps) = dq_char # ds"
    by (cases qs) (auto simp: json_str_def)
  then show ?thesis by simp
qed

lemma parse_value_dumps:
  assumes "wf_json rt j" and "jfuel j \<le> n" and "delim rest"
  shows "parse_value rt n (dumps rt j @ rest) = Some (j, rest)"
  using assms
proof (induction j arbitrary: n rest)
  case JNull
  then show ?case by (cases n) (simp_all add: startswith_def)
next
  case (JBool b)
  then show ?case by (cases n) (auto simp: startswith_def)
next
  case (JInt i)
  then obtain m where "n = Suc m" by (cases n) auto
  with JInt show ?case
    by (simp add: parse_value_num str_of_int_num_chars parse_number_int del: parse_value.simps)
next
  case (JFloat x)
  then obtain m where "n = Suc m" by (cases n) auto
  with JFloat show ?case
    using float_repr_not_Nil [OF JFloat.prems(1)] parse_number_float [OF JFloat.prems(1)]
    by (simp add: parse_value_num del: parse_value.simps)
next
  case (JStr s)
  then show ?case by (cases n) (simp_all add: json_str_def parse_str_concat)
next
  case (JList xs)
  then obtain m where n: "n = Suc m" and m: "fuels (map jfuel xs) \<le> m" by (cases n) auto
  show ?case
  proof (cases "xs = []")
    case True
    with n show ?thesis by simp
  next
    case False
    have "parse_items rt m (py_join '', '' (map (dumps rt) xs) @ CHR '']'' # rest) = Some (xs, rest)"
      by (rule parse_items_dumps) (use JList False m in \<open>auto simp: list_all_iff\<close>)
    then show ?thesis
      using False JList.prems(1) n by (subst n, subst parse_value_list) (auto simp: list_all_iff)
  qed
next
  case (JObj ps)
  then obtain m where n: "n = Suc m" and m: "fuels (map (\<lambda>(k, v). jfuel v) ps) \<le> m"
    by (cases n) auto
  show ?case
  proof (cases "ps = []")
    case True
    with n show ?thesis by simp
  next
    case False
    have "parse_members rt m
        (py_join '', '' (map (\<lambda>(k, v). json_str k @ '': '' @ dumps rt v) ps) @ CHR ''}'' # rest)
        = Some (ps, rest)"
    proof (rule parse_members_dumps [OF _ False m])
      fix k x n' rest'
      assume kx: "(k, x) \<in> set ps" and "jfuel x \<le> n'" and "delim rest'"
      moreover have "x \<in> Basic_BNFs.snds (k, x)" by (simp add: snds.simps)
      moreover have "wf_json rt x" using kx JObj.prems(1) by (auto simp: list_all_iff)
      ultimately show "parse_value rt n' (dumps rt x @ rest') = Some (x, rest')"
        using JObj.IH by blast
    qed
    then show ?thesis
      using False JObj.prems(1) by (subst n, subst parse_value_obj) (auto simp: dict_of_pairs_distinct)
  qed
qed

lemma fuels_join:
  "(\<And>x. x \<in> set xs \<Longrightarrow> f x \<le> length (g x)) \<Longrightarrow> fuels (map f xs) \<le> Suc (length (py_join '', '' (map g xs)))"
proof (induction xs)
  case Nil
  then show ?case by simp
next
  case (Cons x xs)
  have "f x \<le> length (g x)" using Cons.prems by simp
  moreover have "fuels (map f xs) \<le> Suc (length (py_join '', '' (map g xs)))"
    using Cons by auto
  ultimately show ?case by (cases xs) auto
qed

lemma jfuel_le_length: "wf_json rt j \<Longrightarrow> jfuel j \<le> length (dumps rt j)"
proof (induction j)
  case (JInt i)
  then show ?case by (simp add: Suc_le_eq)
next
  case (JFloat x)
  then show ?case using float_repr_not_Nil [OF JFloat] by (simp add: Suc_le_eq)
next
  case (JList xs)
  have "fuels (map jfuel xs) \<le> Suc (length (py_join '', '' (map (dumps rt) xs)))"
    by (rule fuels_join) (use JList in \<open>auto simp: list_all_iff\<close>)
  then show ?case by simp
next
  case (JObj ps)
  let ?g = "\<lambda>(k, v). json_str k @ '': '' @ dumps rt v"
  have "fuels (map (\<lambda>(k, v). jfuel v) ps) \<le> Suc (length (py_join '', '' (map ?g ps)))"
  proof (rule fuels_join)
    fix p assume p: "p \<in> set ps"
    obtain k v where kv: "p = (k, v)" by (cases p)
    have "wf_json rt v" using p kv JObj.prems by (auto simp: list_all_iff)
    moreover have "v \<in> Basic_BNFs.snds (k, v)" by (simp add: snds.simps)
    ultimately have "jfuel v \<le> length (dumps rt v)" using JObj.IH p kv by blast
    then show "(case p of (k, v) \<Rightarrow> jfuel v) \<le> length (?g p)" using kv by simp
  qed
  then show ?case by simp
qed (auto simp: json_str_def)

theorem loads_dumps: "wf_json rt j \<Longrightarrow> loads rt (dumps rt j) = Some j"
  using parse_value_dumps [of rt j "length (dumps rt j)" "[]"] jfuel_le_length [of rt j]
  by (simp add: loads_def skip_ws_def)

corollary dumps_inj: "wf_json rt a \<Longrightarrow> wf_json rt b \<Longrightarrow> dumps rt a = dumps rt b \<Longrightarrow> a = b"
  by (metis loads_dumps option.inject)

text \<open>A runtime for concrete evaluations.\<close>

definition plain_runtime :: runtime where
  "plain_runtime = \<lparr>float_repr = (\<lambda>x. ''0.0''), float_parse = (\<lambda>s. None),
     sha256_hex = (\<lambda>s. replicate 64 (hex_digit (length s mod 16)))\<rparr>"

text \<open>Its digests are hexadecimal, as those of SHA-256 are.\<close>

lemma plain_hex: "CHR '':'' \<notin> set (sha256_hex plain_runtime s)"
proof -
  have "hex_digit (length s mod 16) \<noteq> CHR '':''"
    by (rule notI, drule arg_cong [of _ _ "of_char :: char \<Rightarrow> nat"])
       (auto simp: hex_digit_def of_char_of split: if_splits)
  then show ?thesis by (simp add: plain_runtime_def)
qed

end
