(* ===== verification/Errors.thy ===== *)
theory Errors
  imports Json_Roundtrip
begin

text \<open>
  The structured error framework (\<^verbatim>\<open>errors/framework.py\<close>): the one vocabulary every other
  component raises, its conversion to MCP results, and the normalisation of every other
  exception into it. \<^verbatim>\<open>PendingApprovalError\<close> (\<^verbatim>\<open>governance/approval.py\<close>) is the one subclass
  declared elsewhere. The class \<^verbatim>\<open>TimeoutError_\<close> is \<open>Timeout_Error\<close> here.
\<close>

datatype error_class =
    ToolError | AuthError | PolicyError | ValidationError | RateLimitError | UpstreamError
  | CircuitOpenError | Timeout_Error | ToolNotFoundError | PendingApprovalError

record tool_error =
  err_class :: error_class
  err_code :: string
  err_retryable :: bool
  err_hint :: "string option"
  err_context :: "(string \<times> json) list option"

text \<open>
  What a call can raise: a \<^verbatim>\<open>ToolError\<close>; any other exception, by its type name and its text;
  or the cancellation of the task, which \<^verbatim>\<open>except Exception\<close> does not catch.
\<close>

datatype exc = Tool_Exc tool_error | Py_Exc string string | Cancelled

type_synonym 'a outcome = "(exc, 'a) res"

fun is_tool_exc :: "exc \<Rightarrow> bool" where
  "is_tool_exc (Tool_Exc e) = True"
| "is_tool_exc _ = False"

text \<open>\<^verbatim>\<open>isinstance\<close> against the hierarchy: every class derives directly from \<^verbatim>\<open>ToolError\<close>.\<close>

definition is_instance :: "tool_error \<Rightarrow> error_class \<Rightarrow> bool" where
  "is_instance e c \<longleftrightarrow> err_class e = c \<or> c = ToolError"

definition mk_error ::
    "error_class \<Rightarrow> string \<Rightarrow> bool \<Rightarrow> string option \<Rightarrow> (string \<times> json) list option \<Rightarrow> tool_error" where
  "mk_error c cd r h ctx =
     \<lparr>err_class = c, err_code = cd, err_retryable = r, err_hint = h, err_context = ctx\<rparr>"

lemma mk_error_simps [simp]:
  "err_class (mk_error c cd r h ctx) = c" "err_code (mk_error c cd r h ctx) = cd"
  "err_retryable (mk_error c cd r h ctx) = r" "err_hint (mk_error c cd r h ctx) = h"
  "err_context (mk_error c cd r h ctx) = ctx"
  by (simp_all add: mk_error_def)

text \<open>Python's \<^verbatim>\<open>x or d\<close> on an optional string: \<^verbatim>\<open>None\<close> and the empty string give \<^verbatim>\<open>d\<close>.\<close>

definition or_str :: "string option \<Rightarrow> string \<Rightarrow> string" where
  "or_str h d = (case h of None \<Rightarrow> d | Some s \<Rightarrow> if s = '''' then d else s)"

definition error_str :: "tool_error \<Rightarrow> string" where
  "error_str e = err_code e @ '': '' @ or_str (err_hint e) ''''"

definition json_opt_str :: "string option \<Rightarrow> json" where
  "json_opt_str h = (case h of None \<Rightarrow> JNull | Some s \<Rightarrow> JStr s)"

definition to_dict :: "tool_error \<Rightarrow> (string \<times> json) list" where
  "to_dict e =
     [(''code'', JStr (err_code e)),
      (''retryable'', JBool (err_retryable e)),
      (''hint'', json_opt_str (err_hint e)),
      (''context'', JObj (case err_context e of None \<Rightarrow> [] | Some c \<Rightarrow> c))]"

definition rate_limit_error :: "rat \<Rightarrow> string option \<Rightarrow> tool_error" where
  "rate_limit_error retry_after hint =
     mk_error RateLimitError ''rate_limited'' True
       (Some (or_str hint (''retry after '' @ fmt_1f retry_after @ ''s'')))
       (Some [(''retry_after_seconds'', JFloat retry_after)])"

definition circuit_open_error :: "string \<Rightarrow> int \<Rightarrow> tool_error" where
  "circuit_open_error tool recovery_seconds =
     mk_error CircuitOpenError ''circuit_open'' True
       (Some (''tool '' @ py_repr tool @ '' is temporarily disabled; retry after ''
              @ str_of_int recovery_seconds @ ''s''))
       (Some [(''tool'', JStr tool), (''recovery_seconds'', JInt recovery_seconds)])"

definition timeout_error :: "string \<Rightarrow> int \<Rightarrow> tool_error" where
  "timeout_error tool budget_ms =
     mk_error Timeout_Error ''timeout'' True
       (Some (''tool '' @ py_repr tool @ '' exceeded '' @ str_of_int budget_ms @ ''ms budget''))
       (Some [(''tool'', JStr tool), (''budget_ms'', JInt budget_ms)])"

definition tool_not_found_error :: "string \<Rightarrow> tool_error" where
  "tool_not_found_error name =
     mk_error ToolNotFoundError ''tool_not_found'' False
       (Some (''no tool named '' @ py_repr name @ '' is registered''))
       (Some [(''tool'', JStr name)])"

section \<open>MCP results\<close>

record mcp_error =
  me_code :: int
  me_message :: string
  me_data :: "(string \<times> json) list"

definition to_mcp_error :: "tool_error \<Rightarrow> mcp_error" where
  "to_mcp_error e = \<lparr>me_code = - 32000, me_message = error_str e, me_data = to_dict e\<rparr>"

record call_tool_result =
  ctr_text :: "string list"
  ctr_structured :: "(string \<times> json) list"
  ctr_is_error :: bool

definition to_call_tool_error :: "tool_error \<Rightarrow> call_tool_result" where
  "to_call_tool_error e =
     \<lparr>ctr_text = [err_code e @ '': '' @ or_str (err_hint e) ''''],
      ctr_structured = to_dict e, ctr_is_error = True\<rparr>"

text \<open>
  The type name \<^verbatim>\<open>type(exc).__name__\<close>; for a cancellation it is \<^verbatim>\<open>CancelledError\<close>.
\<close>

fun exc_type_name :: "exc \<Rightarrow> string" where
  "exc_type_name (Tool_Exc e) = ''ToolError''"
| "exc_type_name (Py_Exc ty msg) = ty"
| "exc_type_name Cancelled = ''CancelledError''"

fun normalise_exception :: "exc \<Rightarrow> string option \<Rightarrow> tool_error" where
  "normalise_exception (Tool_Exc e) tool = e"
| "normalise_exception x tool =
     mk_error UpstreamError ''internal_error'' False
       (Some ''an unexpected error occurred; retry or contact an operator'')
       (Some ((''exception_type'', JStr (exc_type_name x)) #
          (case tool of None \<Rightarrow> [] | Some t \<Rightarrow> if t = '''' then [] else [(''tool'', JStr t)])))"

definition as_call_tool_result :: "exc \<Rightarrow> string option \<Rightarrow> call_tool_result" where
  "as_call_tool_result x tool = to_call_tool_error (normalise_exception x tool)"

section \<open>Facts the components share\<close>

lemma normalise_idem: "normalise_exception (Tool_Exc (normalise_exception x t)) t' = normalise_exception x t"
  by simp

lemma normalise_not_tool:
  "\<not> is_tool_exc x \<Longrightarrow>
     err_code (normalise_exception x t) = ''internal_error'' \<and>
     \<not> err_retryable (normalise_exception x t) \<and>
     err_class (normalise_exception x t) = UpstreamError"
  by (cases x) auto

lemma as_call_tool_result_is_error [simp]: "ctr_is_error (as_call_tool_result x t)"
  by (simp add: as_call_tool_result_def to_call_tool_error_def)

end
