(* ===== verification/Policy.thy ===== *)
theory Policy
  imports Errors
begin

text \<open>
  The policy engine (\<^verbatim>\<open>auth/policy.py\<close>): rules with glob patterns and conditions, evaluated
  in order, deny over allow over the default. The YAML text itself is read by a library; the
  model starts from the parsed rules, with the defaults the loader fills in.
\<close>

record rule =
  rule_id :: string
  rule_subjects :: "string list"
  rule_actions :: "string list"
  rule_resources :: "string list"
  rule_effect :: string
  rule_conditions :: "(string \<times> string list) list option"

text \<open>One entry of the parsed file, a missing key being \<^const>\<open>None\<close>.\<close>

record raw_rule =
  raw_id :: string
  raw_subjects :: "string list option"
  raw_actions :: "string list option"
  raw_resources :: "string list option"
  raw_effect :: "string option"
  raw_conditions :: "(string \<times> string list) list option"

definition or_default :: "'a option \<Rightarrow> 'a \<Rightarrow> 'a" where
  "or_default x d = (case x of None \<Rightarrow> d | Some v \<Rightarrow> v)"

record policy_engine =
  pe_rules :: "rule list"
  pe_default_deny :: bool

definition rule_of_raw :: "raw_rule \<Rightarrow> rule" where
  "rule_of_raw r =
     \<lparr>rule_id = raw_id r,
      rule_subjects = or_default (raw_subjects r) [],
      rule_actions = or_default (raw_actions r) [],
      rule_resources = or_default (raw_resources r) [],
      rule_effect = or_default (raw_effect r) ''allow'',
      rule_conditions = raw_conditions r\<rparr>"

definition policy_from_file :: "raw_rule list option \<Rightarrow> bool \<Rightarrow> policy_engine" where
  "policy_from_file rules default_deny =
     \<lparr>pe_rules = map rule_of_raw (or_default rules []), pe_default_deny = default_deny\<rparr>"

text \<open>The evaluation context: what the dispatch pipeline passes of the arguments.\<close>

record policy_context =
  pc_sql :: "string option"
  pc_columns :: "string list option"

section \<open>Matching\<close>

fun glob_any :: "string list \<Rightarrow> string \<Rightarrow> bool" where
  "glob_any [] value = False"
| "glob_any (pat # pats) value =
     (if pat = ''*'' \<or> pat = value then True
      else if endswith pat ''*'' \<and> startswith value (butlast pat) then True
      else glob_any pats value)"

definition rule_matches :: "rule \<Rightarrow> string \<Rightarrow> string \<Rightarrow> string \<Rightarrow> bool" where
  "rule_matches r subject action resource \<longleftrightarrow>
     glob_any (rule_subjects r) subject \<and> glob_any (rule_actions r) action
     \<and> glob_any (rule_resources r) resource"

text \<open>Every branch of the loop body returns, so only the first condition is looked at.\<close>

fun conditions_match :: "(string \<times> string list) list \<Rightarrow> policy_context \<Rightarrow> bool" where
  "conditions_match [] ctx = True"
| "conditions_match ((key, value) # rest) ctx =
     (if key = ''sql_contains_any'' then
        list_ex (\<lambda>needle. contains_str (str_upper (or_str (pc_sql ctx) '''')) (str_upper needle)) value
      else if key = ''pii_fields'' then
        list_ex (\<lambda>c. c \<in> set value) (or_default (pc_columns ctx) [])
      else False)"

definition rule_applies ::
    "rule \<Rightarrow> string \<Rightarrow> string \<Rightarrow> string \<Rightarrow> policy_context \<Rightarrow> bool" where
  "rule_applies r subject action resource ctx =
     (if \<not> rule_matches r subject action resource then False
      else case rule_conditions r of
        None \<Rightarrow> True
      | Some cs \<Rightarrow> if cs \<noteq> [] \<and> \<not> conditions_match cs ctx then False else True)"

section \<open>The decision\<close>

fun collect_rules ::
    "rule list \<Rightarrow> (rule \<Rightarrow> bool) \<Rightarrow> rule list \<Rightarrow> rule list \<Rightarrow> rule list \<times> rule list" where
  "collect_rules [] applies allow deny = (allow, deny)"
| "collect_rules (r # rs) applies allow deny =
     (if \<not> applies r then collect_rules rs applies allow deny
      else if rule_effect r = ''deny'' then collect_rules rs applies allow (deny @ [r])
      else collect_rules rs applies (allow @ [r]) deny)"

definition full_resource :: "string \<Rightarrow> string \<Rightarrow> string" where
  "full_resource tenant resource = ''tenant:'' @ tenant @ ''/'' @ resource"

definition denied_by_policy :: "rule \<Rightarrow> exc" where
  "denied_by_policy q = Tool_Exc (mk_error PolicyError ''denied_by_policy'' False
     (Some (''rule '' @ rule_id q @ '' denies this action'')) None)"

definition not_authorized :: "string \<Rightarrow> string \<Rightarrow> exc" where
  "not_authorized action resource = Tool_Exc (mk_error PolicyError ''not_authorized'' False
     (Some (''no policy rule allows '' @ action @ '' on '' @ resource)) None)"

definition policy_check ::
    "policy_engine \<Rightarrow> string \<Rightarrow> string \<Rightarrow> string \<Rightarrow> string \<Rightarrow> policy_context \<Rightarrow> unit outcome" where
  "policy_check pe subject tenant action resource ctx =
     (let (allow, deny) = collect_rules (pe_rules pe)
            (\<lambda>r. rule_applies r subject action (full_resource tenant resource) ctx) [] []
      in case deny of
           d # ds \<Rightarrow> Inl (denied_by_policy d)
         | [] \<Rightarrow> if allow = [] \<and> pe_default_deny pe then Inl (not_authorized action resource)
                 else Inr ())"

section \<open>What the engine decides\<close>

abbreviation applicable :: "policy_engine \<Rightarrow> string \<Rightarrow> string \<Rightarrow> string \<Rightarrow> string \<Rightarrow> policy_context \<Rightarrow> rule set" where
  "applicable pe s t a r ctx \<equiv>
     {q \<in> set (pe_rules pe). rule_applies q s a (full_resource t r) ctx}"

abbreviation denies :: "rule \<Rightarrow> bool" where
  "denies r \<equiv> rule_effect r = ''deny''"

lemma collect_rules_filter:
  "collect_rules rs f allow deny =
     (allow @ filter (\<lambda>r. f r \<and> \<not> denies r) rs, deny @ filter (\<lambda>r. f r \<and> denies r) rs)"
  by (induction rs f allow deny rule: collect_rules.induct) auto

lemma policy_check_eq:
  "policy_check pe s t a r ctx =
     (case filter (\<lambda>q. rule_applies q s a (full_resource t r) ctx \<and> denies q) (pe_rules pe) of
        d # ds \<Rightarrow> Inl (denied_by_policy d)
      | [] \<Rightarrow> if filter (\<lambda>q. rule_applies q s a (full_resource t r) ctx \<and> \<not> denies q) (pe_rules pe) = []
                 \<and> pe_default_deny pe
              then Inl (not_authorized a r) else Inr ())"
  unfolding policy_check_def collect_rules_filter Let_def prod.case append_Nil by (rule refl)

lemma policy_check_ok_iff:
  "policy_check pe s t a r ctx = Inr () \<longleftrightarrow>
     (\<forall>q \<in> applicable pe s t a r ctx. \<not> denies q) \<and>
     ((\<exists>q \<in> applicable pe s t a r ctx. \<not> denies q) \<or> \<not> pe_default_deny pe)"
proof -
  let ?f = "\<lambda>q. rule_applies q s a (full_resource t r) ctx"
  let ?al = "filter (\<lambda>q. ?f q \<and> \<not> denies q) (pe_rules pe)"
  let ?dn = "filter (\<lambda>q. ?f q \<and> denies q) (pe_rules pe)"
  have "policy_check pe s t a r ctx = Inr () \<longleftrightarrow> ?dn = [] \<and> (?al \<noteq> [] \<or> \<not> pe_default_deny pe)"
    unfolding policy_check_eq by (cases ?dn) simp_all
  then show ?thesis by (auto simp: filter_empty_conv)
qed

lemma policy_check_cases:
  "policy_check pe s t a r ctx = Inr () \<or>
   (\<exists>q. policy_check pe s t a r ctx = Inl (denied_by_policy q)) \<or>
   policy_check pe s t a r ctx = Inl (not_authorized a r)"
proof (cases "filter (\<lambda>q. rule_applies q s a (full_resource t r) ctx \<and> denies q) (pe_rules pe)")
  case Nil
  then show ?thesis unfolding policy_check_eq by simp
next
  case (Cons d ds)
  then have "policy_check pe s t a r ctx = Inl (denied_by_policy d)"
    unfolding policy_check_eq by simp
  then show ?thesis by blast
qed

lemma policy_check_result:
  "policy_check pe s t a r ctx = Inr () \<or>
   (\<exists>e. policy_check pe s t a r ctx = Inl (Tool_Exc e) \<and> err_class e = PolicyError \<and>
      \<not> err_retryable e \<and> err_code e \<in> {''denied_by_policy'', ''not_authorized''})"
  using policy_check_cases [of pe s t a r ctx]
  by (auto simp: denied_by_policy_def not_authorized_def)

lemma glob_any_iff:
  "glob_any pats v \<longleftrightarrow>
     (\<exists>p \<in> set pats. p = ''*'' \<or> p = v \<or> (\<exists>stem. p = stem @ ''*'' \<and> startswith v stem))"
proof (induction pats)
  case Nil
  then show ?case by simp
next
  case (Cons p ps)
  have "endswith p ''*'' \<and> startswith v (butlast p) \<longleftrightarrow> (\<exists>stem. p = stem @ ''*'' \<and> startswith v stem)"
    by (auto simp: endswith_iff)
  with Cons show ?case by auto
qed

section \<open>The shipped policy file\<close>

text \<open>\<^verbatim>\<open>config/policy.yaml\<close>, rule by rule.\<close>

definition shipped_rules :: "raw_rule list" where
  "shipped_rules = [
    \<lparr>raw_id = ''stub-server-ping'', raw_subjects = Some [''*''],
     raw_actions = Some [''server.ping''], raw_resources = Some [''*''],
     raw_effect = None, raw_conditions = None\<rparr>,
    \<lparr>raw_id = ''support-agents-build-context'',
     raw_subjects = Some [''role:support_copilot'', ''role:human_agent''],
     raw_actions = Some [''tool:postgres:read'', ''tool:elasticsearch:read'', ''tool:vector:read''],
     raw_resources = Some [''tenant:*/*''], raw_effect = None, raw_conditions = None\<rparr>,
    \<lparr>raw_id = ''support-agents-can-read-s3'',
     raw_subjects = Some [''role:support_copilot'', ''role:human_agent''],
     raw_actions = Some [''tool:s3:read''],
     raw_resources = Some [''tenant:*/docs/*'', ''tenant:*/tickets/*''],
     raw_effect = None, raw_conditions = None\<rparr>,
    \<lparr>raw_id = ''analysts-read-postgres'', raw_subjects = Some [''role:analyst''],
     raw_actions = Some [''tool:postgres:read''], raw_resources = Some [''tenant:*/analytics/*''],
     raw_effect = None, raw_conditions = None\<rparr>,
    \<lparr>raw_id = ''support-agents-can-fetch-docs'', raw_subjects = Some [''role:support_copilot''],
     raw_actions = Some [''tool:http:fetch''], raw_resources = Some [''tenant:*/*''],
     raw_effect = None, raw_conditions = None\<rparr>,
    \<lparr>raw_id = ''no-one-can-drop-tables'', raw_subjects = Some [''*''],
     raw_actions = Some [''tool:postgres:read'', ''tool:postgres:write''],
     raw_resources = Some [''*''], raw_effect = Some ''deny'',
     raw_conditions = Some [(''sql_contains_any'', [''DROP'', ''TRUNCATE'', ''GRANT'', ''REVOKE''])]\<rparr>,
    \<lparr>raw_id = ''no-pii-columns-for-support-agents'', raw_subjects = Some [''role:support_copilot''],
     raw_actions = Some [''tool:postgres:read''], raw_resources = Some [''*''],
     raw_effect = Some ''deny'',
     raw_conditions = Some [(''pii_fields'', [''ssn'', ''tax_id'', ''dob'', ''credit_card_number''])]\<rparr>,
    \<lparr>raw_id = ''internal-admin-can-impersonate'', raw_subjects = Some [''role:internal_admin''],
     raw_actions = Some [''tenant:*:impersonate''], raw_resources = Some [''*''],
     raw_effect = None, raw_conditions = None\<rparr>,
    \<lparr>raw_id = ''support-agents-can-write-attachments'', raw_subjects = Some [''role:human_agent''],
     raw_actions = Some [''tool:s3:write''], raw_resources = Some [''tenant:*/attachments/*''],
     raw_effect = None, raw_conditions = None\<rparr>]"

definition shipped_policy :: policy_engine where
  "shipped_policy = policy_from_file (Some shipped_rules) True"

section \<open>Properties\<close>

text \<open>A rule applies to a call when it is one of the engine's and matches.\<close>

definition rule_decides ::
    "policy_engine \<Rightarrow> string \<Rightarrow> string \<Rightarrow> string \<Rightarrow> string \<Rightarrow> policy_context \<Rightarrow> rule \<Rightarrow> bool" where
  "rule_decides pe s t a r ctx q \<longleftrightarrow> q \<in> set (pe_rules pe) \<and> rule_applies q s a (full_resource t r) ctx"

text \<open>C20: The policy decision, on every branch. A call is permitted exactly when no applicable
  rule denies it and either an applicable rule allows it or the engine does not deny by
  default; an applicable deny rule always gives \<^verbatim>\<open>denied_by_policy\<close>, wherever it stands in the
  file; otherwise a call without an allow rule gives \<^verbatim>\<open>not_authorized\<close>.\<close>

theorem policy_decision:
  "(policy_check pe s t a r ctx = Inr () \<longleftrightarrow>
       (\<nexists>q. rule_decides pe s t a r ctx q \<and> denies q) \<and>
       \<not> (pe_default_deny pe \<and> (\<nexists>q. rule_decides pe s t a r ctx q \<and> \<not> denies q))) \<and>
     ((\<exists>e. policy_check pe s t a r ctx = Inl (Tool_Exc e) \<and> err_code e = ''denied_by_policy'') \<longleftrightarrow>
       (\<exists>q. rule_decides pe s t a r ctx q \<and> denies q)) \<and>
     ((\<exists>e. policy_check pe s t a r ctx = Inl (Tool_Exc e) \<and> err_code e = ''not_authorized'') \<longleftrightarrow>
       (\<nexists>q. rule_decides pe s t a r ctx q) \<and> pe_default_deny pe)"
proof -
  let ?f = "\<lambda>q. rule_applies q s a (full_resource t r) ctx"
  define al where "al = filter (\<lambda>q. ?f q \<and> \<not> denies q) (pe_rules pe)"
  define dn where "dn = filter (\<lambda>q. ?f q \<and> denies q) (pe_rules pe)"
  have al: "al = [] \<longleftrightarrow> (\<nexists>q. rule_decides pe s t a r ctx q \<and> \<not> denies q)"
    by (auto simp: al_def rule_decides_def filter_empty_conv)
  have dn: "dn = [] \<longleftrightarrow> (\<nexists>q. rule_decides pe s t a r ctx q \<and> denies q)"
    by (auto simp: dn_def rule_decides_def filter_empty_conv)
  have chk: "policy_check pe s t a r ctx =
      (case dn of d # ds \<Rightarrow> Inl (denied_by_policy d)
       | [] \<Rightarrow> if al = [] \<and> pe_default_deny pe then Inl (not_authorized a r) else Inr ())"
    unfolding policy_check_eq al_def dn_def by (rule refl)
  show ?thesis
    using chk al dn
    by (cases dn; cases "al = [] \<and> pe_default_deny pe")
       (auto simp: denied_by_policy_def not_authorized_def)
qed

text \<open>The order of the rules never decides: two engines whose files hold the same rules in
  any order, with any repetition, permit the same calls.\<close>

theorem policy_order_irrelevant:
  assumes "set (pe_rules pe) = set (pe_rules pe')"
    and "pe_default_deny pe = pe_default_deny pe'"
  shows "is_ok (policy_check pe s t a r ctx) = is_ok (policy_check pe' s t a r ctx)"
proof -
  have ok: "is_ok (policy_check q s t a r ctx) \<longleftrightarrow> policy_check q s t a r ctx = Inr ()" for q
    by (simp add: is_ok_iff)
  show ?thesis unfolding ok policy_check_ok_iff using assms by simp
qed

theorem policy_order_irrelevant_witness:
  "is_ok (policy_check \<lparr>pe_rules = rev (map rule_of_raw shipped_rules), pe_default_deny = True\<rparr>
      ''role:any'' ''acme'' ''server.ping'' ''server.ping'' \<lparr>pc_sql = None, pc_columns = None\<rparr>)
   = is_ok (policy_check shipped_policy
      ''role:any'' ''acme'' ''server.ping'' ''server.ping'' \<lparr>pc_sql = None, pc_columns = None\<rparr>)"
  by (rule policy_order_irrelevant)
     (simp_all add: shipped_policy_def policy_from_file_def or_default_def)

text \<open>A rule file whose allow rules name one tenant's resources.\<close>

definition tenant_scoped :: "string \<Rightarrow> rule \<Rightarrow> bool" where
  "tenant_scoped tenant q \<longleftrightarrow>
     list_all (\<lambda>p. startswith p (''tenant:'' @ tenant @ ''/'')) (rule_resources q)"

lemma full_resource_tenant:
  assumes "startswith (full_resource t r) (''tenant:'' @ tenant @ ''/'')"
    and "CHR ''/'' \<notin> set t" and "CHR ''/'' \<notin> set tenant"
  shows "t = tenant"
proof -
  from assms(1) obtain z where "t @ CHR ''/'' # r = tenant @ CHR ''/'' # z"
    by (auto simp: startswith_iff full_resource_def)
  from append_sep_eq_left [OF this assms(2,3)] show ?thesis by simp
qed

lemma tenant_scoped_glob:
  assumes "tenant_scoped tenant q" and "glob_any (rule_resources q) (full_resource t r)"
    and "CHR ''/'' \<notin> set t" and "CHR ''/'' \<notin> set tenant"
  shows "t = tenant"
proof -
  from assms(2) obtain p where p: "p \<in> set (rule_resources q)"
    and m: "p = ''*'' \<or> p = full_resource t r \<or> (\<exists>stem. p = stem @ ''*'' \<and> startswith (full_resource t r) stem)"
    by (auto simp: glob_any_iff)
  from p assms(1) obtain z where z: "p = ''tenant:'' @ tenant @ ''/'' @ z"
    by (auto simp: tenant_scoped_def list_all_iff startswith_iff)
  have "startswith (full_resource t r) (''tenant:'' @ tenant @ ''/'')"
    using m
  proof (elim disjE exE conjE)
    assume "p = ''*''"
    with z show ?thesis by simp
  next
    assume "p = full_resource t r"
    with z show ?thesis by (simp add: startswith_iff)
  next
    fix stem assume st: "p = stem @ ''*''" "startswith (full_resource t r) stem"
    then have "(''tenant:'' @ tenant @ ''/'') @ z = stem @ ''*''" using z by simp
    then have "\<exists>y. stem = (''tenant:'' @ tenant @ ''/'') @ y"
      by (auto simp: append_eq_append_conv2 Cons_eq_append_conv append_eq_Cons_conv)
    with st show ?thesis by (auto simp: startswith_iff)
  qed
  then show ?thesis using assms(3,4) by (rule full_resource_tenant)
qed

text \<open>Tenant confinement of a policy file. When every allow rule names resources of one
  tenant and the engine denies by default, no call of another tenant is permitted, whatever its
  caller, its tool and its arguments, as long as tenant names hold no slash.\<close>

theorem policy_tenant_confinement:
  assumes "pe_default_deny pe"
    and "\<forall>q \<in> set (pe_rules pe). \<not> denies q \<longrightarrow> tenant_scoped tenant q"
    and "CHR ''/'' \<notin> set t" and "CHR ''/'' \<notin> set tenant"
    and "policy_check pe s t a r ctx = Inr ()"
  shows "t = tenant"
proof -
  from assms(1,5) obtain q where "q \<in> set (pe_rules pe)" "\<not> denies q"
    "rule_applies q s a (full_resource t r) ctx"
    by (auto simp: policy_check_ok_iff)
  with assms(2) show ?thesis
    by (intro tenant_scoped_glob [of tenant q t r] assms(3,4))
       (auto simp: rule_applies_def rule_matches_def split: if_splits)
qed

definition acme_policy :: policy_engine where
  "acme_policy =
     \<lparr>pe_rules = [\<lparr>rule_id = ''r1'', rule_subjects = [''role:analyst''], rule_actions = [''postgres.query''],
        rule_resources = [''tenant:acme/*''], rule_effect = ''allow'', rule_conditions = None\<rparr>],
      pe_default_deny = True\<rparr>"

theorem policy_tenant_confinement_witness:
  "policy_check acme_policy ''role:analyst'' ''acme'' ''postgres.query'' ''postgres.query''
     \<lparr>pc_sql = None, pc_columns = None\<rparr> = Inr () \<and> ''acme'' = ''acme''"
proof -
  have ok: "policy_check acme_policy ''role:analyst'' ''acme'' ''postgres.query'' ''postgres.query''
     \<lparr>pc_sql = None, pc_columns = None\<rparr> = Inr ()"
    by (simp add: policy_check_def acme_policy_def rule_applies_def rule_matches_def
        full_resource_def str_eval)
  have "''acme'' = ''acme''"
    by (rule policy_tenant_confinement [OF _ _ _ _ ok])
       (simp_all add: acme_policy_def tenant_scoped_def startswith_def)
  with ok show ?thesis by simp
qed

text \<open>
  Only a rule's first condition is read, and a condition of an unknown kind makes its rule
  inert: a deny rule with a misspelt condition denies nothing.
\<close>

lemma conditions_first_only: "conditions_match (c # cs) ctx = conditions_match [c] ctx"
  by (cases c) simp

lemma unknown_condition_inert:
  "rule_conditions q = Some ((k, v) # cs) \<Longrightarrow> k \<noteq> ''sql_contains_any'' \<Longrightarrow> k \<noteq> ''pii_fields'' \<Longrightarrow>
   \<not> rule_applies q s a r ctx"
  by (simp add: rule_applies_def)

end
