(* ===== verification/Allowlist.thy ===== *)
theory Allowlist
  imports Errors Policy
begin

text \<open>
  The outbound HTTP allowlist (\<^verbatim>\<open>governance/http_allowlist.py\<close>): per tenant, exact host names
  and wildcard subdomains, with the tenant \<^verbatim>\<open>*\<close> for everyone. The host comes from
  \<^verbatim>\<open>urllib.parse.urlparse\<close>, whose splitting is written out here.
\<close>

type_synonym allowlist = "(string, string list option) odict"

text \<open>The file's data: nothing for a missing or empty file.\<close>

definition allowlist_from_file :: "allowlist option \<Rightarrow> allowlist" where
  "allowlist_from_file data = or_default data []"

definition patterns_for :: "allowlist \<Rightarrow> string \<Rightarrow> string list" where
  "patterns_for rules tenant =
     (case map_of rules tenant of Some (Some ps) \<Rightarrow> ps | _ \<Rightarrow> [])"

fun host_matches :: "string list \<Rightarrow> string \<Rightarrow> bool" where
  "host_matches [] host = False"
| "host_matches (pattern # ps) host =
     (if pattern = host then True
      else if startswith pattern ''*.'' \<and> endswith host (drop 1 pattern) then True
      else host_matches ps host)"

definition allowed :: "allowlist \<Rightarrow> string \<Rightarrow> string \<Rightarrow> bool" where
  "allowed rules tenant host = host_matches (patterns_for rules tenant @ patterns_for rules ''*'') host"

definition host_error :: "string \<Rightarrow> string \<Rightarrow> exc" where
  "host_error tenant host = Tool_Exc (mk_error PolicyError ''host_not_allowlisted'' False
     (Some (py_repr host @ '' is not on this tenant'' @ [sq_char] @ ''s outbound allowlist''))
     (Some [(''host'', JStr host), (''tenant'', JStr tenant)]))"

definition allowlist_check :: "allowlist \<Rightarrow> string \<Rightarrow> string \<Rightarrow> unit outcome" where
  "allowlist_check rules tenant host =
     (if allowed rules tenant host then Inr () else Inl (host_error tenant host))"

section \<open>The host of a URL\<close>

text \<open>
  \<^verbatim>\<open>urlparse(url).hostname\<close>: strip, cut the scheme, take the authority between \<^verbatim>\<open>//\<close> and the
  next \<^verbatim>\<open>/\<close>, \<^verbatim>\<open>?\<close> or \<^verbatim>\<open>#\<close>, drop the user info and the port, lower the case. Unbalanced brackets
  raise \<^verbatim>\<open>ValueError\<close>; whether a bracketed host is a valid address is the library's check, the
  parameter \<open>bracket_ok\<close>.
\<close>

fun split_at :: "(char \<Rightarrow> bool) \<Rightarrow> string \<Rightarrow> string \<times> string option" where
  "split_at p [] = ([], None)"
| "split_at p (c # cs) =
     (if p c then ([], Some cs) else (let (a, b) = split_at p cs in (c # a, b)))"

definition is_alpha :: "char \<Rightarrow> bool" where
  "is_alpha c = (let n = (of_char c :: nat) in 65 \<le> n \<and> n \<le> 90 \<or> 97 \<le> n \<and> n \<le> 122)"

definition scheme_char :: "char \<Rightarrow> bool" where
  "scheme_char c \<longleftrightarrow> is_alpha c \<or> is_digit c \<or> c \<in> {CHR ''+'', CHR ''-'', CHR ''.''}"

definition clean_url :: "string \<Rightarrow> string" where
  "clean_url url = filter (\<lambda>c. (of_char c :: nat) \<notin> {9, 10, 13})
     (dropWhile (\<lambda>c. (of_char c :: nat) \<le> 32) url)"

definition split_scheme :: "string \<Rightarrow> string \<times> string" where
  "split_scheme u =
     (case split_at (\<lambda>c. c = CHR '':'') u of
        (s, Some rest) \<Rightarrow>
          if s \<noteq> [] \<and> is_alpha (hd s) \<and> list_all scheme_char s then (str_lower s, rest) else ('''', u)
      | (_, None) \<Rightarrow> ('''', u))"

definition url_netloc :: "string \<Rightarrow> string" where
  "url_netloc rest =
     (if startswith rest ''//''
      then takeWhile (\<lambda>c. c \<notin> {CHR ''/'', CHR ''?'', CHR ''#''}) (drop 2 rest)
      else '''')"

text \<open>\<^verbatim>\<open>rpartition("@")\<close>: what follows the last occurrence, or everything.\<close>

definition after_last :: "char \<Rightarrow> string \<Rightarrow> string" where
  "after_last c s = rev (takeWhile (\<lambda>d. d \<noteq> c) (rev s))"

definition netloc_hostname :: "string \<Rightarrow> string option" where
  "netloc_hostname netloc =
     (let info = after_last (CHR ''@'') netloc;
          host = (case split_at (\<lambda>c. c = CHR ''['') info of
                    (_, Some bracketed) \<Rightarrow> fst (split_at (\<lambda>c. c = CHR '']'') bracketed)
                  | (_, None) \<Rightarrow> fst (split_at (\<lambda>c. c = CHR '':'') info))
      in if host = '''' then None
         else case split_at (\<lambda>c. c = CHR ''%'') host of
                (h, Some zone) \<Rightarrow> Some (str_lower h @ ''%'' @ zone)
              | (h, None) \<Rightarrow> Some (str_lower h))"

definition url_hostname :: "(string \<Rightarrow> bool) \<Rightarrow> string \<Rightarrow> string option outcome" where
  "url_hostname bracket_ok url =
     (let netloc = url_netloc (snd (split_scheme (clean_url url)));
          op = (CHR ''['' \<in> set netloc); cl = (CHR '']'' \<in> set netloc)
      in if op \<noteq> cl then Inl (Py_Exc ''ValueError'' ''Invalid IPv6 URL'')
         else if op \<and> \<not> bracket_ok netloc then Inl (Py_Exc ''ValueError'' ''Invalid IPv6 URL'')
         else Inr (netloc_hostname netloc))"

section \<open>Properties\<close>

lemma host_matches_iff:
  "host_matches ps host \<longleftrightarrow>
     (\<exists>p \<in> set ps. p = host \<or> (\<exists>d. p = ''*.'' @ d \<and> endswith host (''.'' @ d)))"
proof (induction ps)
  case Nil
  then show ?case by simp
next
  case (Cons p ps)
  have "startswith p ''*.'' \<and> endswith host (drop 1 p) \<longleftrightarrow>
      (\<exists>d. p = ''*.'' @ d \<and> endswith host (''.'' @ d))"
    by (auto simp: startswith_iff)
  with Cons show ?case by auto
qed

text \<open>The allowlist decision. A host passes the check exactly when it is an entry of the
  tenant's list or of everyone's list, or lies strictly below the domain of a wildcard entry of
  either, separated by a dot: the wildcard of a domain admits neither the bare domain nor a host
  whose name merely ends in the same letters.\<close>

theorem allowlist_decision:
  "allowlist_check rules tenant host = Inr () \<longleftrightarrow>
     (\<exists>p \<in> set (patterns_for rules tenant) \<union> set (patterns_for rules ''*'').
        p = host \<or> (\<exists>d sub. p = ''*.'' @ d \<and> host = sub @ ''.'' @ d))"
proof -
  have "endswith host (''.'' @ d) \<longleftrightarrow> (\<exists>sub. host = sub @ ''.'' @ d)" for d
    by (auto simp: endswith_iff)
  then show ?thesis
    by (simp add: allowlist_check_def allowed_def host_matches_iff)
qed

text \<open>Tenants do not see each other's lists: two configurations that agree on a tenant's
  entry and on everyone's entry give that tenant the same answers.\<close>

theorem allowlist_isolation:
  assumes "map_of rules tenant = map_of rules' tenant" and "map_of rules ''*'' = map_of rules' ''*''"
  shows "allowlist_check rules tenant host = allowlist_check rules' tenant host"
  using assms by (simp add: allowlist_check_def allowed_def patterns_for_def)

text \<open>The shipped configuration, \<^verbatim>\<open>config/http_allowlist.yaml\<close>.\<close>

definition shipped_allowlist :: allowlist where
  "shipped_allowlist =
     [(''*'', Some [''api.company-status-page.internal'']),
      (''acme'', Some [''api.stripe.com'', ''api.sendgrid.com'', ''*.acme.internal'']),
      (''globex'', Some [''api.twilio.com'', ''*.globex.internal''])]"

theorem allowlist_isolation_witness:
  "allowlist_check shipped_allowlist ''acme'' ''api.stripe.com'' =
   allowlist_check (AList.delete ''globex'' shipped_allowlist) ''acme'' ''api.stripe.com''"
  by (rule allowlist_isolation) (simp_all add: shipped_allowlist_def)

lemma shipped_allowlist_examples:
  "allowlist_check shipped_allowlist ''acme'' ''db.acme.internal'' = Inr ()"
  "allowlist_check shipped_allowlist ''acme'' ''evilacme.internal'' = Inl (host_error ''acme'' ''evilacme.internal'')"
  "allowlist_check shipped_allowlist ''globex'' ''api.stripe.com'' = Inl (host_error ''globex'' ''api.stripe.com'')"
  by (simp_all add: allowlist_check_def allowed_def patterns_for_def shipped_allowlist_def str_eval)

lemma url_hostname_examples:
  "url_hostname (\<lambda>_. True) ''https://user:pw@API.Stripe.com:443/v1?x=1'' = Inr (Some ''api.stripe.com'')"
  "url_hostname (\<lambda>_. True) ''https://api.stripe.com@evil.example/'' = Inr (Some ''evil.example'')"
  "url_hostname (\<lambda>_. True) ''not a url'' = Inr None"
  by code_simp+

end
