(* ===== verification/Rate_Limit.thy ===== *)
theory Rate_Limit
  imports Settings Errors
begin

text \<open>
  Rate limiting (\<^verbatim>\<open>ratelimit/limiter.py\<close>): a token bucket per tenant and tool over a
  pluggable backend. Both backends of the source are modelled, the in-process dictionary and
  the Lua script the server hands to Redis; the locale \<open>token_bucket\<close> is the contract they
  share, and the limiter's guarantees are proved once against it.
\<close>

record quota =
  quota_capacity :: int
  quota_refill_per_minute :: int

section \<open>The backends\<close>

type_synonym mem_buckets = "string \<rightharpoonup> rat \<times> int"

text \<open>\<^verbatim>\<open>InMemoryTokenBucket.consume\<close>; the answer is the pair of allowed and retry-after.\<close>

definition refilled :: "int \<Rightarrow> rat \<Rightarrow> int \<Rightarrow> rat \<times> int \<Rightarrow> rat" where
  "refilled capacity refill_per_s now_ms bucket =
     (case bucket of (tokens, last_ms) \<Rightarrow>
        let elapsed_s = max 0 (of_int (now_ms - last_ms) / 1000)
        in min (of_int capacity) (tokens + elapsed_s * refill_per_s))"

definition mem_consume ::
    "mem_buckets \<Rightarrow> string \<Rightarrow> int \<Rightarrow> rat \<Rightarrow> int \<Rightarrow> int \<Rightarrow> mem_buckets \<times> int \<times> int" where
  "mem_consume b key capacity refill_per_s cost now_ms =
     (let bucket = (case b key of None \<Rightarrow> (of_int capacity, now_ms) | Some p \<Rightarrow> p);
          tokens = refilled capacity refill_per_s now_ms bucket
      in if of_int cost \<le> tokens then (b(key \<mapsto> (tokens - of_int cost, now_ms)), 1, 0)
         else (let deficit = of_int cost - tokens;
                   retry_after_ms =
                     (if refill_per_s \<noteq> 0 then \<lceil>deficit / refill_per_s * 1000\<rceil> else 3600000)
               in (b(key \<mapsto> (tokens, now_ms)), 0, retry_after_ms)))"

text \<open>
  The Lua script. A bucket is a Redis hash with an expiry of 3600 seconds, renewed by every
  call; an expired bucket reads as missing. Redis and the limiter are taken to have the same
  clock. Dividing by a zero rate gives the infinity whose integer reply is the parameter
  \<open>inf_reply\<close>.
\<close>

type_synonym redis_buckets = "string \<rightharpoonup> rat \<times> int \<times> int"

definition redis_ttl_ms :: int where
  "redis_ttl_ms = 3600000"

definition redis_live :: "redis_buckets \<Rightarrow> int \<Rightarrow> string \<Rightarrow> (rat \<times> int) option" where
  "redis_live b now_ms key =
     (case b key of None \<Rightarrow> None
      | Some (tokens, last_ms, expire_ms) \<Rightarrow>
          if expire_ms \<le> now_ms then None else Some (tokens, last_ms))"

definition redis_consume ::
    "int \<Rightarrow> redis_buckets \<Rightarrow> string \<Rightarrow> int \<Rightarrow> rat \<Rightarrow> int \<Rightarrow> int \<Rightarrow> redis_buckets \<times> int \<times> int" where
  "redis_consume inf_reply b key capacity refill_per_s cost now_ms =
     (let bucket = (case redis_live b now_ms key of
                      None \<Rightarrow> (of_int capacity, now_ms) | Some p \<Rightarrow> p);
          full = refilled capacity refill_per_s now_ms bucket;
          (tokens, allowed, retry_after_ms) =
            (if of_int cost \<le> full then (full - of_int cost, 1, 0)
             else (full, 0,
                   if refill_per_s = 0 then inf_reply
                   else \<lceil>(of_int cost - full) / refill_per_s * 1000\<rceil>))
      in (b(key \<mapsto> (tokens, now_ms, now_ms + redis_ttl_ms)), allowed, retry_after_ms))"

section \<open>The limiter\<close>

definition default_quota :: "settings \<Rightarrow> quota" where
  "default_quota s =
     \<lparr>quota_capacity = rate_limit_burst s, quota_refill_per_minute = rate_limit_default_rpm s\<rparr>"

definition quota_overrides :: "(string, quota) odict" where
  "quota_overrides =
     [(''customer.build_context'', \<lparr>quota_capacity = 3, quota_refill_per_minute = 10\<rparr>),
      (''semantic_search'', \<lparr>quota_capacity = 30, quota_refill_per_minute = 120\<rparr>),
      (''hybrid_search'', \<lparr>quota_capacity = 30, quota_refill_per_minute = 120\<rparr>)]"

definition quota_for :: "settings \<Rightarrow> string \<Rightarrow> quota" where
  "quota_for s tool = (case map_of quota_overrides tool of
     Some q \<Rightarrow> q | None \<Rightarrow> default_quota s)"

definition refill_rate :: "quota \<Rightarrow> rat" where
  "refill_rate q = of_int (quota_refill_per_minute q) / 60"

definition rl_key :: "string \<Rightarrow> string \<Rightarrow> string" where
  "rl_key tenant tool = ''atlas:rl:'' @ tenant @ '':'' @ tool"

text \<open>
  \<^verbatim>\<open>RateLimiter.acquire\<close>, over any backend; \<open>time\<close> is \<^verbatim>\<open>time.time()\<close> in seconds.
\<close>

type_synonym 's backend = "'s \<Rightarrow> string \<Rightarrow> int \<Rightarrow> rat \<Rightarrow> int \<Rightarrow> int \<Rightarrow> 's \<times> int \<times> int"

definition acquire ::
    "'s backend \<Rightarrow> settings \<Rightarrow> 's \<Rightarrow> string \<Rightarrow> string \<Rightarrow> int \<Rightarrow> rat \<Rightarrow> unit outcome \<times> 's" where
  "acquire consume cfg s tenant tool cost time =
     (let quota = quota_for cfg tool;
          (s', allowed, retry_after_ms) =
            consume s (rl_key tenant tool) (quota_capacity quota) (refill_rate quota) cost \<lfloor>time * 1000\<rfloor>
      in if allowed = 0
         then (Inl (Tool_Exc (rate_limit_error (of_int retry_after_ms / 1000) None)), s')
         else (Inr (), s'))"

text \<open>Keys of different tenants or tools differ, as tool names hold no colon.\<close>

lemma rl_key_inj:
  assumes "rl_key t u = rl_key t' u'" and "CHR '':'' \<notin> set u" and "CHR '':'' \<notin> set u'"
  shows "t = t' \<and> u = u'"
  using append_sep_eq [of t "CHR '':''" u t' u'] assms by (simp add: rl_key_def)

section \<open>The contract of a backend\<close>

text \<open>
  \<open>level s k c r now\<close> is the number of tokens the bucket holds at a time, \<open>fine c r\<close> the quotas
  the backend serves exactly, \<open>inv\<close> its invariant.
\<close>

locale token_bucket =
  fixes consume :: "'s backend"
    and level :: "'s \<Rightarrow> string \<Rightarrow> int \<Rightarrow> rat \<Rightarrow> int \<Rightarrow> rat"
    and fine :: "int \<Rightarrow> rat \<Rightarrow> bool"
    and inv :: "'s \<Rightarrow> bool"
  assumes fine_rate: "fine c r \<Longrightarrow> 0 \<le> c \<and> 0 \<le> r"
    and level_capacity: "level s k c r now \<le> of_int c"
    and consume_allowed:
      "fst (snd (consume s k c r cost now)) = (if of_int cost \<le> level s k c r now then 1 else 0)"
    and consume_inv: "inv s \<Longrightarrow> fine c r \<Longrightarrow> 0 \<le> cost \<Longrightarrow> inv (fst (consume s k c r cost now))"
    and level_nonneg: "inv s \<Longrightarrow> fine c r \<Longrightarrow> 0 \<le> level s k c r now"
    and level_drift:
      "inv s \<Longrightarrow> fine c r \<Longrightarrow> now \<le> now' \<Longrightarrow>
       level s k c r now' \<le> level s k c r now + of_int (now' - now) / 1000 * r"
    and consume_level:
      "inv s \<Longrightarrow> fine c r \<Longrightarrow> 0 \<le> cost \<Longrightarrow> now \<le> now' \<Longrightarrow>
       level (fst (consume s k c r cost now)) k c r now' =
         min (of_int c) (level s k c r now - (if of_int cost \<le> level s k c r now then of_int cost else 0)
            + of_int (now' - now) / 1000 * r)"
    and consume_other:
      "k' \<noteq> k \<Longrightarrow> level (fst (consume s k c r cost now)) k' c' r' now' = level s k' c' r' now'"
    and consume_retry:
      "0 < r \<Longrightarrow> \<not> of_int cost \<le> level s k c r now \<Longrightarrow>
       snd (snd (consume s k c r cost now)) = \<lceil>(of_int cost - level s k c r now) / r * 1000\<rceil>"

text \<open>
  A history is the list of calls (tenant, tool, time) in the order they reach the limiter;
  \<open>granted\<close> counts the ones it lets through for one tenant and tool.
\<close>

abbreviation to_ms :: "rat \<Rightarrow> int" where
  "to_ms time \<equiv> \<lfloor>time * 1000\<rfloor>"

fun granted ::
    "'s backend \<Rightarrow> settings \<Rightarrow> string \<Rightarrow> string \<Rightarrow> 's \<Rightarrow> (string \<times> string \<times> rat) list \<Rightarrow> nat" where
  "granted consume cfg tenant tool s [] = 0"
| "granted consume cfg tenant tool s ((t, u, time) # calls) =
     (case acquire consume cfg s t u 1 time of (result, s') \<Rightarrow>
        (if t = tenant \<and> u = tool \<and> is_ok result then 1 else 0)
        + granted consume cfg tenant tool s' calls)"

text \<open>The clock of a history never goes back, and starts at \<open>t0\<close> or later.\<close>

fun monotone_from :: "rat \<Rightarrow> (string \<times> string \<times> rat) list \<Rightarrow> bool" where
  "monotone_from t0 [] = True"
| "monotone_from t0 ((t, u, time) # calls) = (t0 \<le> time \<and> monotone_from time calls)"

fun last_time :: "rat \<Rightarrow> (string \<times> string \<times> rat) list \<Rightarrow> rat" where
  "last_time t0 [] = t0"
| "last_time t0 ((t, u, time) # calls) = last_time time calls"

abbreviation tools_plain :: "(string \<times> string \<times> rat) list \<Rightarrow> bool" where
  "tools_plain calls \<equiv> \<forall>(t, u, time) \<in> set calls. CHR '':'' \<notin> set u"

context token_bucket
begin

definition tool_level :: "settings \<Rightarrow> 's \<Rightarrow> string \<Rightarrow> string \<Rightarrow> rat \<Rightarrow> rat" where
  "tool_level cfg s tenant tool time =
     level s (rl_key tenant tool) (quota_capacity (quota_for cfg tool))
       (refill_rate (quota_for cfg tool)) (to_ms time)"

definition served :: "settings \<Rightarrow> string \<Rightarrow> bool" where
  "served cfg tool = fine (quota_capacity (quota_for cfg tool)) (refill_rate (quota_for cfg tool))"

lemma acquire_ok:
  "is_ok (fst (acquire consume cfg s tenant tool cost time))
     \<longleftrightarrow> of_int cost \<le> tool_level cfg s tenant tool time"
  using consume_allowed [of s "rl_key tenant tool" "quota_capacity (quota_for cfg tool)"
      "refill_rate (quota_for cfg tool)" cost "to_ms time"]
  by (auto simp: acquire_def tool_level_def Let_def case_prod_beta split: if_splits)

lemma acquire_state:
  "snd (acquire consume cfg s tenant tool cost time) =
     fst (consume s (rl_key tenant tool) (quota_capacity (quota_for cfg tool))
       (refill_rate (quota_for cfg tool)) cost (to_ms time))"
  by (simp add: acquire_def Let_def case_prod_beta)

lemma acquire_inv:
  "inv s \<Longrightarrow> served cfg tool \<Longrightarrow> 0 \<le> cost \<Longrightarrow> inv (snd (acquire consume cfg s tenant tool cost time))"
  by (simp add: acquire_state served_def consume_inv)

lemma tool_level_other:
  assumes "(t, u) \<noteq> (tenant, tool)" and "CHR '':'' \<notin> set u" and "CHR '':'' \<notin> set tool"
  shows "tool_level cfg (snd (acquire consume cfg s t u cost time)) tenant tool time' =
    tool_level cfg s tenant tool time'"
proof -
  have "rl_key tenant tool \<noteq> rl_key t u" using assms rl_key_inj by blast
  then show ?thesis by (simp add: tool_level_def acquire_state consume_other)
qed

lemma tool_level_same:
  assumes "inv s" and "served cfg tool" and "0 \<le> cost" and "time \<le> time'"
  shows "tool_level cfg (snd (acquire consume cfg s tenant tool cost time)) tenant tool time' =
    min (of_int (quota_capacity (quota_for cfg tool)))
     (tool_level cfg s tenant tool time
       - (if of_int cost \<le> tool_level cfg s tenant tool time then of_int cost else 0)
       + of_int (to_ms time' - to_ms time) / 1000 * refill_rate (quota_for cfg tool))"
proof -
  have "to_ms time \<le> to_ms time'" using assms(4) by (intro floor_mono) simp
  with assms show ?thesis by (simp add: tool_level_def acquire_state served_def consume_level)
qed

lemma tool_level_drift:
  assumes "inv s" and "served cfg tool" and "time \<le> time'"
  shows "tool_level cfg s tenant tool time' \<le> tool_level cfg s tenant tool time
    + of_int (to_ms time' - to_ms time) / 1000 * refill_rate (quota_for cfg tool)"
proof -
  have "to_ms time \<le> to_ms time'" using assms(3) by (intro floor_mono) simp
  with assms show ?thesis unfolding tool_level_def served_def by (intro level_drift)
qed

lemma tool_level_nonneg: "inv s \<Longrightarrow> served cfg tool \<Longrightarrow> 0 \<le> tool_level cfg s tenant tool time"
  by (simp add: tool_level_def served_def level_nonneg)

lemma tool_level_capacity:
  "tool_level cfg s tenant tool time \<le> of_int (quota_capacity (quota_for cfg tool))"
  by (simp add: tool_level_def level_capacity)

lemma granted_bound:
  assumes "inv s" and "\<And>u. served cfg u" and "CHR '':'' \<notin> set tool"
    and "tools_plain calls" and "monotone_from t0 calls"
  shows "of_nat (granted consume cfg tenant tool s calls) \<le> tool_level cfg s tenant tool t0
     + of_int (to_ms (last_time t0 calls) - to_ms t0) / 1000 * refill_rate (quota_for cfg tool)"
  using assms
proof (induction calls arbitrary: s t0)
  case Nil
  then show ?case by (simp add: tool_level_nonneg)
next
  case (Cons call calls)
  obtain t u time where call: "call = (t, u, time)" by (cases call)
  let ?s' = "snd (acquire consume cfg s t u 1 time)"
  define g where "g = (if t = tenant \<and> u = tool \<and> is_ok (fst (acquire consume cfg s t u 1 time)) then 1 else (0::nat))"
  have inv': "inv ?s'" using Cons.prems by (simp add: acquire_inv)
  have drift: "tool_level cfg s tenant tool time \<le> tool_level cfg s tenant tool t0
      + of_int (to_ms time - to_ms t0) / 1000 * refill_rate (quota_for cfg tool)"
    using Cons.prems call by (intro tool_level_drift) auto
  have step: "tool_level cfg ?s' tenant tool time + of_nat g \<le> tool_level cfg s tenant tool time"
  proof (cases "(t, u) = (tenant, tool)")
    case True
    then show ?thesis
      using tool_level_same [OF Cons.prems(1) Cons.prems(2), of 1 time time] acquire_ok [of cfg s t u 1 time]
      by (auto simp: min_def g_def)
  next
    case False
    then have "tool_level cfg ?s' tenant tool time = tool_level cfg s tenant tool time"
      using Cons.prems call by (intro tool_level_other) auto
    moreover have "g = 0" using False by (auto simp: g_def)
    ultimately show ?thesis by simp
  qed
  have "of_nat (granted consume cfg tenant tool ?s' calls) \<le> tool_level cfg ?s' tenant tool time
      + of_int (to_ms (last_time time calls) - to_ms time) / 1000 * refill_rate (quota_for cfg tool)"
    by (rule Cons.IH) (use Cons.prems call inv' in auto)
  moreover have "granted consume cfg tenant tool s (call # calls) =
      g + granted consume cfg tenant tool ?s' calls"
    by (simp add: call g_def case_prod_beta)
  ultimately show ?case
    using step drift by (simp add: call algebra_simps add_divide_distrib diff_divide_distrib)
qed

definition retry_ms :: "settings \<Rightarrow> 's \<Rightarrow> string \<Rightarrow> string \<Rightarrow> int \<Rightarrow> rat \<Rightarrow> int" where
  "retry_ms cfg s tenant tool cost time =
     \<lceil>(of_int cost - tool_level cfg s tenant tool time) / refill_rate (quota_for cfg tool) * 1000\<rceil>"

lemma acquire_refused:
  assumes "0 < refill_rate (quota_for cfg tool)"
    and "\<not> is_ok (fst (acquire consume cfg s tenant tool cost time))"
  shows "fst (acquire consume cfg s tenant tool cost time) =
    Inl (Tool_Exc (rate_limit_error (of_int (retry_ms cfg s tenant tool cost time) / 1000) None))"
proof -
  have "\<not> of_int cost \<le> tool_level cfg s tenant tool time"
    using assms(2) by (simp add: acquire_ok)
  then show ?thesis
    using assms(1)
      consume_allowed [of s "rl_key tenant tool" "quota_capacity (quota_for cfg tool)"
        "refill_rate (quota_for cfg tool)" cost "to_ms time"]
      consume_retry [of "refill_rate (quota_for cfg tool)" cost s "rl_key tenant tool"
        "quota_capacity (quota_for cfg tool)" "to_ms time"]
    by (simp add: acquire_def retry_ms_def tool_level_def Let_def case_prod_beta)
qed

lemma retry_after_enough:
  assumes "inv s" and "served cfg tool" and rate: "0 < refill_rate (quota_for cfg tool)"
    and "0 \<le> cost" and "cost \<le> quota_capacity (quota_for cfg tool)"
    and no: "\<not> is_ok (fst (acquire consume cfg s tenant tool cost time))"
    and later: "time + of_int (retry_ms cfg s tenant tool cost time) / 1000 \<le> time'"
  shows "is_ok (fst (acquire consume cfg (snd (acquire consume cfg s tenant tool cost time))
        tenant tool cost time'))"
proof -
  let ?r = "refill_rate (quota_for cfg tool)"
  let ?L = "tool_level cfg s tenant tool time"
  let ?m = "retry_ms cfg s tenant tool cost time"
  have L: "?L < of_int cost" using no by (simp add: acquire_ok)
  then have pos: "0 < (of_int cost - ?L) / ?r * 1000" using rate by simp
  have m: "(of_int cost - ?L) / ?r * 1000 \<le> of_int ?m" by (simp add: retry_ms_def le_of_int_ceiling)
  then have "0 < (of_int ?m :: rat)" using pos by linarith
  then have le: "time \<le> time'" using later by linarith
  have "time * 1000 + of_int ?m \<le> time' * 1000" using later by simp
  then have "to_ms time + ?m \<le> to_ms time'" by (metis floor_add_int floor_mono)
  then have d: "of_int ?m \<le> (of_int (to_ms time' - to_ms time) :: rat)" by linarith
  have "of_int cost - ?L \<le> of_int ?m / 1000 * ?r"
    using m rate by (simp add: field_simps)
  also have "\<dots> \<le> of_int (to_ms time' - to_ms time) / 1000 * ?r"
    using d rate by (intro mult_right_mono divide_right_mono) auto
  finally have "of_int cost \<le> ?L + of_int (to_ms time' - to_ms time) / 1000 * ?r" by simp
  then show ?thesis
    using assms(1,2,4,5) L le by (simp add: acquire_ok tool_level_same)
qed

end

section \<open>Both backends keep the contract\<close>

definition mem_level :: "mem_buckets \<Rightarrow> string \<Rightarrow> int \<Rightarrow> rat \<Rightarrow> int \<Rightarrow> rat" where
  "mem_level b key c r now = (case b key of None \<Rightarrow> of_int c | Some p \<Rightarrow> refilled c r now p)"

definition mem_fine :: "int \<Rightarrow> rat \<Rightarrow> bool" where
  "mem_fine c r \<longleftrightarrow> 0 \<le> c \<and> 0 \<le> r"

definition mem_inv :: "mem_buckets \<Rightarrow> bool" where
  "mem_inv b \<longleftrightarrow> (\<forall>key tokens last_ms. b key = Some (tokens, last_ms) \<longrightarrow> 0 \<le> tokens)"

lemma refilled_le: "refilled c r now p \<le> of_int c"
  by (simp add: refilled_def case_prod_beta Let_def)

lemma refilled_now: "refilled c r now (tokens, now) = min (of_int c) tokens"
  by (simp add: refilled_def)

lemma refilled_nonneg: "0 \<le> c \<Longrightarrow> 0 \<le> r \<Longrightarrow> 0 \<le> tokens \<Longrightarrow> 0 \<le> refilled c r now (tokens, last_ms)"
  by (simp add: refilled_def Let_def)

lemma refilled_after:
  "now \<le> now' \<Longrightarrow> 0 \<le> r \<Longrightarrow>
   refilled c r now' (tokens, now) = min (of_int c) (tokens + of_int (now' - now) / 1000 * r)"
  by (simp add: refilled_def)

lemma refilled_drift:
  assumes "now \<le> now'" and "0 \<le> r"
  shows "refilled c r now' p \<le> refilled c r now p + of_int (now' - now) / 1000 * r"
proof -
  obtain tok last_ms where p: "p = (tok, last_ms)" by (cases p)
  let ?d = "of_int (now' - now) / 1000 :: rat"
  have d: "0 \<le> ?d" using assms(1) by simp
  have "of_int (now' - last_ms) / 1000 = (of_int (now - last_ms) / 1000 + ?d :: rat)"
    by (simp add: diff_divide_distrib)
  then have "max 0 (of_int (now' - last_ms) / 1000) \<le> max 0 (of_int (now - last_ms) / 1000) + ?d"
    using d by linarith
  then have "max 0 (of_int (now' - last_ms) / 1000) * r \<le> (max 0 (of_int (now - last_ms) / 1000) + ?d) * r"
    using assms(2) by (rule mult_right_mono)
  moreover have "0 \<le> ?d * r" using d assms(2) by simp
  ultimately show ?thesis
    by (simp add: refilled_def p Let_def distrib_right min_def)
qed

lemma mem_bucket_level:
  "refilled c r now (case b k of None \<Rightarrow> (of_int c, now) | Some p \<Rightarrow> p) = mem_level b k c r now"
  by (simp add: mem_level_def refilled_now split: option.split)

lemma mem_consume_eq:
  "mem_consume b k c r cost now =
     (let tokens = mem_level b k c r now
      in if of_int cost \<le> tokens then (b(k \<mapsto> (tokens - of_int cost, now)), 1, 0)
         else (b(k \<mapsto> (tokens, now)), 0,
               if r \<noteq> 0 then \<lceil>(of_int cost - tokens) / r * 1000\<rceil> else 3600000))"
  unfolding mem_consume_def Let_def mem_bucket_level by (rule refl)

lemma mem_consume_level_eq:
  "fst (snd (mem_consume b k c r cost now)) = (if of_int cost \<le> mem_level b k c r now then 1 else 0)"
  "fst (mem_consume b k c r cost now) =
     b(k \<mapsto> (mem_level b k c r now - (if of_int cost \<le> mem_level b k c r now then of_int cost else 0), now))"
  "r \<noteq> 0 \<Longrightarrow> \<not> of_int cost \<le> mem_level b k c r now \<Longrightarrow>
     snd (snd (mem_consume b k c r cost now)) = \<lceil>(of_int cost - mem_level b k c r now) / r * 1000\<rceil>"
  unfolding mem_consume_eq Let_def by simp_all

lemma mem_level_nonneg: "mem_inv b \<Longrightarrow> mem_fine c r \<Longrightarrow> 0 \<le> mem_level b k c r now"
  by (auto simp: mem_level_def mem_fine_def mem_inv_def intro: refilled_nonneg split: option.split)

lemma mem_consume_inv:
  "mem_inv b \<Longrightarrow> mem_fine c r \<Longrightarrow> mem_inv (fst (mem_consume b k c r cost now))"
  using mem_level_nonneg [of b c r k now]
  unfolding mem_consume_level_eq by (auto simp: mem_inv_def)

interpretation memory: token_bucket mem_consume mem_level mem_fine mem_inv
proof unfold_locales
  fix b :: mem_buckets and k k' :: string and c c' cost now now' :: int and r r' :: rat
  show "mem_fine c r \<Longrightarrow> 0 \<le> c \<and> 0 \<le> r" by (simp add: mem_fine_def)
  show "mem_level b k c r now \<le> of_int c"
    by (simp add: mem_level_def refilled_le split: option.split)
  show "fst (snd (mem_consume b k c r cost now)) = (if of_int cost \<le> mem_level b k c r now then 1 else 0)"
    by (rule mem_consume_level_eq)
  show "mem_inv (fst (mem_consume b k c r cost now))" if "mem_inv b" "mem_fine c r" "0 \<le> cost"
    using that by (simp add: mem_consume_inv)
  show "0 \<le> mem_level b k c r now" if "mem_inv b" "mem_fine c r"
    using that by (simp add: mem_level_nonneg)
  show "mem_level b k c r now' \<le> mem_level b k c r now + of_int (now' - now) / 1000 * r"
    if "mem_inv b" "mem_fine c r" "now \<le> now'"
    using that refilled_drift [of now now' r c]
    by (simp add: mem_level_def mem_fine_def split: option.split)
  show "mem_level (fst (mem_consume b k c r cost now)) k c r now' =
         min (of_int c) (mem_level b k c r now - (if of_int cost \<le> mem_level b k c r now then of_int cost else 0)
            + of_int (now' - now) / 1000 * r)"
    if "mem_inv b" "mem_fine c r" "0 \<le> cost" "now \<le> now'"
    unfolding mem_consume_level_eq using that
    by (simp add: mem_level_def [of "_(_ \<mapsto> _)"] refilled_after mem_fine_def)
  show "mem_level (fst (mem_consume b k c r cost now)) k' c' r' now' = mem_level b k' c' r' now'"
    if "k' \<noteq> k"
    unfolding mem_consume_level_eq using that by (simp add: mem_level_def)
  show "snd (snd (mem_consume b k c r cost now)) = \<lceil>(of_int cost - mem_level b k c r now) / r * 1000\<rceil>"
    if "0 < r" "\<not> of_int cost \<le> mem_level b k c r now"
    by (rule mem_consume_level_eq) (use that in auto)
qed

definition redis_level :: "redis_buckets \<Rightarrow> string \<Rightarrow> int \<Rightarrow> rat \<Rightarrow> int \<Rightarrow> rat" where
  "redis_level b key c r now =
     (case redis_live b now key of None \<Rightarrow> of_int c | Some p \<Rightarrow> refilled c r now p)"

text \<open>
  The quotas an expiring bucket serves exactly: an hour refills the whole bucket.
\<close>

definition redis_fine :: "int \<Rightarrow> rat \<Rightarrow> bool" where
  "redis_fine c r \<longleftrightarrow> 0 \<le> c \<and> 0 \<le> r \<and> of_int c \<le> 3600 * r"

definition redis_inv :: "redis_buckets \<Rightarrow> bool" where
  "redis_inv b \<longleftrightarrow> (\<forall>key tokens last_ms expire_ms. b key = Some (tokens, last_ms, expire_ms) \<longrightarrow>
     0 \<le> tokens \<and> expire_ms = last_ms + redis_ttl_ms)"

lemma redis_bucket_level:
  "refilled c r now (case redis_live b now k of None \<Rightarrow> (of_int c, now) | Some p \<Rightarrow> p)
     = redis_level b k c r now"
  by (simp add: redis_level_def refilled_now split: option.split)

lemma redis_consume_eq:
  "redis_consume infr b k c r cost now =
     (let full = redis_level b k c r now
      in if of_int cost \<le> full then (b(k \<mapsto> (full - of_int cost, now, now + redis_ttl_ms)), 1, 0)
         else (b(k \<mapsto> (full, now, now + redis_ttl_ms)), 0,
               if r = 0 then infr else \<lceil>(of_int cost - full) / r * 1000\<rceil>))"
  unfolding redis_consume_def Let_def redis_bucket_level by simp

lemma redis_consume_level_eq:
  "fst (snd (redis_consume infr b k c r cost now)) =
     (if of_int cost \<le> redis_level b k c r now then 1 else 0)"
  "fst (redis_consume infr b k c r cost now) =
     b(k \<mapsto> (redis_level b k c r now - (if of_int cost \<le> redis_level b k c r now then of_int cost else 0),
            now, now + redis_ttl_ms))"
  "r \<noteq> 0 \<Longrightarrow> \<not> of_int cost \<le> redis_level b k c r now \<Longrightarrow>
     snd (snd (redis_consume infr b k c r cost now)) = \<lceil>(of_int cost - redis_level b k c r now) / r * 1000\<rceil>"
  unfolding redis_consume_eq Let_def by simp_all

lemma redis_live_Some:
  "redis_live b now k = Some (tokens, last_ms) \<Longrightarrow> \<exists>e. b k = Some (tokens, last_ms, e) \<and> now < e"
  by (auto simp: redis_live_def split: option.splits if_splits)

lemma redis_level_nonneg: "redis_inv b \<Longrightarrow> redis_fine c r \<Longrightarrow> 0 \<le> redis_level b k c r now"
  by (force simp: redis_level_def redis_fine_def redis_inv_def dest: redis_live_Some
      intro: refilled_nonneg split: option.split)

lemma redis_consume_inv:
  "redis_inv b \<Longrightarrow> redis_fine c r \<Longrightarrow> redis_inv (fst (redis_consume infr b k c r cost now))"
  using redis_level_nonneg [of b c r k now]
  unfolding redis_consume_level_eq by (auto simp: redis_inv_def)

text \<open>An hour after the last call the bucket is full, whether it has expired or not.\<close>

lemma refilled_hour:
  assumes "redis_fine c r" and "0 \<le> tokens" and "last_ms + redis_ttl_ms \<le> now"
  shows "refilled c r now (tokens, last_ms) = of_int c"
proof -
  have "(3600 :: rat) \<le> of_int (now - last_ms) / 1000"
    using assms(3) by (simp add: redis_ttl_ms_def le_divide_eq)
  then have "3600 * r \<le> max 0 (of_int (now - last_ms) / 1000) * r"
    using assms(1) by (intro mult_right_mono) (auto simp: redis_fine_def)
  then have "of_int c \<le> tokens + max 0 (of_int (now - last_ms) / 1000) * r"
    using assms(1,2) by (simp add: redis_fine_def)
  then show ?thesis by (simp add: refilled_def Let_def)
qed

text \<open>So an expiring bucket always holds what the same bucket without expiry would hold.\<close>

definition forget_expiry :: "redis_buckets \<Rightarrow> mem_buckets" where
  "forget_expiry b = (\<lambda>k. map_option (\<lambda>(tokens, last_ms, expire_ms). (tokens, last_ms)) (b k))"

lemma redis_level_forget:
  "redis_inv b \<Longrightarrow> redis_fine c r \<Longrightarrow> redis_level b k c r now = mem_level (forget_expiry b) k c r now"
  by (auto simp: redis_level_def mem_level_def redis_live_def forget_expiry_def redis_inv_def refilled_hour
      split: option.split)

lemma forget_expiry_upd: "forget_expiry (b(k \<mapsto> (tokens, last_ms, e))) = (forget_expiry b)(k \<mapsto> (tokens, last_ms))"
  by (auto simp: forget_expiry_def)

lemma forget_expiry_inv: "redis_inv b \<Longrightarrow> mem_inv (forget_expiry b)"
  by (auto simp: redis_inv_def mem_inv_def forget_expiry_def)

lemma redis_fine_mem: "redis_fine c r \<Longrightarrow> mem_fine c r"
  by (simp add: redis_fine_def mem_fine_def)

lemma redis_consume_refines:
  assumes "redis_inv b" and "redis_fine c r"
  shows "forget_expiry (fst (redis_consume infr b k c r cost now)) =
      fst (mem_consume (forget_expiry b) k c r cost now)"
    and "fst (snd (redis_consume infr b k c r cost now)) =
      fst (snd (mem_consume (forget_expiry b) k c r cost now))"
    and "r \<noteq> 0 \<Longrightarrow> snd (redis_consume infr b k c r cost now) = snd (mem_consume (forget_expiry b) k c r cost now)"
  using redis_level_forget [OF assms, of k now]
  by (simp_all add: redis_consume_eq mem_consume_eq Let_def forget_expiry_upd)

lemma redis_level_other:
  "k' \<noteq> k \<Longrightarrow>
   redis_level (fst (redis_consume infr b k c r cost now)) k' c' r' now' = redis_level b k' c' r' now'"
  unfolding redis_consume_level_eq by (simp add: redis_level_def redis_live_def)

interpretation redis: token_bucket "redis_consume inf_reply" redis_level redis_fine redis_inv
proof unfold_locales
  fix b :: redis_buckets and k k' :: string and c c' cost now now' :: int and r r' :: rat
  show "redis_fine c r \<Longrightarrow> 0 \<le> c \<and> 0 \<le> r" by (simp add: redis_fine_def)
  show "redis_level b k c r now \<le> of_int c"
    by (simp add: redis_level_def refilled_le split: option.split)
  show "fst (snd (redis_consume inf_reply b k c r cost now)) =
      (if of_int cost \<le> redis_level b k c r now then 1 else 0)"
    by (rule redis_consume_level_eq)
  show "redis_inv (fst (redis_consume inf_reply b k c r cost now))" if "redis_inv b" "redis_fine c r" "0 \<le> cost"
    using that by (simp add: redis_consume_inv)
  show "0 \<le> redis_level b k c r now" if "redis_inv b" "redis_fine c r"
    using that by (simp add: redis_level_nonneg)
  show "redis_level b k c r now' \<le> redis_level b k c r now + of_int (now' - now) / 1000 * r"
    if "redis_inv b" "redis_fine c r" "now \<le> now'"
    unfolding redis_level_forget [OF that(1,2)]
    by (rule memory.level_drift [OF forget_expiry_inv redis_fine_mem]) (use that in auto)
  show "redis_level (fst (redis_consume inf_reply b k c r cost now)) k c r now' =
         min (of_int c) (redis_level b k c r now - (if of_int cost \<le> redis_level b k c r now then of_int cost else 0)
            + of_int (now' - now) / 1000 * r)"
    if "redis_inv b" "redis_fine c r" "0 \<le> cost" "now \<le> now'"
    unfolding redis_level_forget [OF redis_consume_inv [OF that(1,2)] that(2)]
      redis_consume_refines [OF that(1,2)] redis_level_forget [OF that(1,2)]
    by (rule memory.consume_level [OF forget_expiry_inv redis_fine_mem]) (use that in auto)
  show "redis_level (fst (redis_consume inf_reply b k c r cost now)) k' c' r' now' = redis_level b k' c' r' now'"
    if "k' \<noteq> k"
    by (rule redis_level_other) (rule that)
  show "snd (snd (redis_consume inf_reply b k c r cost now)) = \<lceil>(of_int cost - redis_level b k c r now) / r * 1000\<rceil>"
    if "0 < r" "\<not> of_int cost \<le> redis_level b k c r now"
    by (rule redis_consume_level_eq) (use that in auto)
qed

section \<open>Properties\<close>

lemma quota_for_cases:
  "quota_for cfg tool = default_quota cfg \<or>
   quota_for cfg tool \<in> {\<lparr>quota_capacity = 3, quota_refill_per_minute = 10\<rparr>,
     \<lparr>quota_capacity = 30, quota_refill_per_minute = 120\<rparr>}"
  by (simp add: quota_for_def quota_overrides_def)

text \<open>The settings each backend serves.\<close>

definition sane_limits :: "settings \<Rightarrow> bool" where
  "sane_limits cfg \<longleftrightarrow> 0 \<le> rate_limit_burst cfg \<and> 0 \<le> rate_limit_default_rpm cfg"

definition hourly_refill :: "settings \<Rightarrow> bool" where
  "hourly_refill cfg \<longleftrightarrow> 0 \<le> rate_limit_burst cfg \<and> 0 < rate_limit_default_rpm cfg
     \<and> rate_limit_burst cfg \<le> 60 * rate_limit_default_rpm cfg"

lemma memory_served: "sane_limits cfg \<Longrightarrow> memory.served cfg tool"
  using quota_for_cases [of cfg tool]
  by (auto simp: memory.served_def sane_limits_def mem_fine_def default_quota_def refill_rate_def)

lemma quota_redis_fine:
  assumes "hourly_refill cfg"
  shows "redis_fine (quota_capacity (quota_for cfg tool)) (refill_rate (quota_for cfg tool)) \<and>
    0 < refill_rate (quota_for cfg tool)"
proof -
  have "of_int (rate_limit_burst cfg) \<le> (of_int (60 * rate_limit_default_rpm cfg) :: rat)"
    using assms unfolding hourly_refill_def of_int_le_iff by simp
  with assms quota_for_cases [of cfg tool] show ?thesis
    by (auto simp: hourly_refill_def redis_fine_def default_quota_def refill_rate_def)
qed

lemma mem_inv_empty [simp]: "mem_inv Map.empty"
  by (simp add: mem_inv_def)

lemma redis_inv_empty [simp]: "redis_inv Map.empty"
  by (simp add: redis_inv_def)

text \<open>C9: The quota holds over any history: whatever the other tenants and tools do in between,
  the calls one tenant gets through to one tool never exceed the burst size plus the refill of
  the time that passed, while the clock does not go back.\<close>

theorem rate_limit_bound:
  assumes "sane_limits cfg" and "CHR '':'' \<notin> set tool" and "tools_plain calls"
    and "monotone_from t0 calls"
  shows "of_nat (granted mem_consume cfg tenant tool Map.empty calls)
    \<le> (of_int (quota_capacity (quota_for cfg tool))
       + of_int (to_ms (last_time t0 calls) - to_ms t0) / 1000 * refill_rate (quota_for cfg tool) :: rat)"
  using memory.granted_bound [OF mem_inv_empty memory_served [OF assms(1)] assms(2-4), of tenant]
    memory.tool_level_capacity [of cfg Map.empty tenant tool t0]
  by linarith

theorem rate_limit_bound_witness:
  "granted mem_consume default_settings ''acme'' ''customer.build_context'' Map.empty
     (replicate 5 (''acme'', ''customer.build_context'', 100)) = 3 \<and>
   (3::rat) \<le> of_int (quota_capacity (quota_for default_settings ''customer.build_context''))"
proof -
  let ?calls = "replicate 5 (''acme'', ''customer.build_context'', 100 :: rat)"
  have g: "granted mem_consume default_settings ''acme'' ''customer.build_context'' Map.empty ?calls = 3"
    by (simp add: numeral_eq_Suc acquire_def mem_consume_def refilled_def quota_for_def quota_overrides_def
        refill_rate_def Let_def)
  have "of_nat (granted mem_consume default_settings ''acme'' ''customer.build_context'' Map.empty ?calls)
    \<le> (of_int (quota_capacity (quota_for default_settings ''customer.build_context''))
       + of_int (to_ms (last_time 100 ?calls) - to_ms 100) / 1000
         * refill_rate (quota_for default_settings ''customer.build_context'') :: rat)"
    by (rule rate_limit_bound)
       (simp_all add: sane_limits_def numeral_eq_Suc)
  moreover have "last_time 100 ?calls = 100" by (simp add: numeral_eq_Suc)
  ultimately show ?thesis using g by simp
qed

text \<open>The advice of a refusal is honest: a refused call that could ever be served is told a
  delay, and once that delay has passed the same call is let through, unless another call of
  the same tenant to the same tool came first.\<close>

theorem rate_limit_retry_after:
  assumes "mem_inv s" and "sane_limits cfg" and "0 < refill_rate (quota_for cfg tool)"
    and "0 \<le> cost" and "cost \<le> quota_capacity (quota_for cfg tool)"
    and "\<not> is_ok (fst (acquire mem_consume cfg s tenant tool cost time))"
  shows "\<exists>r. fst (acquire mem_consume cfg s tenant tool cost time) = Inl (Tool_Exc (rate_limit_error r None))
    \<and> 0 < r
    \<and> (\<forall>time'. time + r \<le> time' \<longrightarrow>
        is_ok (fst (acquire mem_consume cfg (snd (acquire mem_consume cfg s tenant tool cost time))
          tenant tool cost time')))"
proof -
  let ?m = "memory.retry_ms cfg s tenant tool cost time"
  have "memory.tool_level cfg s tenant tool time < of_int cost"
    using assms(6) by (simp add: memory.acquire_ok)
  then have "0 < ?m" using assms(3) by (simp add: memory.retry_ms_def)
  then have "0 < (of_int ?m / 1000 :: rat)" by simp
  then show ?thesis
    using memory.acquire_refused [OF assms(3,6)]
      memory.retry_after_enough [OF assms(1) memory_served [OF assms(2)] assms(3-6)]
    by blast
qed

definition drained :: mem_buckets where
  "drained = [rl_key ''acme'' ''customer.build_context'' \<mapsto> (0, 100000)]"

theorem rate_limit_retry_after_witness:
  "\<exists>r. fst (acquire mem_consume default_settings drained ''acme'' ''customer.build_context'' 1 100)
        = Inl (Tool_Exc (rate_limit_error r None)) \<and> 0 < r"
proof -
  have no: "\<not> is_ok (fst (acquire mem_consume default_settings drained ''acme'' ''customer.build_context'' 1 100))"
    by (simp add: acquire_def mem_consume_def refilled_def quota_for_def quota_overrides_def
        refill_rate_def Let_def drained_def)
  have "\<exists>r. fst (acquire mem_consume default_settings drained ''acme'' ''customer.build_context'' 1 100)
        = Inl (Tool_Exc (rate_limit_error r None)) \<and> 0 < r
      \<and> (\<forall>time'. 100 + r \<le> time' \<longrightarrow>
        is_ok (fst (acquire mem_consume default_settings
          (snd (acquire mem_consume default_settings drained ''acme'' ''customer.build_context'' 1 100))
          ''acme'' ''customer.build_context'' 1 time')))"
    by (rule rate_limit_retry_after [OF _ _ _ _ _ no])
       (simp_all add: mem_inv_def drained_def sane_limits_def quota_for_def quota_overrides_def refill_rate_def)
  then show ?thesis by blast
qed

fun answers ::
    "'s backend \<Rightarrow> settings \<Rightarrow> 's \<Rightarrow> (string \<times> string \<times> rat) list \<Rightarrow> unit outcome list" where
  "answers consume cfg s [] = []"
| "answers consume cfg s ((t, u, time) # calls) =
     (case acquire consume cfg s t u 1 time of (result, s') \<Rightarrow> result # answers consume cfg s' calls)"

text \<open>C21: The shared backend behaves as the in-process one: over any history the Lua script on
  Redis and the dictionary give every call the same answer, the retry delay included, when an
  hour refills every bucket. The expiry of idle buckets is invisible.\<close>

theorem redis_equals_memory:
  assumes "hourly_refill cfg"
  shows "answers (redis_consume inf_reply) cfg Map.empty calls = answers mem_consume cfg Map.empty calls"
proof -
  have "answers (redis_consume inf_reply) cfg b calls = answers mem_consume cfg (forget_expiry b) calls"
    if "redis_inv b" for b
    using that
  proof (induction calls arbitrary: b)
    case Nil
    then show ?case by simp
  next
    case (Cons call calls)
    obtain t u time where call: "call = (t, u, time)" by (cases call)
    let ?c = "quota_capacity (quota_for cfg u)" and ?r = "refill_rate (quota_for cfg u)"
    let ?R = "redis_consume inf_reply b (rl_key t u) ?c ?r 1 (to_ms time)"
    let ?M = "mem_consume (forget_expiry b) (rl_key t u) ?c ?r 1 (to_ms time)"
    have fine: "redis_fine ?c ?r" "?r \<noteq> 0" using quota_redis_fine [OF assms, of u] by auto
    have st: "forget_expiry (fst ?R) = fst ?M" and ans: "snd ?R = snd ?M"
      using redis_consume_refines [OF Cons.prems fine(1)] fine(2) by auto
    have "redis_inv (fst ?R)" by (rule redis_consume_inv [OF Cons.prems fine(1)])
    from Cons.IH [OF this] st ans show ?case
      by (simp add: call acquire_def Let_def case_prod_beta)
  qed
  from this [OF redis_inv_empty] show ?thesis by (simp add: forget_expiry_def)
qed

theorem redis_equals_memory_witness:
  "answers (redis_consume 0) default_settings Map.empty [(''acme'', ''server.ping'', 5)]
   = answers mem_consume default_settings Map.empty [(''acme'', ''server.ping'', 5)]"
  by (rule redis_equals_memory) (simp add: hourly_refill_def)

fun answers_for ::
    "'s backend \<Rightarrow> settings \<Rightarrow> string \<Rightarrow> string \<Rightarrow> 's \<Rightarrow> (string \<times> string \<times> rat) list \<Rightarrow> unit outcome list" where
  "answers_for consume cfg tenant tool s [] = []"
| "answers_for consume cfg tenant tool s ((t, u, time) # calls) =
     (case acquire consume cfg s t u 1 time of (result, s') \<Rightarrow>
        (if t = tenant \<and> u = tool then [result] else [])
        @ answers_for consume cfg tenant tool s' calls)"

lemma acquire_mem_local:
  assumes "s (rl_key t u) = s' (rl_key t u)"
  shows "fst (acquire mem_consume cfg s t u 1 time) = fst (acquire mem_consume cfg s' t u 1 time)"
    and "snd (acquire mem_consume cfg s t u 1 time) (rl_key t u) =
         snd (acquire mem_consume cfg s' t u 1 time) (rl_key t u)"
  using assms by (simp_all add: acquire_def mem_consume_def Let_def case_prod_beta)

lemma acquire_mem_other:
  "k \<noteq> rl_key t u \<Longrightarrow> snd (acquire mem_consume cfg s t u 1 time) k = s k"
  by (simp add: acquire_def mem_consume_def Let_def case_prod_beta)

text \<open>Noisy neighbours do not matter: the answers one tenant gets from one tool in a history
  shared with everyone are exactly the answers it gets when its own calls are the whole
  history.\<close>

theorem rate_limit_isolation:
  assumes "CHR '':'' \<notin> set tool" and "tools_plain calls"
  shows "answers_for mem_consume cfg tenant tool Map.empty calls =
    answers mem_consume cfg Map.empty (filter (\<lambda>(t, u, time). t = tenant \<and> u = tool) calls)"
proof -
  have "answers_for mem_consume cfg tenant tool s calls =
    answers mem_consume cfg s' (filter (\<lambda>(t, u, time). t = tenant \<and> u = tool) calls)"
    if "s (rl_key tenant tool) = s' (rl_key tenant tool)" for s s'
    using that assms(2)
  proof (induction calls arbitrary: s s')
    case Nil
    then show ?case by simp
  next
    case (Cons call calls)
    obtain t u time where call: "call = (t, u, time)" by (cases call)
    show ?case
    proof (cases "t = tenant \<and> u = tool")
      case True
      then have "s (rl_key t u) = s' (rl_key t u)" using Cons.prems(1) by simp
      note same = acquire_mem_local [where s = s and s' = s' and t = t and u = u, OF this]
      have "answers_for mem_consume cfg tenant tool (snd (acquire mem_consume cfg s t u 1 time)) calls =
        answers mem_consume cfg (snd (acquire mem_consume cfg s' t u 1 time))
          (filter (\<lambda>(t, u, time). t = tenant \<and> u = tool) calls)"
        by (rule Cons.IH) (use same(2) [of cfg time] True Cons.prems(2) in auto)
      with True call same(1) [of cfg time] show ?thesis
        by (simp add: split_def)
    next
      case False
      then have "rl_key tenant tool \<noteq> rl_key t u"
        using rl_key_inj [of tenant tool t u] assms(1) Cons.prems(2) call by auto
      then have "snd (acquire mem_consume cfg s t u 1 time) (rl_key tenant tool) = s' (rl_key tenant tool)"
        using Cons.prems(1) by (simp add: acquire_mem_other)
      then have "answers_for mem_consume cfg tenant tool (snd (acquire mem_consume cfg s t u 1 time)) calls =
        answers mem_consume cfg s' (filter (\<lambda>(t, u, time). t = tenant \<and> u = tool) calls)"
        by (rule Cons.IH) (use Cons.prems(2) in auto)
      with call False show ?thesis by (auto simp: split_def)
    qed
  qed
  then show ?thesis by blast
qed

theorem rate_limit_isolation_witness:
  "answers_for mem_consume default_settings ''acme'' ''server.ping'' Map.empty
     [(''globex'', ''server.ping'', 1), (''acme'', ''server.ping'', 1)]
   = answers mem_consume default_settings Map.empty [(''acme'', ''server.ping'', 1)]"
  using rate_limit_isolation [of "''server.ping''"
      "[(''globex'', ''server.ping'', 1), (''acme'', ''server.ping'', 1)]" default_settings "''acme''"]
  by simp

text \<open>
  Without the hypothesis on the clock the bound fails: a bucket stores the time of every call
  as it is, so a wall clock that steps back and recovers is refilled twice. Here six calls pass
  in no time where the quota is three.
\<close>

lemma clock_step_back_double_refill:
  "granted mem_consume default_settings ''acme'' ''customer.build_context'' Map.empty
     (replicate 4 (''acme'', ''customer.build_context'', 100)
      @ (''acme'', ''customer.build_context'', 82)
      # replicate 4 (''acme'', ''customer.build_context'', 100)) = 6"
  by (simp add: numeral_eq_Suc acquire_def mem_consume_def refilled_def quota_for_def
      quota_overrides_def refill_rate_def Let_def)

end
