(* ===== verification/Retry.thy ===== *)
theory Retry
  imports Errors
begin

text \<open>
  The retry loop (\<^verbatim>\<open>reliability/retry.py\<close>). The loop threads a state \<open>'s\<close> through the retried
  function and the sleeps; what the event loop and the random generator contribute is the
  record \<open>retry_env\<close>: the loop's clock, the sleep (which a cancellation may interrupt) and the
  number in \<open>[0, 1)\<close> that \<^verbatim>\<open>random.random\<close> draws for each attempt.
\<close>

record retry_config =
  rt_max_attempts :: int
  rt_base_delay_ms :: int
  rt_max_delay_ms :: int
  rt_deadline_s :: "rat option"

text \<open>The defaults of the keyword parameters.\<close>

definition default_retry :: retry_config where
  "default_retry = \<lparr>rt_max_attempts = 3, rt_base_delay_ms = 100, rt_max_delay_ms = 2000,
                    rt_deadline_s = None\<rparr>"

record 's retry_env =
  loop_time :: "'s \<Rightarrow> rat"
  sleep_for :: "rat \<Rightarrow> 's \<Rightarrow> unit outcome \<times> 's"
  random_draw :: "int \<Rightarrow> rat"

text \<open>\<^verbatim>\<open>random.uniform(a, b)\<close> is \<^verbatim>\<open>a + (b - a) * random()\<close>.\<close>

definition uniform :: "rat \<Rightarrow> rat \<Rightarrow> rat \<Rightarrow> rat" where
  "uniform a b u = a + (b - a) * u"

definition backoff_cap :: "int \<Rightarrow> int \<Rightarrow> int \<Rightarrow> int" where
  "backoff_cap attempt base_ms max_ms = min max_ms (base_ms * 2 ^ nat (attempt - 1))"

definition backoff :: "int \<Rightarrow> int \<Rightarrow> int \<Rightarrow> rat \<Rightarrow> rat" where
  "backoff attempt base_ms max_ms u =
     (let cap = backoff_cap attempt base_ms max_ms in uniform 0 (of_int cap) u / 1000)"

definition past_deadline :: "rat option \<Rightarrow> rat \<Rightarrow> rat \<Rightarrow> bool" where
  "past_deadline deadline_s now delay =
     (case deadline_s of None \<Rightarrow> False | Some d \<Rightarrow> d - now \<le> delay)"

function retry_from ::
    "'s retry_env \<Rightarrow> retry_config \<Rightarrow> ('s \<Rightarrow> 'a outcome \<times> 's) \<Rightarrow> tool_error option \<Rightarrow> int \<Rightarrow> 's
       \<Rightarrow> 'a outcome \<times> 's" where
  "retry_from ev cfg fn last_exc attempt s =
     (if rt_max_attempts cfg < attempt then
        (case last_exc of
           None \<Rightarrow> (Inl (Py_Exc ''AssertionError'' ''''), s)
         | Some e \<Rightarrow> (Inl (Tool_Exc e), s))
      else
        (case fn s of
           (Inl (Tool_Exc e), s1) \<Rightarrow>
             if \<not> err_retryable e \<or> attempt = rt_max_attempts cfg then (Inl (Tool_Exc e), s1)
             else
               (let delay = backoff attempt (rt_base_delay_ms cfg) (rt_max_delay_ms cfg)
                              (random_draw ev attempt)
                in if past_deadline (rt_deadline_s cfg) (loop_time ev s1) delay
                   then (Inl (Tool_Exc e), s1)
                   else (case sleep_for ev delay s1 of
                           (Inl x, s2) \<Rightarrow> (Inl x, s2)
                         | (Inr u, s2) \<Rightarrow> retry_from ev cfg fn (Some e) (attempt + 1) s2))
         | (r, s1) \<Rightarrow> (r, s1)))"
  by pat_completeness auto
termination
  by (relation "measure (\<lambda>(ev, cfg, fn, l, attempt, s). nat (rt_max_attempts cfg + 1 - attempt))") auto

declare retry_from.simps [simp del]

definition with_retry ::
    "'s retry_env \<Rightarrow> retry_config \<Rightarrow> ('s \<Rightarrow> 'a outcome \<times> 's) \<Rightarrow> 's \<Rightarrow> 'a outcome \<times> 's" where
  "with_retry ev cfg fn s = retry_from ev cfg fn None 1 s"

section \<open>Case rules\<close>

definition retriable_outcome :: "'a outcome \<Rightarrow> bool" where
  "retriable_outcome r = (case r of Inl (Tool_Exc e) \<Rightarrow> err_retryable e | _ \<Rightarrow> False)"

lemma retriable_simps [simp]:
  "retriable_outcome (Inl (Tool_Exc e)) = err_retryable e"
  "\<not> retriable_outcome (Inr v)" "\<not> retriable_outcome (Inl Cancelled)"
  "\<not> retriable_outcome (Inl (Py_Exc ty m))"
  by (simp_all add: retriable_outcome_def)

text \<open>The loop runs out without an attempt only when no attempt is allowed at all.\<close>

lemma retry_from_exhausted:
  "rt_max_attempts cfg < attempt \<Longrightarrow> retry_from ev cfg fn l attempt s =
     (case l of None \<Rightarrow> (Inl (Py_Exc ''AssertionError'' ''''), s) | Some e \<Rightarrow> (Inl (Tool_Exc e), s))"
  by (simp add: retry_from.simps [of ev cfg fn l attempt s])

lemma retry_from_stop:
  assumes "attempt \<le> rt_max_attempts cfg" and "fn s = (r, s1)"
    and "\<not> retriable_outcome r \<or> attempt = rt_max_attempts cfg"
  shows "retry_from ev cfg fn l attempt s = (r, s1)"
  using assms
  by (cases r) (auto simp: retry_from.simps [of ev cfg fn l attempt s] split: exc.split)

abbreviation delay_at :: "'s retry_env \<Rightarrow> retry_config \<Rightarrow> int \<Rightarrow> rat" where
  "delay_at ev cfg attempt \<equiv>
     backoff attempt (rt_base_delay_ms cfg) (rt_max_delay_ms cfg) (random_draw ev attempt)"

lemma retry_from_again:
  assumes "attempt < rt_max_attempts cfg" and "fn s = (Inl (Tool_Exc e), s1)" and "err_retryable e"
  shows "retry_from ev cfg fn l attempt s =
    (if past_deadline (rt_deadline_s cfg) (loop_time ev s1) (delay_at ev cfg attempt)
     then (Inl (Tool_Exc e), s1)
     else (case sleep_for ev (delay_at ev cfg attempt) s1 of
             (Inl x, s2) \<Rightarrow> (Inl x, s2)
           | (Inr u, s2) \<Rightarrow> retry_from ev cfg fn (Some e) (attempt + 1) s2))"
  using assms by (simp add: retry_from.simps [of ev cfg fn l attempt s] Let_def)

text \<open>One round of the loop, as a case analysis for inductions over it.\<close>

lemma retry_round:
  assumes "attempt \<le> rt_max_attempts cfg" and "fn s = (r, s1)"
  obtains (stop) "retry_from ev cfg fn l attempt s = (r, s1)"
  | (interrupted) e x s2 where "r = Inl (Tool_Exc e)" "err_retryable e"
      "attempt < rt_max_attempts cfg"
      "\<not> past_deadline (rt_deadline_s cfg) (loop_time ev s1) (delay_at ev cfg attempt)"
      "sleep_for ev (delay_at ev cfg attempt) s1 = (Inl x, s2)"
      "retry_from ev cfg fn l attempt s = (Inl x, s2)"
  | (again) e s2 where "r = Inl (Tool_Exc e)" "err_retryable e"
      "attempt < rt_max_attempts cfg"
      "\<not> past_deadline (rt_deadline_s cfg) (loop_time ev s1) (delay_at ev cfg attempt)"
      "sleep_for ev (delay_at ev cfg attempt) s1 = (Inr (), s2)"
      "retry_from ev cfg fn l attempt s = retry_from ev cfg fn (Some e) (attempt + 1) s2"
proof (cases "\<not> retriable_outcome r \<or> attempt = rt_max_attempts cfg")
  case True
  with assms have "retry_from ev cfg fn l attempt s = (r, s1)" by (simp add: retry_from_stop)
  then show thesis by (rule stop)
next
  case False
  then obtain e where e: "r = Inl (Tool_Exc e)" "err_retryable e"
    by (auto simp: retriable_outcome_def split: sum.splits exc.splits)
  have less: "attempt < rt_max_attempts cfg" using False assms(1) by simp
  note eq = retry_from_again [of attempt cfg fn s e s1 ev l, OF less assms(2) [unfolded e(1)] e(2)]
  show thesis
  proof (cases "past_deadline (rt_deadline_s cfg) (loop_time ev s1) (delay_at ev cfg attempt)")
    case True
    with eq e have "retry_from ev cfg fn l attempt s = (r, s1)" by simp
    then show thesis by (rule stop)
  next
    case no_deadline: False
    obtain y s2 where sl: "sleep_for ev (delay_at ev cfg attempt) s1 = (y, s2)"
      by (cases "sleep_for ev (delay_at ev cfg attempt) s1")
    show thesis
    proof (cases y)
      case (Inl x)
      with sl eq no_deadline e less show thesis by (auto intro: interrupted)
    next
      case (Inr u)
      with sl eq no_deadline e less show thesis by (auto intro: again)
    qed
  qed
qed

section \<open>Traces\<close>

text \<open>
  The same loop with what it does written down: every call of the function with its outcome,
  every sleep with the time it was started at and its length.
\<close>

datatype 'a retry_event = Called "'a outcome" | Slept rat rat

definition traced :: "('s \<Rightarrow> 'a outcome \<times> 's) \<Rightarrow> 's \<times> 'a retry_event list \<Rightarrow> 'a outcome \<times> 's \<times> 'a retry_event list" where
  "traced fn st = (case fn (fst st) of (r, s1) \<Rightarrow> (r, s1, snd st @ [Called r]))"

definition traced_env :: "'s retry_env \<Rightarrow> ('s \<times> 'a retry_event list) retry_env" where
  "traced_env ev =
     \<lparr>loop_time = (\<lambda>st. loop_time ev (fst st)),
      sleep_for = (\<lambda>d st. case sleep_for ev d (fst st) of
                     (r, s1) \<Rightarrow> (r, s1, snd st @ [Slept (loop_time ev (fst st)) d])),
      random_draw = random_draw ev\<rparr>"

lemma traced_env_simps [simp]:
  "loop_time (traced_env ev) st = loop_time ev (fst st)"
  "sleep_for (traced_env ev) d st = (case sleep_for ev d (fst st) of
     (r, s1) \<Rightarrow> (r, s1, snd st @ [Slept (loop_time ev (fst st)) d]))"
  "random_draw (traced_env ev) = random_draw ev"
  by (simp_all add: traced_env_def)

text \<open>The calls and the sleeps of a trace.\<close>

fun calls_of :: "'a retry_event list \<Rightarrow> 'a outcome list" where
  "calls_of [] = []"
| "calls_of (Called r # es) = r # calls_of es"
| "calls_of (Slept t d # es) = calls_of es"

fun sleeps_of :: "'a retry_event list \<Rightarrow> (rat \<times> rat) list" where
  "sleeps_of [] = []"
| "sleeps_of (Called r # es) = sleeps_of es"
| "sleeps_of (Slept t d # es) = (t, d) # sleeps_of es"

lemma calls_of_append [simp]: "calls_of (a @ b) = calls_of a @ calls_of b"
  by (induction a rule: calls_of.induct) auto

lemma sleeps_of_append [simp]: "sleeps_of (a @ b) = sleeps_of a @ sleeps_of b"
  by (induction a rule: sleeps_of.induct) auto

text \<open>Tracing changes nothing.\<close>

lemma traced_same:
  "(case retry_from (traced_env ev) cfg (traced fn) l attempt (s, tr) of (r, s', tr') \<Rightarrow> (r, s')) =
     retry_from ev cfg fn l attempt s"
proof (induction ev cfg fn l attempt s arbitrary: tr rule: retry_from.induct)
  case (1 ev cfg fn l attempt s)
  show ?case
  proof (cases "rt_max_attempts cfg < attempt")
    case True
    then show ?thesis by (simp add: retry_from_exhausted split: option.split)
  next
    case False
    obtain r s1 where fn: "fn s = (r, s1)" by (cases "fn s")
    then have tfn: "traced fn (s, tr) = (r, s1, tr @ [Called r])" by (simp add: traced_def)
    show ?thesis
    proof (cases "\<not> retriable_outcome r \<or> attempt = rt_max_attempts cfg")
      case True
      with False fn tfn show ?thesis by (simp add: retry_from_stop)
    next
      case again: False
      then obtain e where e: "r = Inl (Tool_Exc e)" "err_retryable e"
        by (auto simp: retriable_outcome_def split: sum.splits exc.splits)
      from again False have less: "attempt < rt_max_attempts cfg" by simp
      note eq = retry_from_again [of attempt cfg fn s e s1 ev l, OF less fn [unfolded e(1)] e(2)]
      have tfn': "traced fn (s, tr) = (Inl (Tool_Exc e), s1, tr @ [Called r])"
        using tfn e(1) by simp
      note teq = retry_from_again [of attempt cfg "traced fn" "(s, tr)" e "(s1, tr @ [Called r])"
          "traced_env ev" l, OF less tfn' e(2)]
      show ?thesis
      proof (cases "past_deadline (rt_deadline_s cfg) (loop_time ev s1) (delay_at ev cfg attempt)")
        case True
        with eq teq e(1) show ?thesis by simp
      next
        case nod: False
        obtain y s2 where sl: "sleep_for ev (delay_at ev cfg attempt) s1 = (y, s2)"
          by (cases "sleep_for ev (delay_at ev cfg attempt) s1")
        show ?thesis
        proof (cases y)
          case (Inl x)
          with eq teq nod sl show ?thesis by simp
        next
          case (Inr u)
          note ih = 1 [OF False fn [symmetric] e(1) refl _ refl nod sl [symmetric] Inr]
          from eq teq nod sl Inr ih less e(2) show ?thesis by simp
        qed
      qed
    qed
  qed
qed

section \<open>What a trace can be\<close>

text \<open>Every sleep of a run is within the cap of its attempt and ends before the deadline.\<close>

definition sleep_ok :: "retry_config \<Rightarrow> int \<Rightarrow> rat \<times> rat \<Rightarrow> bool" where
  "sleep_ok cfg attempt sl =
     (0 \<le> snd sl \<and>
      snd sl \<le> of_int (backoff_cap attempt (rt_base_delay_ms cfg) (rt_max_delay_ms cfg)) / 1000 \<and>
      (case rt_deadline_s cfg of None \<Rightarrow> True | Some d \<Rightarrow> fst sl + snd sl < d))"

definition fair_draws :: "'s retry_env \<Rightarrow> bool" where
  "fair_draws ev \<longleftrightarrow> (\<forall>k. 0 \<le> random_draw ev k \<and> random_draw ev k \<le> 1)"

lemma backoff_bounds:
  assumes "0 \<le> u" "u \<le> 1" "0 \<le> base" "0 \<le> cap"
  shows "0 \<le> backoff k base cap u" "backoff k base cap u \<le> of_int (backoff_cap k base cap) / 1000"
proof -
  have c: "0 \<le> (of_int (backoff_cap k base cap) :: rat)"
    using assms(3,4) by (simp add: backoff_cap_def)
  then show "0 \<le> backoff k base cap u" using assms(1) by (simp add: backoff_def uniform_def Let_def)
  show "backoff k base cap u \<le> of_int (backoff_cap k base cap) / 1000"
    using mult_left_mono [OF assms(2) c] by (simp add: backoff_def uniform_def Let_def)
qed

lemma sleep_ok_backoff:
  assumes "fair_draws ev" "0 \<le> rt_base_delay_ms cfg" "0 \<le> rt_max_delay_ms cfg"
    and "\<not> past_deadline (rt_deadline_s cfg) t (delay_at ev cfg k)"
  shows "sleep_ok cfg k (t, delay_at ev cfg k)"
  using assms backoff_bounds
  by (auto simp: sleep_ok_def fair_draws_def past_deadline_def split: option.splits)

fun sleeps_ok :: "retry_config \<Rightarrow> int \<Rightarrow> (rat \<times> rat) list \<Rightarrow> bool" where
  "sleeps_ok cfg k [] = True"
| "sleeps_ok cfg k (sl # sls) = (sleep_ok cfg k sl \<and> sleeps_ok cfg (k + 1) sls)"

lemma sleeps_ok_nth: "sleeps_ok cfg k sls \<Longrightarrow> i < length sls \<Longrightarrow> sleep_ok cfg (k + int i) (sls ! i)"
proof (induction cfg k sls arbitrary: i rule: sleeps_ok.induct)
  case (1 cfg k)
  then show ?case by simp
next
  case (2 cfg k sl sls)
  then show ?case by (cases i) (auto simp: algebra_simps)
qed

text \<open>The calls of a run that starts at an attempt, and why it ended.\<close>

definition run_ok :: "'s retry_env \<Rightarrow> retry_config \<Rightarrow> int \<Rightarrow> 'a retry_event list \<Rightarrow> 'a outcome \<Rightarrow> bool" where
  "run_ok ev cfg k es r \<longleftrightarrow>
     calls_of es \<noteq> [] \<and>
     int (length (calls_of es)) \<le> rt_max_attempts cfg - k + 1 \<and>
     (\<forall>c \<in> set (butlast (calls_of es)). retriable_outcome c) \<and>
     (length (sleeps_of es) + 1 = length (calls_of es) \<and> r = last (calls_of es) \<and>
        (\<not> retriable_outcome r \<or> int (length (calls_of es)) = rt_max_attempts cfg - k + 1
           \<or> rt_deadline_s cfg \<noteq> None)
      \<or> length (sleeps_of es) = length (calls_of es) \<and> retriable_outcome (last (calls_of es)) \<and>
        (\<exists>x d s s'. r = Inl x \<and> sleep_for ev d s = (Inl x, s')))"

lemma run_ok_stop:
  assumes "k \<le> rt_max_attempts cfg"
    and "\<not> retriable_outcome r \<or> k = rt_max_attempts cfg \<or> rt_deadline_s cfg \<noteq> None"
  shows "run_ok ev cfg k [Called r] r"
  using assms by (auto simp: run_ok_def)

lemma run_ok_again:
  assumes "run_ok ev cfg (k + 1) es r" and "retriable_outcome c"
  shows "run_ok ev cfg k (Called c # Slept t d # es) r"
  using assms by (auto simp: run_ok_def)

lemma run_ok_interrupted:
  assumes "k < rt_max_attempts cfg" and "retriable_outcome c" and "sleep_for ev d s = (Inl x, s')"
  shows "run_ok ev cfg k [Called c, Slept t d] (Inl x)"
  using assms by (auto simp: run_ok_def)

lemma retry_trace:
  assumes "attempt \<le> rt_max_attempts cfg"
    and "retry_from (traced_env ev) cfg (traced fn) l attempt (s, tr) = (r, s', tr')"
  shows "\<exists>es. tr' = tr @ es \<and> run_ok ev cfg attempt es r \<and>
    (fair_draws ev \<and> 0 \<le> rt_base_delay_ms cfg \<and> 0 \<le> rt_max_delay_ms cfg
       \<longrightarrow> sleeps_ok cfg attempt (sleeps_of es))"
  using assms
proof (induction "nat (rt_max_attempts cfg - attempt)" arbitrary: attempt l s tr)
  case (0 attempt l s tr)
  obtain r1 s1 where fn: "fn s = (r1, s1)" by (cases "fn s")
  from 0 have last: "attempt = rt_max_attempts cfg" by simp
  with 0 fn have "r = r1" "tr' = tr @ [Called r1]"
    by (auto simp: retry_from_stop traced_def)
  moreover from last have "run_ok ev cfg attempt [Called r1] r1" by (simp add: run_ok_stop)
  ultimately show ?case by auto
next
  case (Suc n attempt l s tr)
  obtain r1 s1 where fn: "fn s = (r1, s1)" by (cases "fn s")
  then have tfn: "traced fn (s, tr) = (r1, s1, tr @ [Called r1])" by (simp add: traced_def)
  let ?d = "delay_at ev cfg attempt" and ?t = "loop_time ev s1"
  show ?case
  proof (cases "\<not> retriable_outcome r1 \<or> attempt = rt_max_attempts cfg
      \<or> past_deadline (rt_deadline_s cfg) ?t ?d")
    case True
    have "r = r1 \<and> tr' = tr @ [Called r1]"
    proof (cases "\<not> retriable_outcome r1 \<or> attempt = rt_max_attempts cfg")
      case True
      with retry_from_stop [of attempt cfg "traced fn" "(s, tr)" _ _ "traced_env ev" l, OF _ tfn]
        Suc.prems show ?thesis by simp
    next
      case False
      then obtain e where e: "r1 = Inl (Tool_Exc e)" "err_retryable e"
        by (auto simp: retriable_outcome_def split: sum.splits exc.splits)
      have tfn': "traced fn (s, tr) = (Inl (Tool_Exc e), s1, tr @ [Called r1])"
        using tfn e(1) by simp
      from False Suc.prems(1) have "attempt < rt_max_attempts cfg" by simp
      from retry_from_again [of attempt cfg "traced fn" "(s, tr)" e _ "traced_env ev" l,
          OF this tfn' e(2)] Suc.prems(2) True False e
      show ?thesis by simp
    qed
    moreover have "run_ok ev cfg attempt [Called r1] r1"
      using True Suc.prems(1) by (auto intro!: run_ok_stop simp: past_deadline_def split: option.splits)
    ultimately show ?thesis by auto
  next
    case False
    then obtain e where e: "r1 = Inl (Tool_Exc e)" "err_retryable e"
      by (auto simp: retriable_outcome_def split: sum.splits exc.splits)
    from False Suc.prems(1) have less: "attempt < rt_max_attempts cfg" by simp
    have tfn': "traced fn (s, tr) = (Inl (Tool_Exc e), s1, tr @ [Called r1])" using tfn e(1) by simp
    note teq = retry_from_again [of attempt cfg "traced fn" "(s, tr)" e _ "traced_env ev" l,
        OF less tfn' e(2)]
    obtain y s2 where sl: "sleep_for ev ?d s1 = (y, s2)" by (cases "sleep_for ev ?d s1")
    show ?thesis
    proof (cases y)
      case (Inl x)
      then have "r = Inl x" "tr' = tr @ [Called r1, Slept ?t ?d]"
        using Suc.prems(2) teq sl False by auto
      moreover have "run_ok ev cfg attempt [Called r1, Slept ?t ?d] (Inl x)"
        using less e sl Inl by (intro run_ok_interrupted) auto
      ultimately show ?thesis using False by (auto intro: sleep_ok_backoff)
    next
      case (Inr u)
      then have "retry_from (traced_env ev) cfg (traced fn) (Some e) (attempt + 1)
          (s2, tr @ [Called r1, Slept ?t ?d]) = (r, s', tr')"
        using Suc.prems(2) teq sl False by simp
      moreover have "n = nat (rt_max_attempts cfg - (attempt + 1))" "attempt + 1 \<le> rt_max_attempts cfg"
        using Suc.hyps(2) less by linarith+
      ultimately obtain es where
        es: "tr' = tr @ [Called r1, Slept ?t ?d] @ es" "run_ok ev cfg (attempt + 1) es r"
          "fair_draws ev \<and> 0 \<le> rt_base_delay_ms cfg \<and> 0 \<le> rt_max_delay_ms cfg
             \<longrightarrow> sleeps_ok cfg (attempt + 1) (sleeps_of es)"
        using Suc.hyps(1) [of "attempt + 1" "Some e" s2 "tr @ [Called r1, Slept ?t ?d]"] by auto
      have "run_ok ev cfg attempt (Called r1 # Slept ?t ?d # es) r"
        using es(2) e by (intro run_ok_again) auto
      then show ?thesis
        using es(1,3) False
        by (intro exI [of _ "Called r1 # Slept ?t ?d # es"]) (auto intro: sleep_ok_backoff)
    qed
  qed
qed

section \<open>Measures of a run\<close>

text \<open>Whatever a call adds at most one to, a run adds at most the attempts left to.\<close>

lemma retry_count:
  fixes c :: "'s \<Rightarrow> nat"
  assumes fn: "\<And>s. c (snd (fn s)) \<le> Suc (c s)" and sl: "\<And>d s. c (snd (sleep_for ev d s)) = c s"
  shows "c (snd (retry_from ev cfg fn l k s)) \<le> c s + nat (rt_max_attempts cfg - k + 1)"
proof (induction "nat (rt_max_attempts cfg - k + 1)" arbitrary: k l s)
  case 0
  then show ?case by (simp add: retry_from_exhausted split: option.split)
next
  case (Suc n)
  obtain r s1 where f: "fn s = (r, s1)" by (cases "fn s")
  have s1: "c s1 \<le> Suc (c s)" using fn [of s] f by simp
  from Suc(2) have k: "k \<le> rt_max_attempts cfg" by linarith
  show ?case
  proof (rule retry_round [of k cfg fn s r s1 ev l, OF k f])
    assume "retry_from ev cfg fn l k s = (r, s1)"
    then show ?thesis using s1 Suc(2) by simp
  next
    fix e x s2
    assume "sleep_for ev (delay_at ev cfg k) s1 = (Inl x, s2)" "retry_from ev cfg fn l k s = (Inl x, s2)"
    then show ?thesis using s1 Suc(2) sl [of "delay_at ev cfg k" s1] by simp
  next
    fix e s2
    assume a: "sleep_for ev (delay_at ev cfg k) s1 = (Inr (), s2)"
      "retry_from ev cfg fn l k s = retry_from ev cfg fn (Some e) (k + 1) s2" "k < rt_max_attempts cfg"
    have n: "n = nat (rt_max_attempts cfg - (k + 1) + 1)" using Suc(2) by linarith
    from Suc(1) [OF n, of "Some e" s2] show ?thesis
      using a s1 sl [of "delay_at ev cfg k" s1] Suc(2) n by simp
  qed
qed

text \<open>
  A reflexive and transitive relation that every call and every sleep keeps is kept by the run,
  and what holds of the outcome of every call and of every interruption holds of the run's.
\<close>

lemma retry_keeps:
  assumes refl: "\<And>s. R s s" and trans: "\<And>a b c. R a b \<Longrightarrow> R b c \<Longrightarrow> R a c"
    and fn: "\<And>s. R s (snd (fn s))" and sl: "\<And>d s. R s (snd (sleep_for ev d s))"
  shows "R s (snd (retry_from ev cfg fn l k s))"
proof (induction "nat (rt_max_attempts cfg - k + 1)" arbitrary: k l s)
  case 0
  then show ?case by (simp add: retry_from_exhausted refl split: option.split)
next
  case (Suc n)
  obtain r s1 where f: "fn s = (r, s1)" by (cases "fn s")
  have s1: "R s s1" using fn [of s] f by simp
  have s2: "R s (snd (sleep_for ev (delay_at ev cfg k) s1))" by (rule trans [OF s1 sl])
  from Suc(2) have k: "k \<le> rt_max_attempts cfg" "n = nat (rt_max_attempts cfg - (k + 1) + 1)"
    by linarith+
  show ?case
    by (rule retry_round [of k cfg fn s r s1 ev l, OF k(1) f])
       (use s1 s2 Suc(1) [OF k(2)] in \<open>auto intro: trans\<close>)
qed

lemma retry_outcome:
  assumes fn: "\<And>s. P (fst (fn s))" and sl: "\<And>d s x. fst (sleep_for ev d s) = Inl x \<Longrightarrow> P (Inl x)"
  shows "k \<le> rt_max_attempts cfg \<Longrightarrow> P (fst (retry_from ev cfg fn l k s))"
proof (induction "nat (rt_max_attempts cfg - k + 1)" arbitrary: k l s)
  case 0
  then show ?case by simp
next
  case (Suc n)
  obtain r s1 where f: "fn s = (r, s1)" by (cases "fn s")
  have r: "P r" using fn [of s] f by simp
  from Suc(2) have n: "n = nat (rt_max_attempts cfg - (k + 1) + 1)" by linarith
  show ?case
  proof (rule retry_round [of k cfg fn s r s1 ev l, OF Suc(3) f])
    assume "retry_from ev cfg fn l k s = (r, s1)"
    with r show ?thesis by simp
  next
    fix e x s2
    assume "sleep_for ev (delay_at ev cfg k) s1 = (Inl x, s2)" "retry_from ev cfg fn l k s = (Inl x, s2)"
    then show ?thesis using sl [of "delay_at ev cfg k" s1 x] by simp
  next
    fix e s2
    assume "retry_from ev cfg fn l k s = retry_from ev cfg fn (Some e) (k + 1) s2" "k < rt_max_attempts cfg"
    then show ?thesis using Suc(1) [OF n, of "Some e" s2] by simp
  qed
qed

text \<open>A clock that calls and sleeps keep below a deadline stays below it.\<close>

lemma retry_time:
  fixes c :: "'s \<Rightarrow> rat"
  assumes fn: "\<And>s. c s \<le> dl \<Longrightarrow> c s \<le> c (snd (fn s)) \<and> c (snd (fn s)) \<le> dl"
    and sl: "\<And>d s. c s \<le> dl \<Longrightarrow> c s \<le> c (snd (sleep_for ev d s)) \<and> c (snd (sleep_for ev d s)) \<le> dl"
  shows "c s \<le> dl \<Longrightarrow> c s \<le> c (snd (retry_from ev cfg fn l k s)) \<and> c (snd (retry_from ev cfg fn l k s)) \<le> dl"
  by (rule retry_keeps [of "\<lambda>s s'. c s \<le> dl \<longrightarrow> c s \<le> c s' \<and> c s' \<le> dl", rule_format])
     (use fn sl in \<open>auto intro: order_trans\<close>)

section \<open>Properties\<close>

text \<open>C38: Retrying is bounded
  and only for transient failures. In every run that allows an
  attempt, the function is called at least once and at most \<^verbatim>\<open>max_attempts\<close> times, and every
  call but the last raised a retryable \<^verbatim>\<open>ToolError\<close>. The run ends with the last call's own
  outcome, one sleep fewer than calls behind it, and does so only if that outcome is not
  retryable, the attempts are used up or a deadline is set; or else it ends with what interrupted
  the sleep after the last call. Tracing the run does not change it.\<close>

theorem retry_transient_bounded:
  assumes "1 \<le> rt_max_attempts cfg"
    and "with_retry (traced_env ev) cfg (traced fn) (s, []) = (r, s', es)"
  shows "with_retry ev cfg fn s = (r, s') \<and>
    1 \<le> length (calls_of es) \<and> int (length (calls_of es)) \<le> rt_max_attempts cfg \<and>
    (\<forall>c \<in> set (butlast (calls_of es)). retriable_outcome c) \<and>
    (r = last (calls_of es) \<and> length (sleeps_of es) + 1 = length (calls_of es) \<and>
       (\<not> retriable_outcome r \<or> int (length (calls_of es)) = rt_max_attempts cfg
          \<or> rt_deadline_s cfg \<noteq> None)
     \<or> length (sleeps_of es) = length (calls_of es) \<and> retriable_outcome (last (calls_of es)) \<and>
       (\<exists>x d t t'. r = Inl x \<and> sleep_for ev d t = (Inl x, t')))"
proof -
  from traced_same [of ev cfg fn None 1 s "[]"] assms(2)
  have "with_retry ev cfg fn s = (r, s')" by (simp add: with_retry_def)
  moreover have "run_ok ev cfg 1 es r"
    using retry_trace [OF assms(1), of ev fn None s "[]" r s' es] assms(2)
    by (auto simp: with_retry_def)
  moreover from this have "1 \<le> length (calls_of es)"
    by (cases "calls_of es") (auto simp: run_ok_def)
  ultimately show ?thesis by (simp add: run_ok_def) blast
qed

text \<open>An environment whose clock is the state: sleeping lets it pass.\<close>

definition clock_env :: "rat retry_env" where
  "clock_env = \<lparr>loop_time = (\<lambda>t. t), sleep_for = (\<lambda>d t. (Inr (), t + d)), random_draw = (\<lambda>k. 1/2)\<rparr>"

definition flaky :: "rat \<Rightarrow> string outcome \<times> rat" where
  "flaky t = (if t < 1/10 then Inl (Tool_Exc (mk_error UpstreamError ''upstream_503'' True None None))
              else Inr ''done'', t)"

lemma flaky_run:
  "with_retry (traced_env clock_env) default_retry (traced flaky) (0, []) =
     (Inr ''done'', 3/20, [Called (fst (flaky 0)), Slept 0 (1/20), Called (fst (flaky 0)),
        Slept (1/20) (1/10), Called (Inr ''done'')])"
  by (simp add: with_retry_def retry_from.simps default_retry_def clock_env_def traced_env_def
      traced_def flaky_def backoff_def backoff_cap_def uniform_def past_deadline_def Let_def)

theorem retry_transient_bounded_witness:
  "with_retry clock_env default_retry flaky 0 = (Inr ''done'', 3/20)"
  using retry_transient_bounded [OF _ flaky_run] by (simp add: default_retry_def)

text \<open>Backoff. With draws in the unit interval and delays that are not negative, the sleep
  after the i-th attempt is at least zero and at most the base delay doubled i times, capped by the
  maximal delay; and when a deadline is set, no sleep starts that would reach it.\<close>

theorem retry_backoff_bounded:
  assumes "1 \<le> rt_max_attempts cfg" and "fair_draws ev"
    and "0 \<le> rt_base_delay_ms cfg" and "0 \<le> rt_max_delay_ms cfg"
    and "with_retry (traced_env ev) cfg (traced fn) (s, []) = (r, s', es)"
    and "i < length (sleeps_of es)" and "sleeps_of es ! i = (t, d)"
  shows "0 \<le> d \<and> d \<le> of_int (min (rt_max_delay_ms cfg) (rt_base_delay_ms cfg * 2 ^ i)) / 1000 \<and>
    (\<forall>deadline. rt_deadline_s cfg = Some deadline \<longrightarrow> t + d < deadline)"
proof -
  have "sleeps_ok cfg 1 (sleeps_of es)"
    using retry_trace [OF assms(1), of ev fn None s "[]" r s' es] assms(2-5)
    by (auto simp: with_retry_def)
  from sleeps_ok_nth [OF this assms(6)] assms(7) show ?thesis
    by (auto simp: sleep_ok_def backoff_cap_def)
qed

theorem retry_backoff_bounded_witness:
  "(1/10 :: rat) \<le> of_int (min 2000 (100 * 2 ^ 1)) / 1000"
  using retry_backoff_bounded [OF _ _ _ _ flaky_run, of 1 "1/20" "1/10"]
  by (simp add: default_retry_def fair_draws_def clock_env_def)

text \<open>
  With no attempt allowed the function is never called, and the assertion the source calls
  unreachable fails.
\<close>

lemma retry_no_attempts:
  "rt_max_attempts cfg < 1 \<Longrightarrow> with_retry ev cfg fn s = (Inl (Py_Exc ''AssertionError'' ''''), s)"
  by (simp add: with_retry_def retry_from_exhausted)

end
