(* ===== verification/Ttl_Store.thy ===== *)
theory Ttl_Store
  imports Prelude
begin

text \<open>
  The contract of a key-value store whose entries expire, which both the cache manager and the
  approval gate rely on: the protocols \<^verbatim>\<open>L2Backend\<close> (\<^verbatim>\<open>cache/manager.py\<close>) and
  \<^verbatim>\<open>ApprovalStore\<close> (\<^verbatim>\<open>governance/approval.py\<close>) declare the operations, the laws say what the
  clients assume of them. Under the contract a store is its specification: reading a key gives
  the value last written to it until that expires, whatever else was read or written.
\<close>

section \<open>The shared in-memory store\<close>

text \<open>
  \<^verbatim>\<open>InMemoryL2\<close> and \<^verbatim>\<open>InMemoryApprovalStore\<close> keep the same dictionary of values with their
  expiry times, and read and write it by the same code.
\<close>

type_synonym ttl_dict = "(string, string \<times> rat) odict"

definition ttl_dict_get :: "rat \<Rightarrow> string \<Rightarrow> ttl_dict \<Rightarrow> string option \<times> ttl_dict" where
  "ttl_dict_get now key d =
     (case map_of d key of
        None \<Rightarrow> (None, d)
      | Some (v, expires_at) \<Rightarrow>
          if expires_at < now then (None, AList.delete key d) else (Some v, d))"

definition ttl_dict_set :: "rat \<Rightarrow> string \<Rightarrow> string \<Rightarrow> int \<Rightarrow> ttl_dict \<Rightarrow> ttl_dict" where
  "ttl_dict_set now key v ttl_seconds d = AList.update key (v, now + of_int ttl_seconds) d"

section \<open>The contract\<close>

definition unexpired :: "rat \<Rightarrow> ('v \<times> rat) option \<Rightarrow> 'v option" where
  "unexpired now entry = (case entry of None \<Rightarrow> None | Some (v, e) \<Rightarrow> if e < now then None else Some v)"

lemma unexpired_simps [simp]:
  "unexpired now None = None"
  "unexpired now (Some (v, e)) = (if e < now then None else Some v)"
  by (simp_all add: unexpired_def)

lemma unexpired_Some: "unexpired now x = Some v \<longleftrightarrow> (\<exists>e. x = Some (v, e) \<and> now \<le> e)"
  by (auto simp: unexpired_def split: option.split)

datatype store_op = Store_Get rat string | Store_Set rat string string int

fun op_time :: "store_op \<Rightarrow> rat" where
  "op_time (Store_Get t k) = t"
| "op_time (Store_Set t k v ttl) = t"

text \<open>What was last written to a key by a history.\<close>

fun last_write :: "string \<Rightarrow> store_op list \<Rightarrow> (string \<times> rat) option" where
  "last_write k [] = None"
| "last_write k (Store_Get t k' # ops) = last_write k ops"
| "last_write k (Store_Set t k' v ttl # ops) =
     (case last_write k ops of
        Some w \<Rightarrow> Some w
      | None \<Rightarrow> if k' = k then Some (v, t + of_int ttl) else None)"

lemma last_write_append:
  "last_write k (a @ b) = (case last_write k b of Some w \<Rightarrow> Some w | None \<Rightarrow> last_write k a)"
proof (induction a)
  case Nil
  then show ?case by (simp split: option.split)
next
  case (Cons op a)
  then show ?case by (cases op) (auto split: option.split)
qed

locale ttl_store =
  fixes get :: "rat \<Rightarrow> string \<Rightarrow> 's \<Rightarrow> string option \<times> 's"
    and put :: "rat \<Rightarrow> string \<Rightarrow> string \<Rightarrow> int \<Rightarrow> 's \<Rightarrow> 's"
    and lookup :: "'s \<Rightarrow> string \<Rightarrow> (string \<times> rat) option"
  assumes get_result: "fst (get now k s) = unexpired now (lookup s k)"
    and get_state: "lookup (snd (get now k s)) =
      (if unexpired now (lookup s k) = None then (lookup s)(k := None) else lookup s)"
    and put_state: "lookup (put now k v ttl s) = (lookup s)(k \<mapsto> (v, now + of_int ttl))"
begin

fun run_store :: "store_op list \<Rightarrow> 's \<Rightarrow> 's" where
  "run_store [] s = s"
| "run_store (Store_Get t k # ops) s = run_store ops (snd (get t k s))"
| "run_store (Store_Set t k v ttl # ops) s = run_store ops (put t k v ttl s)"

lemma run_store_append: "run_store (a @ b) s = run_store b (run_store a s)"
  by (induction a s rule: run_store.induct) auto

text \<open>Reading never changes what any later reading of any key gives.\<close>

lemma get_inert: "t \<le> now \<Longrightarrow> unexpired now (lookup (snd (get t k s)) k') = unexpired now (lookup s k')"
  by (auto simp: get_state unexpired_def split: option.splits if_splits)

lemma run_store_lookup:
  assumes "sorted (map op_time ops)" and "\<forall>op \<in> set ops. op_time op \<le> now" and "lookup s = Map.empty"
  shows "unexpired now (lookup (run_store ops s) k) = unexpired now (last_write k ops)"
  using assms
proof (induction ops arbitrary: now rule: rev_induct)
  case Nil
  then show ?case by simp
next
  case (snoc op ops)
  have ih: "unexpired t (lookup (run_store ops s) k) = unexpired t (last_write k ops)"
    if "op_time op \<le> t" for t
    using snoc that by (intro snoc.IH) (auto simp: sorted_append intro: order_trans)
  show ?case
  proof (cases op)
    case (Store_Get t k')
    with snoc.prems ih [of now] show ?thesis
      by (simp add: run_store_append last_write_append get_inert)
  next
    case (Store_Set t k' v ttl)
    with snoc.prems ih [of now] show ?thesis
      by (simp add: run_store_append last_write_append put_state)
  qed
qed

text \<open>The specification of a store: it answers what was last written, until that expires.\<close>

lemma get_last_write:
  assumes "sorted (map op_time ops)" and "\<forall>op \<in> set ops. op_time op \<le> now" and "lookup s = Map.empty"
  shows "fst (get now k (run_store ops s)) = unexpired now (last_write k ops)"
  using run_store_lookup [OF assms] by (simp add: get_result)

lemma put_get: "now' \<le> now + of_int ttl \<Longrightarrow> fst (get now' k (put now k v ttl s)) = Some v"
  by (simp add: get_result put_state)

lemma put_other: "k' \<noteq> k \<Longrightarrow> fst (get now' k' (put now k v ttl s)) = fst (get now' k' s)"
  by (simp add: get_result put_state)

lemma get_other: "k' \<noteq> k \<Longrightarrow> fst (get now' k' (snd (get now k s))) = fst (get now' k' s)"
  by (simp add: get_result get_state)

end

interpretation ttl_dict: ttl_store ttl_dict_get ttl_dict_set map_of
proof (unfold_locales)
  fix now k s
  show "fst (ttl_dict_get now k s) = unexpired now (map_of s k)"
    by (auto simp: ttl_dict_get_def split: option.split)
  show "map_of (snd (ttl_dict_get now k s)) =
      (if unexpired now (map_of s k) = None then (map_of s)(k := None) else map_of s)"
    by (auto simp: ttl_dict_get_def fun_eq_iff split: option.split)
next
  fix now k v ttl s
  show "map_of (ttl_dict_set now k v ttl s) = (map_of s)(k \<mapsto> (v, now + of_int ttl))"
    by (simp add: ttl_dict_set_def)
qed

end
