(* ===== verification/Cache.thy ===== *)
theory Cache
  imports Settings Errors Ttl_Store
begin

text \<open>
  The two-tier cache (\<^verbatim>\<open>cache/l1.py\<close>, \<^verbatim>\<open>cache/manager.py\<close>): the in-process LRU with expiry, the
  in-memory second tier with its locks, and the manager over any second tier that keeps the
  contract \<open>l2_tier\<close>. None of these operations awaits anything that can suspend, so each is one
  atomic step; what a caller awaits in between (the computation, the sleeps of a waiter) is
  explicit in \<open>get_or_compute\<close>.
\<close>

section \<open>L1: the in-process LRU\<close>

type_synonym l1_store = "(string, json \<times> rat) odict"

record l1_cache =
  l1_max_items :: int
  l1_store :: l1_store

definition new_l1 :: "int \<Rightarrow> l1_cache" where
  "new_l1 max_items = \<lparr>l1_max_items = max_items, l1_store = []\<rparr>"

text \<open>A value that is \<^verbatim>\<open>None\<close> in Python cannot be told from an absent one.\<close>

definition not_none :: "json \<Rightarrow> json option" where
  "not_none v = (if v = JNull then None else Some v)"

definition l1_get :: "rat \<Rightarrow> string \<Rightarrow> l1_cache \<Rightarrow> json option \<times> l1_cache" where
  "l1_get now key c =
     (case map_of (l1_store c) key of
        None \<Rightarrow> (None, c)
      | Some (v, expires_at) \<Rightarrow>
          if expires_at < now then (None, c\<lparr>l1_store := AList.delete key (l1_store c)\<rparr>)
          else (not_none v, c\<lparr>l1_store := move_to_end key (l1_store c)\<rparr>))"

text \<open>
  \<^verbatim>\<open>while len(store) > max_items: store.popitem(last=False)\<close>, which raises once the store is empty
  if the bound is negative.
\<close>

fun evict :: "int \<Rightarrow> l1_store \<Rightarrow> unit outcome \<times> l1_store" where
  "evict m [] = (if m < 0 then Inl (Py_Exc ''KeyError'' ''dictionary is empty'') else Inr (), [])"
| "evict m (e # es) = (if m < int (length (e # es)) then evict m es else (Inr (), e # es))"

definition l1_set :: "rat \<Rightarrow> string \<Rightarrow> json \<Rightarrow> int \<Rightarrow> l1_cache \<Rightarrow> unit outcome \<times> l1_cache" where
  "l1_set now key v ttl_seconds c =
     (let st = move_to_end key (AList.update key (v, now + of_int ttl_seconds) (l1_store c))
      in case evict (l1_max_items c) st of (r, st1) \<Rightarrow> (r, c\<lparr>l1_store := st1\<rparr>))"

definition l1_delete :: "string \<Rightarrow> l1_cache \<Rightarrow> l1_cache" where
  "l1_delete key c = c\<lparr>l1_store := AList.delete key (l1_store c)\<rparr>"

definition drop_prefix :: "string \<Rightarrow> (string, 'v) odict \<Rightarrow> nat \<times> (string, 'v) odict" where
  "drop_prefix p d =
     (length (filter (\<lambda>(k, v). startswith k p) d), filter (\<lambda>(k, v). \<not> startswith k p) d)"

definition l1_delete_prefix :: "string \<Rightarrow> l1_cache \<Rightarrow> nat \<times> l1_cache" where
  "l1_delete_prefix p c =
     (case drop_prefix p (l1_store c) of (n, st) \<Rightarrow> (n, c\<lparr>l1_store := st\<rparr>))"

section \<open>L2: the shared tier\<close>

record 'b l2_backend =
  l2_get :: "rat \<Rightarrow> string \<Rightarrow> 'b \<Rightarrow> string option \<times> 'b"
  l2_set :: "rat \<Rightarrow> string \<Rightarrow> string \<Rightarrow> int \<Rightarrow> 'b \<Rightarrow> 'b"
  l2_delete :: "string \<Rightarrow> 'b \<Rightarrow> 'b"
  l2_delete_prefix :: "string \<Rightarrow> 'b \<Rightarrow> nat \<times> 'b"
  l2_acquire_lock :: "rat \<Rightarrow> string \<Rightarrow> int \<Rightarrow> 'b \<Rightarrow> bool \<times> 'b"
  l2_release_lock :: "string \<Rightarrow> 'b \<Rightarrow> 'b"

record mem_l2 =
  m2_store :: ttl_dict
  m2_locks :: "(string, rat) odict"

definition new_mem_l2 :: mem_l2 where
  "new_mem_l2 = \<lparr>m2_store = [], m2_locks = []\<rparr>"

definition mem_l2_get :: "rat \<Rightarrow> string \<Rightarrow> mem_l2 \<Rightarrow> string option \<times> mem_l2" where
  "mem_l2_get now key b =
     (case ttl_dict_get now key (m2_store b) of (r, st) \<Rightarrow> (r, b\<lparr>m2_store := st\<rparr>))"

definition mem_l2_set :: "rat \<Rightarrow> string \<Rightarrow> string \<Rightarrow> int \<Rightarrow> mem_l2 \<Rightarrow> mem_l2" where
  "mem_l2_set now key v ttl_seconds b = b\<lparr>m2_store := ttl_dict_set now key v ttl_seconds (m2_store b)\<rparr>"

definition mem_l2_delete :: "string \<Rightarrow> mem_l2 \<Rightarrow> mem_l2" where
  "mem_l2_delete key b = b\<lparr>m2_store := AList.delete key (m2_store b)\<rparr>"

definition mem_l2_delete_prefix :: "string \<Rightarrow> mem_l2 \<Rightarrow> nat \<times> mem_l2" where
  "mem_l2_delete_prefix p b =
     (case drop_prefix p (m2_store b) of (n, st) \<Rightarrow> (n, b\<lparr>m2_store := st\<rparr>))"

definition mem_l2_acquire_lock :: "rat \<Rightarrow> string \<Rightarrow> int \<Rightarrow> mem_l2 \<Rightarrow> bool \<times> mem_l2" where
  "mem_l2_acquire_lock now lock_key ttl_ms b =
     (if (case map_of (m2_locks b) lock_key of None \<Rightarrow> False | Some expires \<Rightarrow> now < expires)
      then (False, b)
      else (True, b\<lparr>m2_locks := AList.update lock_key (now + of_int ttl_ms / 1000) (m2_locks b)\<rparr>))"

definition mem_l2_release_lock :: "string \<Rightarrow> mem_l2 \<Rightarrow> mem_l2" where
  "mem_l2_release_lock lock_key b = b\<lparr>m2_locks := AList.delete lock_key (m2_locks b)\<rparr>"

definition in_memory_l2 :: "mem_l2 l2_backend" where
  "in_memory_l2 = \<lparr>l2_get = mem_l2_get, l2_set = mem_l2_set, l2_delete = mem_l2_delete,
     l2_delete_prefix = mem_l2_delete_prefix, l2_acquire_lock = mem_l2_acquire_lock,
     l2_release_lock = mem_l2_release_lock\<rparr>"

lemma in_memory_l2_simps [simp]:
  "l2_get in_memory_l2 = mem_l2_get" "l2_set in_memory_l2 = mem_l2_set"
  "l2_delete in_memory_l2 = mem_l2_delete"
  "l2_delete_prefix in_memory_l2 = mem_l2_delete_prefix"
  "l2_acquire_lock in_memory_l2 = mem_l2_acquire_lock"
  "l2_release_lock in_memory_l2 = mem_l2_release_lock"
  by (simp_all add: in_memory_l2_def)

section \<open>The manager\<close>

record 'b cache_manager =
  cm_l1 :: l1_cache
  cm_l2 :: 'b
  cm_hits :: int
  cm_misses :: int

definition new_cache :: "settings \<Rightarrow> 'b \<Rightarrow> 'b cache_manager" where
  "new_cache cfg l2 =
     \<lparr>cm_l1 = new_l1 (cache_l1_max_items cfg), cm_l2 = l2, cm_hits = 0, cm_misses = 0\<rparr>"

definition cache_get ::
    "'b l2_backend \<Rightarrow> runtime \<Rightarrow> settings \<Rightarrow> rat \<Rightarrow> string \<Rightarrow> 'b cache_manager
       \<Rightarrow> json option outcome \<times> 'b cache_manager" where
  "cache_get ops rt cfg now key cm =
     (case l1_get now key (cm_l1 cm) of
        (Some hit, l1) \<Rightarrow> (Inr (Some hit), cm\<lparr>cm_l1 := l1, cm_hits := cm_hits cm + 1\<rparr>)
      | (None, l1) \<Rightarrow>
          (case l2_get ops now key (cm_l2 cm) of
             (None, l2) \<Rightarrow> (Inr None, cm\<lparr>cm_l1 := l1, cm_l2 := l2, cm_misses := cm_misses cm + 1\<rparr>)
           | (Some raw, l2) \<Rightarrow>
               (case loads rt raw of
                  None \<Rightarrow> (Inl (Py_Exc ''JSONDecodeError'' ''''), cm\<lparr>cm_l1 := l1, cm_l2 := l2\<rparr>)
                | Some v \<Rightarrow>
                    (case l1_set now key v (cache_l1_ttl_seconds cfg) l1 of
                       (Inl x, l1') \<Rightarrow> (Inl x, cm\<lparr>cm_l1 := l1', cm_l2 := l2\<rparr>)
                     | (Inr u, l1') \<Rightarrow>
                         (Inr (not_none v),
                          cm\<lparr>cm_l1 := l1', cm_l2 := l2, cm_hits := cm_hits cm + 1\<rparr>)))))"

text \<open>\<^verbatim>\<open>ttl or default\<close>: no time to live and a zero one give the default.\<close>

definition effective_ttl :: "settings \<Rightarrow> int option \<Rightarrow> int" where
  "effective_ttl cfg ttl =
     (case ttl of None \<Rightarrow> cache_l2_ttl_seconds cfg | Some n \<Rightarrow> if n = 0 then cache_l2_ttl_seconds cfg else n)"

definition cache_set ::
    "'b l2_backend \<Rightarrow> runtime \<Rightarrow> settings \<Rightarrow> rat \<Rightarrow> string \<Rightarrow> json \<Rightarrow> int option \<Rightarrow> 'b cache_manager
       \<Rightarrow> unit outcome \<times> 'b cache_manager" where
  "cache_set ops rt cfg now key v ttl cm =
     (let ttl_l2 = effective_ttl cfg ttl;
          ttl_l1 = min ttl_l2 (cache_l1_ttl_seconds cfg)
      in case l1_set now key v ttl_l1 (cm_l1 cm) of
           (Inl x, l1) \<Rightarrow> (Inl x, cm\<lparr>cm_l1 := l1\<rparr>)
         | (Inr u, l1) \<Rightarrow>
             (Inr (), cm\<lparr>cm_l1 := l1, cm_l2 := l2_set ops now key (dumps rt v) ttl_l2 (cm_l2 cm)\<rparr>))"

definition cache_delete :: "'b l2_backend \<Rightarrow> string \<Rightarrow> 'b cache_manager \<Rightarrow> 'b cache_manager" where
  "cache_delete ops key cm =
     cm\<lparr>cm_l1 := l1_delete key (cm_l1 cm), cm_l2 := l2_delete ops key (cm_l2 cm)\<rparr>"

definition invalidate_prefix ::
    "'b l2_backend \<Rightarrow> string \<Rightarrow> 'b cache_manager \<Rightarrow> nat \<times> 'b cache_manager" where
  "invalidate_prefix ops p cm =
     (case l1_delete_prefix p (cm_l1 cm) of (n1, l1) \<Rightarrow>
        case l2_delete_prefix ops p (cm_l2 cm) of (n2, l2) \<Rightarrow> (n2, cm\<lparr>cm_l1 := l1, cm_l2 := l2\<rparr>))"

definition invalidate_key :: "'b l2_backend \<Rightarrow> string \<Rightarrow> 'b cache_manager \<Rightarrow> 'b cache_manager" where
  "invalidate_key ops key cm = cache_delete ops key cm"

definition tool_prefix :: "string \<Rightarrow> string \<Rightarrow> string" where
  "tool_prefix tenant tool = ''atlas:'' @ tenant @ '':'' @ tool @ '':''"

definition tenant_prefix :: "string \<Rightarrow> string" where
  "tenant_prefix tenant = ''atlas:'' @ tenant @ '':''"

definition invalidate_tool ::
    "'b l2_backend \<Rightarrow> string \<Rightarrow> string \<Rightarrow> 'b cache_manager \<Rightarrow> nat \<times> 'b cache_manager" where
  "invalidate_tool ops tenant tool cm = invalidate_prefix ops (tool_prefix tenant tool) cm"

definition invalidate_tenant ::
    "'b l2_backend \<Rightarrow> string \<Rightarrow> 'b cache_manager \<Rightarrow> nat \<times> 'b cache_manager" where
  "invalidate_tenant ops tenant cm = invalidate_prefix ops (tenant_prefix tenant) cm"

text \<open>\<^verbatim>\<open>round(x, 4)\<close>, and the statistics.\<close>

definition round4 :: "rat \<Rightarrow> rat" where
  "round4 x = of_int (round_half_even (10000 * x)) / 10000"

definition cache_stats :: "'b cache_manager \<Rightarrow> (string \<times> json) list" where
  "cache_stats cm =
     (let total = cm_hits cm + cm_misses cm
      in [(''hits'', JInt (cm_hits cm)), (''misses'', JInt (cm_misses cm)),
          (''hit_ratio'', JFloat (if total \<noteq> 0 then round4 (of_int (cm_hits cm) / of_int total) else 0)),
          (''l1_size'', JInt (int (length (l1_store (cm_l1 cm)))))])"

section \<open>Single flight\<close>

definition stampede_lock_ttl_ms :: int where "stampede_lock_ttl_ms = 5000"
definition stampede_wait_ms :: int where "stampede_wait_ms = 25"
definition stampede_max_waits :: nat where "stampede_max_waits = 40"

definition lock_key_of :: "string \<Rightarrow> string" where
  "lock_key_of key = key @ '':lock''"

text \<open>
  Between two awaits a caller of \<^verbatim>\<open>get_or_compute\<close> takes one of three atomic steps: it looks the
  key up and tries the lock, it looks again after a sleep, or it stores what it computed.
\<close>

datatype entry_outcome = Hit json | Lead | Wait | Failed exc

definition enter_flight ::
    "'b l2_backend \<Rightarrow> runtime \<Rightarrow> settings \<Rightarrow> rat \<Rightarrow> string \<Rightarrow> 'b cache_manager
       \<Rightarrow> entry_outcome \<times> 'b cache_manager" where
  "enter_flight ops rt cfg now key cm =
     (case cache_get ops rt cfg now key cm of
        (Inl x, cm1) \<Rightarrow> (Failed x, cm1)
      | (Inr (Some hit), cm1) \<Rightarrow> (Hit hit, cm1)
      | (Inr None, cm1) \<Rightarrow>
          (case l2_acquire_lock ops now (lock_key_of key) stampede_lock_ttl_ms (cm_l2 cm1) of
             (got, l2) \<Rightarrow> (if got then Lead else Wait, cm1\<lparr>cm_l2 := l2\<rparr>)))"

definition store_computed ::
    "'b l2_backend \<Rightarrow> runtime \<Rightarrow> settings \<Rightarrow> rat \<Rightarrow> string \<Rightarrow> int option \<Rightarrow> json outcome
       \<Rightarrow> 'b cache_manager \<Rightarrow> json outcome \<times> 'b cache_manager" where
  "store_computed ops rt cfg now key ttl r cm =
     (case r of
        Inl x \<Rightarrow> (Inl x, cm)
      | Inr v \<Rightarrow>
          (case cache_set ops rt cfg now key v ttl cm of
             (Inl x, cm1) \<Rightarrow> (Inl x, cm1)
           | (Inr u, cm1) \<Rightarrow> (Inr v, cm1)))"

definition release_flight :: "'b l2_backend \<Rightarrow> string \<Rightarrow> 'b cache_manager \<Rightarrow> 'b cache_manager" where
  "release_flight ops key cm = cm\<lparr>cm_l2 := l2_release_lock ops (lock_key_of key) (cm_l2 cm)\<rparr>"

text \<open>
  The whole operation. Its state is the manager, which other tasks change while this one awaits,
  and the rest of the world, whose clock can be read. \<open>compute\<close> and \<open>pause\<close> (the sleep) are
  what it awaits.
\<close>

record ('b, 'w) cache_world =
  cw_cache :: "'b cache_manager"
  cw_rest :: 'w

definition on_cache ::
    "('w \<Rightarrow> rat) \<Rightarrow> (rat \<Rightarrow> 'b cache_manager \<Rightarrow> 'r \<times> 'b cache_manager)
       \<Rightarrow> ('b, 'w) cache_world \<Rightarrow> 'r \<times> ('b, 'w) cache_world" where
  "on_cache clock f w =
     (case f (clock (cw_rest w)) (cw_cache w) of (r, cm) \<Rightarrow> (r, w\<lparr>cw_cache := cm\<rparr>))"

definition compute_and_store ::
    "'b l2_backend \<Rightarrow> runtime \<Rightarrow> settings \<Rightarrow> ('w \<Rightarrow> rat) \<Rightarrow> string \<Rightarrow> int option
       \<Rightarrow> (('b, 'w) cache_world \<Rightarrow> json outcome \<times> ('b, 'w) cache_world)
       \<Rightarrow> ('b, 'w) cache_world \<Rightarrow> json outcome \<times> ('b, 'w) cache_world" where
  "compute_and_store ops rt cfg clock key ttl compute w =
     (case compute w of (r, w1) \<Rightarrow>
        on_cache clock (\<lambda>now. store_computed ops rt cfg now key ttl r) w1)"

fun await_other ::
    "'b l2_backend \<Rightarrow> runtime \<Rightarrow> settings \<Rightarrow> ('w \<Rightarrow> rat) \<Rightarrow> string \<Rightarrow> int option
       \<Rightarrow> (rat \<Rightarrow> ('b, 'w) cache_world \<Rightarrow> unit outcome \<times> ('b, 'w) cache_world)
       \<Rightarrow> (('b, 'w) cache_world \<Rightarrow> json outcome \<times> ('b, 'w) cache_world)
       \<Rightarrow> nat \<Rightarrow> ('b, 'w) cache_world \<Rightarrow> json outcome \<times> ('b, 'w) cache_world" where
  "await_other ops rt cfg clock key ttl pause compute 0 w =
     compute_and_store ops rt cfg clock key ttl compute w"
| "await_other ops rt cfg clock key ttl pause compute (Suc n) w =
     (case pause (of_int stampede_wait_ms / 1000) w of
        (Inl x, w1) \<Rightarrow> (Inl x, w1)
      | (Inr u, w1) \<Rightarrow>
          (case on_cache clock (\<lambda>now. cache_get ops rt cfg now key) w1 of
             (Inl x, w2) \<Rightarrow> (Inl x, w2)
           | (Inr (Some hit), w2) \<Rightarrow> (Inr hit, w2)
           | (Inr None, w2) \<Rightarrow> await_other ops rt cfg clock key ttl pause compute n w2))"

definition get_or_compute ::
    "'b l2_backend \<Rightarrow> runtime \<Rightarrow> settings \<Rightarrow> ('w \<Rightarrow> rat)
       \<Rightarrow> (rat \<Rightarrow> ('b, 'w) cache_world \<Rightarrow> unit outcome \<times> ('b, 'w) cache_world)
       \<Rightarrow> (('b, 'w) cache_world \<Rightarrow> json outcome \<times> ('b, 'w) cache_world)
       \<Rightarrow> string \<Rightarrow> int option \<Rightarrow> ('b, 'w) cache_world \<Rightarrow> json outcome \<times> ('b, 'w) cache_world" where
  "get_or_compute ops rt cfg clock pause compute key ttl w =
     (case on_cache clock (\<lambda>now. enter_flight ops rt cfg now key) w of
        (Failed x, w1) \<Rightarrow> (Inl x, w1)
      | (Hit hit, w1) \<Rightarrow> (Inr hit, w1)
      | (Lead, w1) \<Rightarrow>
          (case compute_and_store ops rt cfg clock key ttl compute w1 of
             (r, w2) \<Rightarrow> (r, w2\<lparr>cw_cache := release_flight ops key (cw_cache w2)\<rparr>))
      | (Wait, w1) \<Rightarrow>
          await_other ops rt cfg clock key ttl pause compute stampede_max_waits w1)"

end
