(* ===== verification/Approval.thy ===== *)
theory Approval
  imports Errors Ttl_Store Json_Roundtrip
begin

text \<open>
  The human approval gate (\<^verbatim>\<open>governance/approval.py\<close>): the pending record and its text in the
  store, the gate that a destructive call passes, and the operator's decisions. The store is
  \<^verbatim>\<open>InMemoryApprovalStore\<close>, whose operations are those of \<open>Ttl_Store\<close>. The wall-clock stamp of a
  record is a parameter, as it is only kept.
\<close>

section \<open>Records\<close>

definition approval_ttl_seconds :: int where
  "approval_ttl_seconds = 3600"

record pending_approval =
  pa_id :: string
  pa_tenant :: string
  pa_caller :: string
  pa_delegator :: "string option"
  pa_tool :: string
  pa_args_hash :: string
  pa_created_at :: string
  pa_state :: string
  pa_approver :: "string option"

text \<open>\<^verbatim>\<open>asdict\<close>, and the constructor applied to the keywords of a decoded object.\<close>

definition asdict :: "pending_approval \<Rightarrow> json" where
  "asdict a = JObj
     [(''id'', JStr (pa_id a)), (''tenant'', JStr (pa_tenant a)), (''caller'', JStr (pa_caller a)),
      (''delegator'', json_opt_str (pa_delegator a)), (''tool'', JStr (pa_tool a)),
      (''args_hash'', JStr (pa_args_hash a)), (''created_at'', JStr (pa_created_at a)),
      (''state'', JStr (pa_state a)), (''approver'', json_opt_str (pa_approver a))]"

fun json_str_field :: "json option \<Rightarrow> string option" where
  "json_str_field (Some (JStr s)) = Some s"
| "json_str_field _ = None"

fun json_opt_field :: "json option \<Rightarrow> string option option" where
  "json_opt_field (Some (JStr s)) = Some (Some s)"
| "json_opt_field (Some JNull) = Some None"
| "json_opt_field _ = None"

text \<open>
  A keyword that is missing or unknown is a \<^verbatim>\<open>TypeError\<close>; \<^verbatim>\<open>state\<close> and \<^verbatim>\<open>approver\<close> have
  defaults. The store only ever holds what the gate wrote, so a value of another type than the
  field's never occurs.
\<close>

definition approval_fields :: "string list" where
  "approval_fields = [''id'', ''tenant'', ''caller'', ''delegator'', ''tool'', ''args_hash'',
     ''created_at'', ''state'', ''approver'']"

definition approval_of_json :: "json \<Rightarrow> pending_approval option" where
  "approval_of_json j =
     (case j of
        JObj ps \<Rightarrow>
          (let f = map_of ps;
               dflt = (\<lambda>k v. case f k of None \<Rightarrow> Some v | Some x \<Rightarrow> Some x)
           in if \<not> list_all (\<lambda>k. k \<in> set approval_fields) (keys_of ps) then None
              else case (json_str_field (f ''id''), json_str_field (f ''tenant''),
                 json_str_field (f ''caller''), json_opt_field (f ''delegator''),
                 json_str_field (f ''tool''), json_str_field (f ''args_hash''),
                 json_str_field (f ''created_at''),
                 json_str_field (dflt ''state'' (JStr ''pending'')), json_opt_field (dflt ''approver'' JNull)) of
             (Some i, Some t, Some c, Some d, Some tool, Some h, Some ca, Some st, Some ap) \<Rightarrow>
               Some \<lparr>pa_id = i, pa_tenant = t, pa_caller = c, pa_delegator = d, pa_tool = tool,
                     pa_args_hash = h, pa_created_at = ca, pa_state = st, pa_approver = ap\<rparr>
           | _ \<Rightarrow> None)
      | _ \<Rightarrow> None)"

definition encode_approval :: "runtime \<Rightarrow> pending_approval \<Rightarrow> string" where
  "encode_approval rt a = dumps rt (asdict a)"

definition decode_approval :: "runtime \<Rightarrow> string \<Rightarrow> pending_approval outcome" where
  "decode_approval rt raw =
     (case loads rt raw of
        None \<Rightarrow> Inl (Py_Exc ''JSONDecodeError'' '''')
      | Some j \<Rightarrow>
          (case approval_of_json j of
             None \<Rightarrow> Inl (Py_Exc ''TypeError'' '''')
           | Some a \<Rightarrow> Inr a))"

definition pending_approval_error :: "pending_approval \<Rightarrow> tool_error" where
  "pending_approval_error a =
     mk_error PendingApprovalError ''pending_approval'' False
       (Some (''tool '' @ py_repr (pa_tool a) @ '' requires human approval; approval_id='' @ pa_id a
              @ ''. Surface it to the user and wait.''))
       (Some [(''approval_id'', JStr (pa_id a)), (''tool'', JStr (pa_tool a))])"

definition args_hash :: "runtime \<Rightarrow> (string \<times> json) list \<Rightarrow> string" where
  "args_hash rt arguments = take 24 (sha256_hex rt (dumps_sorted rt (JObj arguments)))"

definition approval_id :: "runtime \<Rightarrow> string \<Rightarrow> string \<Rightarrow> (string \<times> json) list \<Rightarrow> string" where
  "approval_id rt tenant tool arguments =
     ''atlas:approval:'' @ tenant @ '':'' @ tool @ '':'' @ args_hash rt arguments"

section \<open>The gate\<close>

record approval_request =
  ar_tenant :: string
  ar_caller :: string
  ar_delegator :: "string option"
  ar_tool :: string
  ar_arguments :: "(string \<times> json) list"

definition request_id :: "runtime \<Rightarrow> approval_request \<Rightarrow> string" where
  "request_id rt q = approval_id rt (ar_tenant q) (ar_tool q) (ar_arguments q)"

definition fresh_approval :: "runtime \<Rightarrow> string \<Rightarrow> approval_request \<Rightarrow> pending_approval" where
  "fresh_approval rt stamp q =
     \<lparr>pa_id = request_id rt q, pa_tenant = ar_tenant q, pa_caller = ar_caller q,
      pa_delegator = ar_delegator q, pa_tool = ar_tool q, pa_args_hash = args_hash rt (ar_arguments q),
      pa_created_at = stamp, pa_state = ''pending'', pa_approver = None\<rparr>"

definition approval_denied :: "string \<Rightarrow> tool_error" where
  "approval_denied tool =
     mk_error PolicyError ''approval_denied'' False
       (Some (''a human denied '' @ py_repr tool @ '' for this request'')) None"

definition approval_not_found :: "string \<Rightarrow> tool_error" where
  "approval_not_found i =
     mk_error PolicyError ''approval_not_found'' False
       (Some (''approval '' @ py_repr i @ '' does not exist or has expired'')) None"

text \<open>\<^verbatim>\<open>InMemoryApprovalStore\<close>, by the same code as the tier of the cache.\<close>

definition approval_store_get :: "rat \<Rightarrow> string \<Rightarrow> ttl_dict \<Rightarrow> string option \<times> ttl_dict" where
  "approval_store_get now key store =
     (case map_of store key of
        None \<Rightarrow> (None, store)
      | Some (raw, expires_at) \<Rightarrow>
          if expires_at < now then (None, AList.delete key store) else (Some raw, store))"

definition approval_store_set :: "rat \<Rightarrow> string \<Rightarrow> string \<Rightarrow> int \<Rightarrow> ttl_dict \<Rightarrow> ttl_dict" where
  "approval_store_set now key raw ttl_seconds store = AList.update key (raw, now + of_int ttl_seconds) store"

lemma approval_store_ttl_dict [simp]:
  "approval_store_get = ttl_dict_get" "approval_store_set = ttl_dict_set"
  by (simp_all add: fun_eq_iff approval_store_get_def ttl_dict_get_def approval_store_set_def ttl_dict_set_def)

definition enforce ::
    "runtime \<Rightarrow> rat \<Rightarrow> string \<Rightarrow> approval_request \<Rightarrow> ttl_dict \<Rightarrow> unit outcome \<times> ttl_dict" where
  "enforce rt now stamp q st =
     (let key = request_id rt q
      in case approval_store_get now key st of
           (Some raw, st1) \<Rightarrow>
             (case decode_approval rt raw of
                Inl x \<Rightarrow> (Inl x, st1)
              | Inr a \<Rightarrow>
                  if pa_state a = ''approved'' then (Inr (), st1)
                  else if pa_state a = ''denied''
                  then (Inl (Tool_Exc (approval_denied (ar_tool q))), st1)
                  else (Inl (Tool_Exc (pending_approval_error a)), st1))
         | (None, st1) \<Rightarrow>
             (let a = fresh_approval rt stamp q
              in (Inl (Tool_Exc (pending_approval_error a)),
                  approval_store_set now key (encode_approval rt a) approval_ttl_seconds st1)))"

definition transition ::
    "runtime \<Rightarrow> rat \<Rightarrow> string \<Rightarrow> string \<Rightarrow> string \<Rightarrow> ttl_dict \<Rightarrow> pending_approval outcome \<times> ttl_dict" where
  "transition rt now i state approver st =
     (case approval_store_get now i st of
        (None, st1) \<Rightarrow> (Inl (Tool_Exc (approval_not_found i)), st1)
      | (Some raw, st1) \<Rightarrow>
          (case decode_approval rt raw of
             Inl x \<Rightarrow> (Inl x, st1)
           | Inr a \<Rightarrow>
               (let a1 = a\<lparr>pa_state := state, pa_approver := Some approver\<rparr>
                in (Inr a1, approval_store_set now i (encode_approval rt a1) approval_ttl_seconds st1))))"

definition approve ::
    "runtime \<Rightarrow> rat \<Rightarrow> string \<Rightarrow> string \<Rightarrow> ttl_dict \<Rightarrow> pending_approval outcome \<times> ttl_dict" where
  "approve rt now i approver st = transition rt now i ''approved'' approver st"

definition deny ::
    "runtime \<Rightarrow> rat \<Rightarrow> string \<Rightarrow> string \<Rightarrow> ttl_dict \<Rightarrow> pending_approval outcome \<times> ttl_dict" where
  "deny rt now i approver st = transition rt now i ''denied'' approver st"

section \<open>Records survive the store\<close>

lemma json_opt_roundtrip [simp]: "json_opt_field (Some (json_opt_str x)) = Some x"
  by (cases x) (simp_all add: json_opt_str_def)

lemma wf_asdict: "wf_json rt (asdict a)"
  by (simp add: asdict_def json_opt_str_def split: option.split)

lemma decode_encode [simp]: "decode_approval rt (encode_approval rt a) = Inr a"
proof -
  have "approval_of_json (asdict a) = Some a"
    by (simp add: asdict_def approval_of_json_def approval_fields_def Let_def)
  then show ?thesis by (simp add: decode_approval_def encode_approval_def loads_dumps wf_asdict)
qed

section \<open>What the gate and the decisions do\<close>

text \<open>The abstract store: the record each identifier stands for, with its expiry.\<close>

definition gate_view :: "runtime \<Rightarrow> ttl_dict \<Rightarrow> rat \<Rightarrow> string \<Rightarrow> pending_approval option" where
  "gate_view rt st now i =
     (case unexpired now (map_of st i) of
        None \<Rightarrow> None
      | Some raw \<Rightarrow> (case decode_approval rt raw of Inl x \<Rightarrow> None | Inr a \<Rightarrow> Some a))"

text \<open>Every text in the store is the text of a record.\<close>

definition gate_wf :: "runtime \<Rightarrow> ttl_dict \<Rightarrow> bool" where
  "gate_wf rt st \<longleftrightarrow> (\<forall>i raw e. map_of st i = Some (raw, e) \<longrightarrow> (\<exists>a. raw = encode_approval rt a))"

lemma gate_wf_Nil [simp]: "gate_wf rt []"
  by (simp add: gate_wf_def)

lemma gate_view_Nil [simp]: "gate_view rt [] now i = None"
  by (simp add: gate_view_def)

lemma gate_wf_get: "gate_wf rt st \<Longrightarrow> gate_wf rt (snd (ttl_dict_get now i st))"
  by (auto simp: gate_wf_def ttl_dict.get_state split: if_splits)

lemma gate_wf_set: "gate_wf rt st \<Longrightarrow> gate_wf rt (ttl_dict_set now i (encode_approval rt a) n st)"
  by (auto simp: gate_wf_def ttl_dict.put_state split: if_splits)

lemma gate_view_None: "gate_wf rt st \<Longrightarrow> gate_view rt st now i = None \<longleftrightarrow> unexpired now (map_of st i) = None"
  by (auto simp: gate_view_def gate_wf_def unexpired_def split: option.splits sum.splits)
     (metis decode_encode sum.distinct(1))

lemma gate_get:
  assumes "gate_wf rt st"
  obtains (none) "gate_view rt st now i = None" "fst (ttl_dict_get now i st) = None"
  | (some) a where "gate_view rt st now i = Some a"
      "ttl_dict_get now i st = (Some (encode_approval rt a), st)"
proof (cases "unexpired now (map_of st i)")
  case None
  with assms show thesis by (intro none) (simp_all add: gate_view_None ttl_dict.get_result)
next
  case (Some raw)
  then obtain e where e: "map_of st i = Some (raw, e)" "now \<le> e" by (auto simp: unexpired_Some)
  with assms obtain a where "raw = encode_approval rt a" unfolding gate_wf_def by blast
  with e show thesis by (intro some [of a]) (simp_all add: gate_view_def ttl_dict_get_def)
qed

text \<open>Reading does not change the view; writing a record changes it for its identifier only.\<close>

lemma gate_view_get: "t \<le> now \<Longrightarrow> gate_view rt (snd (ttl_dict_get t i st)) now j = gate_view rt st now j"
  by (simp add: gate_view_def ttl_dict.get_inert)

lemma gate_view_set:
  "gate_view rt (ttl_dict_set t i (encode_approval rt a) n st) now j =
     (if j = i then if now \<le> t + of_int n then Some a else None else gate_view rt st now j)"
  by (simp add: gate_view_def ttl_dict.put_state)

lemma enforce_cases:
  assumes "gate_wf rt st"
  obtains (fresh) "gate_view rt st now (request_id rt q) = None"
      "enforce rt now stamp q st =
         (Inl (Tool_Exc (pending_approval_error (fresh_approval rt stamp q))),
          ttl_dict_set now (request_id rt q) (encode_approval rt (fresh_approval rt stamp q))
            approval_ttl_seconds (snd (ttl_dict_get now (request_id rt q) st)))"
  | (found) a where "gate_view rt st now (request_id rt q) = Some a"
      "enforce rt now stamp q st =
         (if pa_state a = ''approved'' then Inr ()
          else if pa_state a = ''denied'' then Inl (Tool_Exc (approval_denied (ar_tool q)))
          else Inl (Tool_Exc (pending_approval_error a)), st)"
proof (rule gate_get [OF assms, of now "request_id rt q"])
  assume "gate_view rt st now (request_id rt q) = None"
    and n: "fst (ttl_dict_get now (request_id rt q) st) = None"
  then show thesis
    by (intro fresh) (simp_all add: enforce_def Let_def case_prod_beta)
next
  fix a
  assume "gate_view rt st now (request_id rt q) = Some a"
    "ttl_dict_get now (request_id rt q) st = (Some (encode_approval rt a), st)"
  then show thesis by (intro found [of a]) (simp_all add: enforce_def Let_def)
qed

lemma transition_cases:
  assumes "gate_wf rt st"
  obtains (missing) "gate_view rt st now i = None"
      "transition rt now i state who st =
         (Inl (Tool_Exc (approval_not_found i)), snd (ttl_dict_get now i st))"
  | (found) a where "gate_view rt st now i = Some a"
      "transition rt now i state who st =
         (Inr (a\<lparr>pa_state := state, pa_approver := Some who\<rparr>),
          ttl_dict_set now i (encode_approval rt (a\<lparr>pa_state := state, pa_approver := Some who\<rparr>))
            approval_ttl_seconds st)"
proof (rule gate_get [OF assms, of now i])
  assume "gate_view rt st now i = None" and "fst (ttl_dict_get now i st) = None"
  then show thesis by (intro missing) (simp_all add: transition_def case_prod_beta)
next
  fix a
  assume "gate_view rt st now i = Some a" "ttl_dict_get now i st = (Some (encode_approval rt a), st)"
  then show thesis by (intro found [of a]) (simp_all add: transition_def Let_def)
qed

section \<open>Histories of the gate\<close>

datatype gate_event = Enforced string approval_request | Approved_By string string | Denied_By string string

fun gate_step :: "runtime \<Rightarrow> rat \<times> gate_event \<Rightarrow> ttl_dict \<Rightarrow> ttl_dict" where
  "gate_step rt (t, Enforced stamp q) st = snd (enforce rt t stamp q st)"
| "gate_step rt (t, Approved_By i who) st = snd (approve rt t i who st)"
| "gate_step rt (t, Denied_By i who) st = snd (deny rt t i who st)"

lemma gate_step_wf: "gate_wf rt st \<Longrightarrow> gate_wf rt (gate_step rt ev st)"
proof (cases ev)
  case (Pair t e)
  assume wf: "gate_wf rt st"
  show ?thesis
  proof (cases e)
    case (Enforced stamp q)
    then show ?thesis
      using wf Pair by (cases rule: enforce_cases [OF wf, of t q stamp])
        (simp_all add: gate_wf_get gate_wf_set)
  next
    case (Approved_By i who)
    then show ?thesis
      using wf Pair by (cases rule: transition_cases [OF wf, of t i "''approved''" who])
        (simp_all add: approve_def gate_wf_get gate_wf_set)
  next
    case (Denied_By i who)
    then show ?thesis
      using wf Pair by (cases rule: transition_cases [OF wf, of t i "''denied''" who])
        (simp_all add: deny_def gate_wf_get gate_wf_set)
  qed
qed

text \<open>What a step makes of the record an identifier stands for, seen at a later time.\<close>

lemma gate_step_view:
  assumes "gate_wf rt st" and "t \<le> now" and "gate_view rt (gate_step rt (t, ev) st) now i = Some a"
  obtains (same) "gate_view rt st now i = Some a"
  | (fresh) stamp q where "ev = Enforced stamp q" "request_id rt q = i" "a = fresh_approval rt stamp q"
  | (decided) state who a0 where "ev = (if state = ''approved'' then Approved_By i who else Denied_By i who)"
      "state \<in> {''approved'', ''denied''}" "gate_view rt st t i = Some a0" "now \<le> t + 3600"
      "pa_state a = state"
proof (cases ev)
  case (Enforced stamp q)
  show thesis
  proof (rule enforce_cases [OF assms(1), of t q stamp])
    assume "enforce rt t stamp q st =
         (Inl (Tool_Exc (pending_approval_error (fresh_approval rt stamp q))),
          ttl_dict_set t (request_id rt q) (encode_approval rt (fresh_approval rt stamp q))
            approval_ttl_seconds (snd (ttl_dict_get t (request_id rt q) st)))"
    with assms Enforced show thesis
      by (auto simp: gate_view_set gate_view_get split: if_splits intro: same fresh)
  next
    fix b assume "enforce rt t stamp q st =
         (if pa_state b = ''approved'' then Inr ()
          else if pa_state b = ''denied'' then Inl (Tool_Exc (approval_denied (ar_tool q)))
          else Inl (Tool_Exc (pending_approval_error b)), st)"
    with assms Enforced show thesis by (intro same) simp
  qed
next
  case (Approved_By j who)
  show thesis
  proof (rule transition_cases [OF assms(1), of t j "''approved''" who])
    assume "transition rt t j ''approved'' who st =
         (Inl (Tool_Exc (approval_not_found j)), snd (ttl_dict_get t j st))"
    with assms Approved_By show thesis by (intro same) (simp add: approve_def gate_view_get)
  next
    fix b
    assume "gate_view rt st t j = Some b" "transition rt t j ''approved'' who st =
         (Inr (b\<lparr>pa_state := ''approved'', pa_approver := Some who\<rparr>),
          ttl_dict_set t j (encode_approval rt (b\<lparr>pa_state := ''approved'', pa_approver := Some who\<rparr>))
            approval_ttl_seconds st)"
    with assms Approved_By show thesis
      by (auto simp: approve_def gate_view_set approval_ttl_seconds_def split: if_splits
          intro: same decided [of "''approved''" who b])
  qed
next
  case (Denied_By j who)
  show thesis
  proof (rule transition_cases [OF assms(1), of t j "''denied''" who])
    assume "transition rt t j ''denied'' who st =
         (Inl (Tool_Exc (approval_not_found j)), snd (ttl_dict_get t j st))"
    with assms Denied_By show thesis by (intro same) (simp add: deny_def gate_view_get)
  next
    fix b
    assume "gate_view rt st t j = Some b" "transition rt t j ''denied'' who st =
         (Inr (b\<lparr>pa_state := ''denied'', pa_approver := Some who\<rparr>),
          ttl_dict_set t j (encode_approval rt (b\<lparr>pa_state := ''denied'', pa_approver := Some who\<rparr>))
            approval_ttl_seconds st)"
    with assms Denied_By show thesis
      by (auto simp: deny_def gate_view_set approval_ttl_seconds_def split: if_splits
          intro: same decided [of "''denied''" who b])
  qed
qed

text \<open>A decision on a live record is what the record says from then on.\<close>

lemma gate_step_decides:
  assumes "gate_wf rt st" and "gate_view rt st t i = Some a" and "t \<le> now"
  shows "gate_view rt (gate_step rt (t, Denied_By i who) st) now i = Some b \<Longrightarrow> pa_state b = ''denied''"
    and "gate_view rt (gate_step rt (t, Approved_By i who) st) now i = Some b \<Longrightarrow> pa_state b = ''approved''"
  using assms
  by (rule_tac transition_cases [OF assms(1), of t i "''denied''" who],
      auto simp: deny_def gate_view_set split: if_splits)
     (rule_tac transition_cases [OF assms(1), of t i "''approved''" who],
      use assms in \<open>auto simp: approve_def gate_view_set split: if_splits\<close>)

lemma gate_view_earlier: "gate_view rt st now i = Some a \<Longrightarrow> t \<le> now \<Longrightarrow> gate_view rt st t i = Some a"
  by (auto simp: gate_view_def unexpired_def split: option.splits if_splits sum.splits)

definition asked_for :: "runtime \<Rightarrow> string \<Rightarrow> (rat \<times> gate_event) list \<Rightarrow> bool" where
  "asked_for rt i h \<longleftrightarrow> (\<exists>t stamp q. (t, Enforced stamp q) \<in> set h \<and> request_id rt q = i)"

definition approved_within :: "runtime \<Rightarrow> string \<Rightarrow> rat \<Rightarrow> (rat \<times> gate_event) list \<Rightarrow> bool" where
  "approved_within rt i now h \<longleftrightarrow>
     (\<exists>h1 t who h2. h = h1 @ (t, Approved_By i who) # h2 \<and> now \<le> t + 3600 \<and> asked_for rt i h1 \<and>
        (\<forall>t' who'. (t', Denied_By i who') \<notin> set h2))"

definition gate_inv :: "runtime \<Rightarrow> (rat \<times> gate_event) list \<Rightarrow> ttl_dict \<Rightarrow> rat \<Rightarrow> bool" where
  "gate_inv rt h st now \<longleftrightarrow>
     (\<forall>i a. gate_view rt st now i = Some a \<longrightarrow>
        asked_for rt i h \<and> (pa_state a = ''approved'' \<longrightarrow> approved_within rt i now h))"

lemma asked_for_snoc: "asked_for rt i h \<Longrightarrow> asked_for rt i (h @ [e])"
  by (auto simp: asked_for_def)

lemma approved_within_snoc:
  "approved_within rt i now h \<Longrightarrow> (\<forall>who. snd e \<noteq> Denied_By i who) \<Longrightarrow> approved_within rt i now (h @ [e])"
  unfolding approved_within_def by (elim exE conjE, rule_tac x = h1 in exI) (auto; force)

lemma gate_inv_step:
  assumes wf: "gate_wf rt st" and inv: "\<And>now. t0 \<le> now \<Longrightarrow> gate_inv rt h st now"
    and "t0 \<le> t" and "t \<le> now"
  shows "gate_inv rt (h @ [(t, ev)]) (gate_step rt (t, ev) st) now"
  unfolding gate_inv_def
proof (intro allI impI)
  fix i a
  assume v: "gate_view rt (gate_step rt (t, ev) st) now i = Some a"
  show "asked_for rt i (h @ [(t, ev)]) \<and> (pa_state a = ''approved'' \<longrightarrow> approved_within rt i now (h @ [(t, ev)]))"
  proof (rule gate_step_view [OF wf assms(4) v])
    assume same: "gate_view rt st now i = Some a"
    have "gate_inv rt h st now" using assms(3,4) by (intro inv) simp
    with same have "asked_for rt i h" "pa_state a = ''approved'' \<longrightarrow> approved_within rt i now h"
      by (auto simp: gate_inv_def)
    moreover have "pa_state a \<noteq> ''approved''" if "ev = Denied_By i who" for who
      using gate_step_decides(1) [OF wf gate_view_earlier [OF same assms(4)] assms(4)] v that by auto
    ultimately show ?thesis by (auto simp: asked_for_snoc intro!: approved_within_snoc)
  next
    fix stamp q
    assume "ev = Enforced stamp q" "request_id rt q = i" "a = fresh_approval rt stamp q"
    then show ?thesis by (auto simp: asked_for_def fresh_approval_def)
  next
    fix state who a0
    assume d: "ev = (if state = ''approved'' then Approved_By i who else Denied_By i who)"
      "gate_view rt st t i = Some a0" "now \<le> t + 3600" "pa_state a = state"
    have asked: "asked_for rt i h" using inv [OF assms(3)] d(2) by (auto simp: gate_inv_def)
    moreover have "approved_within rt i now (h @ [(t, ev)])" if "pa_state a = ''approved''"
      unfolding approved_within_def using asked d that
      by (intro exI [of _ h] exI [of _ t] exI [of _ who] exI [of _ "[]"]) simp
    ultimately show ?thesis by (simp add: asked_for_snoc)
  qed
qed

lemma gate_history:
  assumes "sorted (map fst h)" and "\<forall>e \<in> set h. fst e \<le> now"
  shows "gate_wf rt (fold (gate_step rt) h []) \<and> gate_inv rt h (fold (gate_step rt) h []) now"
  using assms
proof (induction h arbitrary: now rule: rev_induct)
  case Nil
  then show ?case by (simp add: gate_inv_def gate_view_def)
next
  case (snoc e h)
  obtain t ev where e: "e = (t, ev)" by (cases e)
  have ih: "gate_wf rt (fold (gate_step rt) h []) \<and> gate_inv rt h (fold (gate_step rt) h []) n" if "t \<le> n" for n
    using snoc.prems e that by (intro snoc.IH) (auto simp: sorted_append intro: order_trans)
  from gate_inv_step [of rt "fold (gate_step rt) h []" t h t now ev] ih snoc.prems(2) e
  show ?case by (auto simp: gate_step_wf)
qed

section \<open>Quiet stretches\<close>

text \<open>Until the next decision on it a live record stays what it is, whatever else happens.\<close>

definition decides :: "string \<Rightarrow> gate_event \<Rightarrow> bool" where
  "decides i ev = (case ev of Approved_By j who \<Rightarrow> j = i | Denied_By j who \<Rightarrow> j = i | Enforced s q \<Rightarrow> False)"

lemma transition_other:
  assumes "gate_wf rt st" and "t \<le> now" and "j \<noteq> i"
  shows "gate_view rt (snd (transition rt t j state who st)) now i = gate_view rt st now i"
  by (rule transition_cases [OF assms(1), of t j state who])
     (use assms(2,3) in \<open>simp_all add: gate_view_get gate_view_set\<close>)

lemma quiet_step:
  assumes "gate_wf rt st" and "t \<le> now" and "gate_view rt st now i = Some a" and "\<not> decides i ev"
  shows "gate_view rt (gate_step rt (t, ev) st) now i = Some a"
proof (cases ev)
  case (Enforced stamp q)
  show ?thesis
  proof (rule enforce_cases [OF assms(1), of t q stamp])
    assume n: "gate_view rt st t (request_id rt q) = None"
      and "enforce rt t stamp q st =
         (Inl (Tool_Exc (pending_approval_error (fresh_approval rt stamp q))),
          ttl_dict_set t (request_id rt q) (encode_approval rt (fresh_approval rt stamp q))
            approval_ttl_seconds (snd (ttl_dict_get t (request_id rt q) st)))"
    moreover have "i \<noteq> request_id rt q" using n gate_view_earlier [OF assms(3,2)] by auto
    ultimately show ?thesis using Enforced assms(2,3) by (simp add: gate_view_set gate_view_get)
  next
    fix b
    assume "enforce rt t stamp q st =
         (if pa_state b = ''approved'' then Inr ()
          else if pa_state b = ''denied'' then Inl (Tool_Exc (approval_denied (ar_tool q)))
          else Inl (Tool_Exc (pending_approval_error b)), st)"
    then show ?thesis using Enforced assms(3) by simp
  qed
next
  case (Approved_By j who)
  with assms show ?thesis by (simp add: decides_def approve_def transition_other)
next
  case (Denied_By j who)
  with assms show ?thesis by (simp add: decides_def deny_def transition_other)
qed

lemma quiet_run:
  "gate_wf rt st \<Longrightarrow> \<forall>e \<in> set h. fst e \<le> now \<and> \<not> decides i (snd e) \<Longrightarrow>
   gate_view rt st now i = Some a \<Longrightarrow>
   gate_wf rt (fold (gate_step rt) h st) \<and> gate_view rt (fold (gate_step rt) h st) now i = Some a"
proof (induction h arbitrary: st)
  case Nil
  then show ?case by simp
next
  case (Cons e h)
  then show ?case using quiet_step [of rt st "fst e" now i a "snd e"] gate_step_wf [of rt st e] by simp
qed

section \<open>What an identifier stands for\<close>

lemma wf_json_sort_keys: "wf_json rt j \<Longrightarrow> wf_json rt (sort_keys j)"
proof (induction j rule: sort_keys.induct)
  case (1 xs)
  then show ?case by (auto simp: list_all_iff)
next
  case (2 ps)
  have "distinct (keys_of (map (\<lambda>(k, v). (k, sort_keys v)) ps))"
    using 2(2) by (simp add: comp_def case_prod_beta)
  then have "distinct (keys_of (sort_key fst (map (\<lambda>(k, v). (k, sort_keys v)) ps)))"
    by (simp only: distinct_map distinct_sort set_sort)
  moreover have "wf_json rt (sort_keys v)" if "(k, v) \<in> set ps" for k v
    using 2(2) that by (intro 2(1) [OF that refl]) (auto simp: list_all_iff)
  then have "list_all (\<lambda>(k, v). wf_json rt v) (sort_key fst (map (\<lambda>(k, v). (k, sort_keys v)) ps))"
    by (auto simp: list_all_iff)
  ultimately show ?case by simp
qed simp_all

lemma dumps_sorted_inj:
  "wf_json rt a \<Longrightarrow> wf_json rt b \<Longrightarrow> dumps_sorted rt a = dumps_sorted rt b \<Longrightarrow> sort_keys a = sort_keys b"
  unfolding dumps_sorted_def by (blast intro: dumps_inj wf_json_sort_keys)

lemma approval_id_parts:
  assumes "approval_id rt t1 k1 a1 = approval_id rt t2 k2 a2"
    and "CHR '':'' \<notin> set k1" and "CHR '':'' \<notin> set k2" and "\<And>s. CHR '':'' \<notin> set (sha256_hex rt s)"
  shows "t1 = t2 \<and> k1 = k2 \<and> args_hash rt a1 = args_hash rt a2"
proof -
  have h: "CHR '':'' \<notin> set (args_hash rt a)" for a
    using assms(4) by (auto simp: args_hash_def dest: in_set_takeD)
  from assms(1) have "(t1 @ CHR '':'' # k1) @ CHR '':'' # args_hash rt a1 =
      (t2 @ CHR '':'' # k2) @ CHR '':'' # args_hash rt a2"
    by (simp add: approval_id_def)
  from append_sep_eq [OF this h h] have "t1 @ CHR '':'' # k1 = t2 @ CHR '':'' # k2"
      "args_hash rt a1 = args_hash rt a2" by auto
  with append_sep_eq [OF this(1) assms(2,3)] show ?thesis by simp
qed

section \<open>Properties\<close>

text \<open>C15: Nothing passes the gate without a human. If after any history of calls and decisions, at
  non-decreasing times, a call passes the gate, then an operator approved this very identifier at
  most an hour before, after the call had been asked for, and nobody has denied it since.\<close>

theorem approval_required:
  assumes "sorted (map fst h)" and "\<forall>e \<in> set h. fst e \<le> now"
    and "fst (enforce rt now stamp q (fold (gate_step rt) h [])) = Inr ()"
  shows "\<exists>h1 t who h2. h = h1 @ (t, Approved_By (request_id rt q) who) # h2 \<and> now \<le> t + 3600 \<and>
    (\<exists>t0 stamp0 q0. (t0, Enforced stamp0 q0) \<in> set h1 \<and> request_id rt q0 = request_id rt q) \<and>
    (\<forall>t' who'. (t', Denied_By (request_id rt q) who') \<notin> set h2)"
proof -
  from gate_history [OF assms(1,2)] have wf: "gate_wf rt (fold (gate_step rt) h [])"
    and inv: "gate_inv rt h (fold (gate_step rt) h []) now" by simp_all
  have "approved_within rt (request_id rt q) now h"
    by (rule enforce_cases [OF wf, of now q stamp])
       (use assms(3) inv in \<open>auto simp: gate_inv_def split: if_splits\<close>)
  then show ?thesis by (simp add: approved_within_def asked_for_def)
qed

definition put_request :: approval_request where
  "put_request = \<lparr>ar_tenant = ''acme'', ar_caller = ''agent'', ar_delegator = None,
     ar_tool = ''s3.put_object'', ar_arguments = [(''key'', JStr ''a'')]\<rparr>"

abbreviation put_id :: string where
  "put_id \<equiv> request_id plain_runtime put_request"

definition gate_demo :: "(rat \<times> gate_event) list" where
  "gate_demo = [(0, Enforced ''now'' put_request), (10, Approved_By put_id ''ops'')]"

lemma gate_demo_view:
  "gate_wf plain_runtime (fold (gate_step plain_runtime) gate_demo []) \<and>
   (\<exists>a. gate_view plain_runtime (fold (gate_step plain_runtime) gate_demo []) 3610 put_id = Some a \<and>
      pa_state a = ''approved'')"
proof -
  let ?st = "snd (enforce plain_runtime 0 ''now'' put_request [])"
  have wf: "gate_wf plain_runtime ?st"
    using gate_step_wf [of plain_runtime "[]" "(0, Enforced ''now'' put_request)"] by simp
  have st: "gate_view plain_runtime ?st 10 put_id = Some (fresh_approval plain_runtime ''now'' put_request)"
    by (rule enforce_cases [of plain_runtime "[]" 0 put_request "''now''"])
       (simp_all add: gate_view_set approval_ttl_seconds_def)
  show ?thesis
    by (rule transition_cases [OF wf, of 10 put_id "''approved''" "''ops''"])
       (simp_all add: gate_demo_def approve_def st gate_view_set gate_wf_set [OF wf] approval_ttl_seconds_def)
qed

theorem approval_required_witness:
  "fst (enforce plain_runtime 3610 ''later'' put_request (fold (gate_step plain_runtime) gate_demo [])) = Inr () \<and>
   (\<exists>h1 t who h2. gate_demo = h1 @ (t, Approved_By put_id who) # h2 \<and> 3610 \<le> t + 3600)"
proof -
  have ok: "fst (enforce plain_runtime 3610 ''later'' put_request
      (fold (gate_step plain_runtime) gate_demo [])) = Inr ()"
    using gate_demo_view
    by (elim conjE exE, rule_tac enforce_cases [of plain_runtime _ 3610 put_request "''later''"]) auto
  then show ?thesis
    using approval_required [of gate_demo 3610 plain_runtime "''later''" put_request]
    by (auto simp: gate_demo_def)
qed

text \<open>A decision takes effect. A decision on an identifier that is known and has not expired
  returns its record with the new state and the approver. For an hour from then, and until the
  next decision on it, whatever other calls and decisions come in between, the call it stands
  for passes the gate if it was approved and is refused with \<^verbatim>\<open>approval_denied\<close> if it was
  denied, and the attempt changes nothing. Deciding on an unknown or expired identifier is
  refused.\<close>

theorem decision_takes_effect:
  assumes "gate_wf rt st" and "state \<in> {''approved'', ''denied''}"
    and "transition rt t1 (request_id rt q) state who st = (r, st1)"
    and "\<forall>e \<in> set h. fst e \<le> t2 \<and> \<not> decides (request_id rt q) (snd e)"
    and "t1 \<le> t2" and "t2 \<le> t1 + 3600"
  shows "case gate_view rt st t1 (request_id rt q) of
      None \<Rightarrow> r = Inl (Tool_Exc (approval_not_found (request_id rt q)))
    | Some a \<Rightarrow> r = Inr (a\<lparr>pa_state := state, pa_approver := Some who\<rparr>) \<and>
        (let st2 = fold (gate_step rt) h st1 in
         enforce rt t2 stamp q st2 =
           (if state = ''approved'' then Inr () else Inl (Tool_Exc (approval_denied (ar_tool q))), st2))"
proof (rule transition_cases [OF assms(1), of t1 "request_id rt q" state who])
  assume "gate_view rt st t1 (request_id rt q) = None" "transition rt t1 (request_id rt q) state who st =
         (Inl (Tool_Exc (approval_not_found (request_id rt q))), snd (ttl_dict_get t1 (request_id rt q) st))"
  then show ?thesis using assms(3) by simp
next
  fix a :: pending_approval
  let ?a = "a\<lparr>pa_state := state, pa_approver := Some who\<rparr>"
  assume v: "gate_view rt st t1 (request_id rt q) = Some a"
    and tr: "transition rt t1 (request_id rt q) state who st = (Inr ?a,
          ttl_dict_set t1 (request_id rt q) (encode_approval rt ?a) approval_ttl_seconds st)"
  then have st1: "st1 = ttl_dict_set t1 (request_id rt q) (encode_approval rt ?a) approval_ttl_seconds st"
    using assms(3) by simp
  have "gate_view rt st1 t2 (request_id rt q) = Some ?a"
    using assms(6) by (simp add: st1 gate_view_set approval_ttl_seconds_def)
  moreover have "gate_wf rt st1" unfolding st1 by (rule gate_wf_set [OF assms(1)])
  ultimately have q: "gate_wf rt (fold (gate_step rt) h st1)"
    "gate_view rt (fold (gate_step rt) h st1) t2 (request_id rt q) = Some ?a"
    using quiet_run [of rt st1 h t2 "request_id rt q" ?a] assms(4) by auto
  show ?thesis
    by (rule enforce_cases [OF q(1), of t2 q stamp])
       (use q(2) v tr assms(2,3) in \<open>auto simp: Let_def\<close>)
qed

theorem decision_takes_effect_witness:
  "fst (transition plain_runtime 5 put_id ''approved'' ''ops'' []) =
     Inl (Tool_Exc (approval_not_found put_id))"
  using decision_takes_effect [of plain_runtime "[]" "''approved''" 5 put_request "''ops''"
      "fst (transition plain_runtime 5 put_id ''approved'' ''ops'' [])"
      "snd (transition plain_runtime 5 put_id ''approved'' ''ops'' [])" "[]" 5 "''x''"]
  by (simp add: gate_view_def)

text \<open>C35: An approval is bound to the call it was asked for. As long as the truncated digests of the
  two argument texts do not collide, two calls with the same approval identifier are for the same
  tenant, the same tool and the same arguments up to the order of their keys. Tool names and
  digests hold no colon; a tenant name may.\<close>

theorem approval_binds_call:
  assumes "request_id rt q1 = request_id rt q2"
    and "CHR '':'' \<notin> set (ar_tool q1)" and "CHR '':'' \<notin> set (ar_tool q2)"
    and "\<And>s. CHR '':'' \<notin> set (sha256_hex rt s)"
    and "wf_json rt (JObj (ar_arguments q1))" and "wf_json rt (JObj (ar_arguments q2))"
    and "args_hash rt (ar_arguments q1) = args_hash rt (ar_arguments q2) \<Longrightarrow>
      dumps_sorted rt (JObj (ar_arguments q1)) = dumps_sorted rt (JObj (ar_arguments q2))"
  shows "ar_tenant q1 = ar_tenant q2 \<and> ar_tool q1 = ar_tool q2 \<and>
    sort_keys (JObj (ar_arguments q1)) = sort_keys (JObj (ar_arguments q2))"
proof -
  from approval_id_parts [OF assms(1) [unfolded request_id_def] assms(2-4)]
  have p: "ar_tenant q1 = ar_tenant q2" "ar_tool q1 = ar_tool q2"
    "args_hash rt (ar_arguments q1) = args_hash rt (ar_arguments q2)" by simp_all
  from dumps_sorted_inj [OF assms(5,6) assms(7) [OF p(3)]] p show ?thesis by simp
qed

theorem approval_binds_call_witness:
  "sort_keys (JObj [(''b'', JInt 1), (''a'', JNull)]) = sort_keys (JObj [(''a'', JNull), (''b'', JInt 1)])"
proof -
  let ?q1 = "put_request\<lparr>ar_arguments := [(''b'', JInt 1), (''a'', JNull)]\<rparr>"
  let ?q2 = "put_request\<lparr>ar_arguments := [(''a'', JNull), (''b'', JInt 1)]\<rparr>"
  have eq: "dumps_sorted plain_runtime (JObj [(''b'', JInt 1), (''a'', JNull)]) =
      dumps_sorted plain_runtime (JObj [(''a'', JNull), (''b'', JInt 1)])"
    by (simp add: dumps_sorted_def sort_key_def insort_key.simps)
  show ?thesis
    using approval_binds_call [of plain_runtime ?q1 ?q2] plain_hex eq
    by (simp add: request_id_def approval_id_def args_hash_def put_request_def)
qed

end
