(* ===== verification/Circuit_Breaker.thy ===== *)
theory Circuit_Breaker
  imports Settings Errors
begin

text \<open>
  The circuit breaker and its registry (\<^verbatim>\<open>reliability/circuit_breaker.py\<close>). The source runs on
  one event loop and awaits only the guarded call, so a call is two atomic operations,
  \<open>begin_call\<close> before the await and \<open>end_call\<close> after it, between which other tasks may run:
  the lock is never contended, as no critical section awaits. \<open>breaker_call\<close> composes the two
  for a call that runs alone; the relation \<open>cb_step\<close> interleaves them for any number of tasks.
\<close>

section \<open>The breaker\<close>

datatype bstate = CLOSED | HALF_OPEN | OPEN

text \<open>Ordered as the gauge \<^verbatim>\<open>atlas_circuit_state\<close> orders them.\<close>

fun state_value :: "bstate \<Rightarrow> int" where
  "state_value CLOSED = 0"
| "state_value HALF_OPEN = 1"
| "state_value OPEN = 2"

lemma state_value_inj: "state_value s = state_value t \<Longrightarrow> s = t"
  by (cases s; cases t) auto

instantiation bstate :: linorder
begin

definition less_eq_bstate :: "bstate \<Rightarrow> bstate \<Rightarrow> bool" where
  "less_eq_bstate s t \<longleftrightarrow> state_value s \<le> state_value t"

definition less_bstate :: "bstate \<Rightarrow> bstate \<Rightarrow> bool" where
  "less_bstate s t \<longleftrightarrow> state_value s < state_value t"

instance
  by standard (auto simp: less_eq_bstate_def less_bstate_def intro: state_value_inj)

end

record breaker =
  cb_name :: string
  cb_failure_threshold :: int
  cb_recovery_seconds :: int
  cb_window_seconds :: int
  cb_state :: bstate
  cb_opened_at :: rat
  cb_failures :: "rat list"
  cb_probe_in_flight :: bool
  cb_trips :: int

definition new_breaker :: "string \<Rightarrow> int \<Rightarrow> int \<Rightarrow> breaker" where
  "new_breaker name failure_threshold recovery_seconds =
     \<lparr>cb_name = name, cb_failure_threshold = failure_threshold,
      cb_recovery_seconds = recovery_seconds, cb_window_seconds = 60,
      cb_state = CLOSED, cb_opened_at = 0, cb_failures = [],
      cb_probe_in_flight = False, cb_trips = 0\<rparr>"

definition check_transitions :: "rat \<Rightarrow> breaker \<Rightarrow> breaker" where
  "check_transitions now b =
     (let b1 = (if cb_state b = OPEN \<and> of_int (cb_recovery_seconds b) \<le> now - cb_opened_at b
                then b\<lparr>cb_state := HALF_OPEN, cb_probe_in_flight := False\<rparr> else b);
          cutoff = now - of_int (cb_window_seconds b1)
      in b1\<lparr>cb_failures := dropWhile (\<lambda>t. t < cutoff) (cb_failures b1)\<rparr>)"

definition counts_as_failure :: "tool_error \<Rightarrow> bool" where
  "counts_as_failure e \<longleftrightarrow> is_instance e UpstreamError \<and> err_retryable e"

definition trip :: "rat \<Rightarrow> breaker \<Rightarrow> breaker" where
  "trip now b = b\<lparr>cb_state := OPEN, cb_opened_at := now, cb_failures := [], cb_trips := cb_trips b + 1\<rparr>"

definition on_failure :: "rat \<Rightarrow> tool_error \<Rightarrow> breaker \<Rightarrow> breaker" where
  "on_failure now e b =
     (if \<not> counts_as_failure e then b
      else let b1 = b\<lparr>cb_failures := cb_failures b @ [now]\<rparr>
           in if cb_state b1 = HALF_OPEN then trip now b1
              else if cb_failure_threshold b1 \<le> int (length (cb_failures b1)) then trip now b1
              else b1)"

definition on_success :: "breaker \<Rightarrow> breaker" where
  "on_success b = (if cb_state b = HALF_OPEN then b\<lparr>cb_state := CLOSED, cb_failures := []\<rparr> else b)"

datatype admission = Rejected | Normal | Probe

definition begin_call :: "rat \<Rightarrow> breaker \<Rightarrow> admission \<times> breaker" where
  "begin_call now b =
     (let b1 = check_transitions now b
      in if cb_state b1 = OPEN then (Rejected, b1)
         else if cb_state b1 = HALF_OPEN then
           if cb_probe_in_flight b1 then (Rejected, b1)
           else (Probe, b1\<lparr>cb_probe_in_flight := True\<rparr>)
         else (Normal, b1))"

text \<open>
  How the awaited call ended matters to the breaker in three ways: it returned, it raised a
  \<^verbatim>\<open>ToolError\<close>, or something else came out of it (a cancellation by the timeout above).
\<close>

definition end_call :: "admission \<Rightarrow> rat \<Rightarrow> 'a outcome \<Rightarrow> breaker \<Rightarrow> breaker" where
  "end_call adm now r b =
     (let b1 = (case r of
                  Inr v \<Rightarrow> if adm = Probe then on_success b else b
                | Inl (Tool_Exc e) \<Rightarrow> on_failure now e b
                | Inl _ \<Rightarrow> b)
      in if adm = Probe then b1\<lparr>cb_probe_in_flight := False\<rparr> else b1)"

definition circuit_open :: "breaker \<Rightarrow> exc" where
  "circuit_open b = Tool_Exc (circuit_open_error (cb_name b) (cb_recovery_seconds b))"

definition breaker_call ::
    "('s \<Rightarrow> rat) \<Rightarrow> ('s \<Rightarrow> 'a outcome \<times> 's) \<Rightarrow> breaker \<Rightarrow> 's \<Rightarrow> 'a outcome \<times> breaker \<times> 's" where
  "breaker_call clock fn b s =
     (case begin_call (clock s) b of
        (Rejected, b1) \<Rightarrow> (Inl (circuit_open b1), b1, s)
      | (adm, b1) \<Rightarrow> (case fn s of (r, s1) \<Rightarrow> (r, end_call adm (clock s1) r b1, s1)))"

section \<open>The registry\<close>

type_synonym breakers = "(string, breaker) odict"

definition for_tool :: "settings \<Rightarrow> string \<Rightarrow> breakers \<Rightarrow> breaker \<times> breakers" where
  "for_tool cfg tool bs =
     (case map_of bs tool of
        Some b \<Rightarrow> (b, bs)
      | None \<Rightarrow>
          let b = new_breaker tool (circuit_breaker_failure_threshold cfg)
                    (circuit_breaker_recovery_seconds cfg)
          in (b, AList.update tool b bs))"

definition breaker_snapshot :: "breakers \<Rightarrow> (string, bstate) odict" where
  "breaker_snapshot bs = map (\<lambda>(name, b). (name, cb_state b)) bs"

section \<open>What each operation does\<close>

text \<open>The parameters of a breaker never change.\<close>

definition same_config :: "breaker \<Rightarrow> breaker \<Rightarrow> bool" where
  "same_config a b \<longleftrightarrow> cb_name a = cb_name b \<and> cb_failure_threshold a = cb_failure_threshold b
     \<and> cb_recovery_seconds a = cb_recovery_seconds b \<and> cb_window_seconds a = cb_window_seconds b"

lemma same_config_refl [simp]: "same_config b b"
  by (simp add: same_config_def)

lemma same_config_trans [trans]: "same_config a b \<Longrightarrow> same_config b c \<Longrightarrow> same_config a c"
  by (simp add: same_config_def)

lemma check_transitions_config [simp]: "same_config (check_transitions now b) b"
  by (simp add: same_config_def check_transitions_def Let_def)

lemma begin_call_config [simp]: "same_config (snd (begin_call now b)) b"
  using check_transitions_config [of now b]
  by (simp add: begin_call_def Let_def same_config_def)

lemma end_call_config [simp]: "same_config (end_call adm now r b) b"
  by (simp add: same_config_def end_call_def on_success_def on_failure_def trip_def Let_def
      split: sum.split exc.split)

lemma check_transitions_simps [simp]:
  "cb_opened_at (check_transitions now b) = cb_opened_at b"
  "cb_trips (check_transitions now b) = cb_trips b"
  "cb_failures (check_transitions now b) =
     dropWhile (\<lambda>t. t < now - of_int (cb_window_seconds b)) (cb_failures b)"
  "cb_state (check_transitions now b) =
     (if cb_state b = OPEN \<and> of_int (cb_recovery_seconds b) \<le> now - cb_opened_at b
      then HALF_OPEN else cb_state b)"
  by (simp_all add: check_transitions_def Let_def)

lemma begin_call_cases:
  obtains (rejected_open) "begin_call now b = (Rejected, check_transitions now b)"
      "cb_state (check_transitions now b) = OPEN"
  | (rejected_probe) "begin_call now b = (Rejected, check_transitions now b)"
      "cb_state (check_transitions now b) = HALF_OPEN" "cb_probe_in_flight (check_transitions now b)"
  | (probe) "begin_call now b = (Probe, (check_transitions now b)\<lparr>cb_probe_in_flight := True\<rparr>)"
      "cb_state (check_transitions now b) = HALF_OPEN" "\<not> cb_probe_in_flight (check_transitions now b)"
  | (normal) "begin_call now b = (Normal, check_transitions now b)"
      "cb_state (check_transitions now b) = CLOSED"
proof (cases "cb_state (check_transitions now b)")
  case CLOSED
  then have "begin_call now b = (Normal, check_transitions now b)"
    unfolding begin_call_def Let_def by (simp del: check_transitions_simps)
  with CLOSED show thesis by (rule normal [rotated])
next
  case OPEN
  then have "begin_call now b = (Rejected, check_transitions now b)"
    unfolding begin_call_def Let_def by (simp del: check_transitions_simps)
  with OPEN show thesis by (rule rejected_open [rotated])
next
  case HALF_OPEN
  then have "begin_call now b =
      (if cb_probe_in_flight (check_transitions now b) then (Rejected, check_transitions now b)
       else (Probe, (check_transitions now b)\<lparr>cb_probe_in_flight := True\<rparr>))"
    unfolding begin_call_def Let_def by (simp del: check_transitions_simps)
  with HALF_OPEN show thesis
    by (cases "cb_probe_in_flight (check_transitions now b)")
       (auto intro: probe rejected_probe simp del: check_transitions_simps)
qed

text \<open>The window: what is kept is exactly what is recent, as the failures are in order.\<close>

lemma dropWhile_sorted_filter:
  "sorted xs \<Longrightarrow> dropWhile (\<lambda>t. t < c) xs = filter (\<lambda>t. c \<le> t) (xs :: rat list)"
proof (induction xs)
  case Nil
  then show ?case by simp
next
  case (Cons x xs)
  show ?case
  proof (cases "x < c")
    case True
    with Cons show ?thesis by simp
  next
    case False
    with Cons.prems have "filter (\<lambda>t. c \<le> t) (x # xs) = x # xs"
      by (intro filter_True) auto
    with False show ?thesis by simp
  qed
qed

lemma length_dropWhile_less: "int (length xs) < m \<Longrightarrow> int (length (dropWhile P xs)) < m"
  using length_dropWhile_le [of P xs] by linarith

section \<open>Interleaved calls\<close>

text \<open>
  Tasks are numbered; a task is idle or runs the guarded function under an admission. A step
  is one task starting or finishing a call at a time no earlier than the last step's. The
  parameter \<open>ok\<close> restricts when a call may start, so that one relation serves the unrestricted
  system and the one whose slow calls have drained.
\<close>

record cb_sys =
  sys_breaker :: breaker
  sys_tasks :: "nat \<Rightarrow> admission option"
  sys_now :: rat

inductive cb_step :: "(cb_sys \<Rightarrow> rat \<Rightarrow> bool) \<Rightarrow> cb_sys \<Rightarrow> cb_sys \<Rightarrow> bool" for ok where
  start: "sys_tasks s i = None \<Longrightarrow> sys_now s \<le> now \<Longrightarrow> ok s now \<Longrightarrow>
    begin_call now (sys_breaker s) = (adm, b) \<Longrightarrow>
    cb_step ok s \<lparr>sys_breaker = b,
      sys_tasks = (sys_tasks s)(i := (if adm = Rejected then None else Some adm)), sys_now = now\<rparr>"
| finish: "sys_tasks s i = Some adm \<Longrightarrow> sys_now s \<le> now \<Longrightarrow>
    cb_step ok s \<lparr>sys_breaker = end_call adm now (r :: unit outcome) (sys_breaker s),
      sys_tasks = (sys_tasks s)(i := None), sys_now = now\<rparr>"

inductive cb_reach :: "(cb_sys \<Rightarrow> rat \<Rightarrow> bool) \<Rightarrow> breaker \<Rightarrow> cb_sys \<Rightarrow> bool" for ok b0 where
  init: "cb_reach ok b0 \<lparr>sys_breaker = b0, sys_tasks = (\<lambda>_. None), sys_now = t0\<rparr>"
| step: "cb_reach ok b0 s \<Longrightarrow> cb_step ok s t \<Longrightarrow> cb_reach ok b0 t"

inductive_cases cb_step_elim: "cb_step ok s t"

definition cb_inv :: "breaker \<Rightarrow> rat \<Rightarrow> bool" where
  "cb_inv b now \<longleftrightarrow>
     int (length (cb_failures b)) < max 1 (cb_failure_threshold b) \<and>
     sorted (cb_failures b) \<and> (\<forall>t \<in> set (cb_failures b). t \<le> now) \<and>
     (cb_state b = OPEN \<longrightarrow> cb_opened_at b \<le> now)"

lemma cb_inv_new: "cb_inv (new_breaker n k r) now"
  by (simp add: cb_inv_def new_breaker_def)

lemma cb_inv_later: "cb_inv b now \<Longrightarrow> now \<le> now' \<Longrightarrow> cb_inv b now'"
  by (fastforce simp: cb_inv_def)

lemma cb_inv_check: "cb_inv b now \<Longrightarrow> cb_inv (check_transitions now b) now"
  using check_transitions_config [of now b]
  by (auto simp: cb_inv_def same_config_def sorted_dropWhile length_dropWhile_less
      dest: set_dropWhileD split: if_splits)

lemma cb_inv_begin: "cb_inv b now \<Longrightarrow> cb_inv (snd (begin_call now b)) now"
  by (rule begin_call_cases [of now b]) (use cb_inv_check [of b now] in \<open>simp_all add: cb_inv_def\<close>)

lemma cb_inv_on_failure: "cb_inv b now \<Longrightarrow> cb_inv (on_failure now e b) now"
  by (auto simp: cb_inv_def on_failure_def trip_def Let_def sorted_append)

lemma cb_inv_on_success: "cb_inv b now \<Longrightarrow> cb_inv (on_success b) now"
  by (auto simp: cb_inv_def on_success_def)

lemma cb_inv_flag [simp]: "cb_inv (b\<lparr>cb_probe_in_flight := f\<rparr>) now = cb_inv b now"
  by (simp add: cb_inv_def)

lemma end_call_cases:
  "end_call adm now (Inr v) b =
     (if adm = Probe then (on_success b)\<lparr>cb_probe_in_flight := False\<rparr> else b)"
  "end_call adm now (Inl (Tool_Exc e)) b =
     (if adm = Probe then (on_failure now e b)\<lparr>cb_probe_in_flight := False\<rparr> else on_failure now e b)"
  "\<not> is_tool_exc x \<Longrightarrow> end_call adm now (Inl x) b =
     (if adm = Probe then b\<lparr>cb_probe_in_flight := False\<rparr> else b)"
  by (simp_all add: end_call_def) (cases x; simp)

lemma cb_inv_end: "cb_inv b now \<Longrightarrow> cb_inv (end_call adm now r b) now"
proof (cases r)
  case (Inr v)
  then show "cb_inv b now \<Longrightarrow> ?thesis" by (simp add: end_call_cases cb_inv_on_success)
next
  case (Inl x)
  then show "cb_inv b now \<Longrightarrow> ?thesis"
    by (cases x) (simp_all add: end_call_cases cb_inv_on_failure)
qed

lemma cb_step_inv: "cb_step ok s t \<Longrightarrow> cb_inv (sys_breaker s) (sys_now s) \<Longrightarrow> cb_inv (sys_breaker t) (sys_now t)"
proof (induction rule: cb_step.induct)
  case (start s i now adm b)
  then have "cb_inv (sys_breaker s) now" by (blast intro: cb_inv_later)
  then have "cb_inv (snd (begin_call now (sys_breaker s))) now" by (rule cb_inv_begin)
  with start show ?case by simp
next
  case (finish s i adm now r)
  then have "cb_inv (end_call adm now r (sys_breaker s)) now"
    by (simp add: cb_inv_end cb_inv_later [of _ "sys_now s" now])
  then show ?case by simp
qed

lemma cb_reach_inv: "cb_reach ok b0 s \<Longrightarrow> b0 = new_breaker n k r \<Longrightarrow> cb_inv (sys_breaker s) (sys_now s)"
proof (induction rule: cb_reach.induct)
  case (init t0)
  then show ?case by (simp add: cb_inv_new)
next
  case (step s t)
  then show ?case by (blast intro: cb_step_inv)
qed

lemma cb_step_config: "cb_step ok s t \<Longrightarrow> same_config (sys_breaker t) (sys_breaker s)"
proof (induction rule: cb_step.induct)
  case (start s i now adm b)
  with begin_call_config [of now "sys_breaker s"] show ?case by simp
qed simp

lemma cb_reach_config: "cb_reach ok b0 s \<Longrightarrow> same_config (sys_breaker s) b0"
  by (induction rule: cb_reach.induct) (auto intro: same_config_trans dest: cb_step_config)

section \<open>One probe at a time\<close>

text \<open>
  Calls have drained when no call admitted before the breaker opened is still running when its
  recovery window ends: the start that would half-open the breaker finds no such call.
\<close>

definition drained_start :: "cb_sys \<Rightarrow> rat \<Rightarrow> bool" where
  "drained_start s now \<longleftrightarrow>
     (cb_state (sys_breaker s) = OPEN \<and> cb_state (check_transitions now (sys_breaker s)) = HALF_OPEN
        \<longrightarrow> (\<forall>i. sys_tasks s i \<noteq> Some Normal))"

definition probe_inv :: "cb_sys \<Rightarrow> bool" where
  "probe_inv s \<longleftrightarrow>
     (\<forall>i. sys_tasks s i \<noteq> Some Rejected) \<and>
     (cb_state (sys_breaker s) \<noteq> HALF_OPEN \<longrightarrow> (\<forall>i. sys_tasks s i \<noteq> Some Probe)) \<and>
     (cb_state (sys_breaker s) = HALF_OPEN \<longrightarrow>
        (\<forall>i. sys_tasks s i \<noteq> Some Normal) \<and>
        (\<forall>i j. sys_tasks s i = Some Probe \<longrightarrow> sys_tasks s j = Some Probe \<longrightarrow> i = j) \<and>
        (\<not> cb_probe_in_flight (sys_breaker s) \<longrightarrow> (\<forall>i. sys_tasks s i \<noteq> Some Probe)))"

lemma on_failure_state:
  "cb_state b = HALF_OPEN \<Longrightarrow> cb_state (on_failure now e b) \<in> {HALF_OPEN, OPEN}"
  "cb_state b \<noteq> HALF_OPEN \<Longrightarrow> cb_state (on_failure now e b) \<noteq> HALF_OPEN"
  by (auto simp: on_failure_def trip_def Let_def)

lemma end_call_not_half_open:
  assumes "cb_state b \<noteq> HALF_OPEN"
  shows "cb_state (end_call adm now r b) \<noteq> HALF_OPEN"
proof (cases r)
  case (Inr v)
  with assms show ?thesis by (simp add: end_call_cases on_success_def)
next
  case (Inl x)
  with assms show ?thesis by (cases x) (simp_all add: end_call_cases on_failure_state)
qed

lemma end_probe_flag: "\<not> cb_probe_in_flight (end_call Probe now r b)"
  by (simp add: end_call_def Let_def)

lemma probe_inv_start:
  assumes "probe_inv s" and "drained_start s now" and "sys_tasks s i = None"
    and "begin_call now (sys_breaker s) = (adm, b)"
  shows "probe_inv \<lparr>sys_breaker = b,
      sys_tasks = (sys_tasks s)(i := (if adm = Rejected then None else Some adm)), sys_now = now\<rparr>"
proof -
  let ?c = "check_transitions now (sys_breaker s)"
  have flag: "cb_state (sys_breaker s) = HALF_OPEN \<Longrightarrow> cb_probe_in_flight ?c = cb_probe_in_flight (sys_breaker s)"
    by (simp add: check_transitions_def Let_def)
  have st: "cb_state ?c = HALF_OPEN \<Longrightarrow> cb_state (sys_breaker s) \<noteq> CLOSED"
    "cb_state (sys_breaker s) = HALF_OPEN \<Longrightarrow> cb_state ?c = HALF_OPEN"
    by (auto split: if_splits)
  show ?thesis
  proof (rule begin_call_cases [of now "sys_breaker s"])
    assume h: "begin_call now (sys_breaker s) = (Rejected, ?c)" "cb_state ?c = OPEN"
    then have "cb_state (sys_breaker s) \<noteq> HALF_OPEN" using st(2) by auto
    with h assms show ?thesis by (simp add: probe_inv_def del: check_transitions_simps)
  next
    assume h: "begin_call now (sys_breaker s) = (Rejected, ?c)" "cb_state ?c = HALF_OPEN"
      "cb_probe_in_flight ?c"
    have "cb_state (sys_breaker s) = HALF_OPEN"
      using h st(1) by (cases "cb_state (sys_breaker s)") (auto simp: check_transitions_def Let_def split: if_splits)
    with h assms show ?thesis by (auto simp: probe_inv_def simp del: check_transitions_simps)
  next
    assume h: "begin_call now (sys_breaker s) = (Probe, ?c\<lparr>cb_probe_in_flight := True\<rparr>)"
      "cb_state ?c = HALF_OPEN" "\<not> cb_probe_in_flight ?c"
    have none: "(\<forall>j. sys_tasks s j \<noteq> Some Probe) \<and> (\<forall>j. sys_tasks s j \<noteq> Some Normal)"
    proof (cases "cb_state (sys_breaker s)")
      case HALF_OPEN
      with assms(1) h(3) flag show ?thesis
        by (simp_all add: probe_inv_def)
    next
      case OPEN
      with assms(1,2) h(2) show ?thesis
        by (simp_all add: probe_inv_def drained_start_def del: check_transitions_simps)
    next
      case CLOSED
      with st(1) h(2) show ?thesis by simp
    qed
    with h assms show ?thesis by (auto simp: probe_inv_def simp del: check_transitions_simps)
  next
    assume h: "begin_call now (sys_breaker s) = (Normal, ?c)" "cb_state ?c = CLOSED"
    then have "cb_state (sys_breaker s) \<noteq> HALF_OPEN" using st(2) by auto
    with h assms show ?thesis by (auto simp: probe_inv_def simp del: check_transitions_simps)
  qed
qed

lemma probe_inv_finish:
  assumes "probe_inv s" and "sys_tasks s i = Some adm"
  shows "probe_inv \<lparr>sys_breaker = end_call adm now r (sys_breaker s),
      sys_tasks = (sys_tasks s)(i := None), sys_now = now\<rparr>"
proof (cases "cb_state (sys_breaker s) = HALF_OPEN")
  case False
  with assms end_call_not_half_open [of "sys_breaker s" adm now r] show ?thesis
    by (auto simp: probe_inv_def)
next
  case True
  with assms have adm: "adm = Probe" by (cases adm) (auto simp: probe_inv_def)
  with True assms have "\<forall>j. j \<noteq> i \<longrightarrow> sys_tasks s j \<noteq> Some Probe" "\<forall>j. sys_tasks s j \<noteq> Some Normal"
    by (auto simp: probe_inv_def)
  with assms(1) show ?thesis by (auto simp: probe_inv_def)
qed

lemma cb_reach_probe_inv:
  "cb_reach drained_start b0 s \<Longrightarrow> probe_inv s \<or> cb_state b0 = HALF_OPEN"
proof (induction rule: cb_reach.induct)
  case (init t0)
  then show ?case by (simp add: probe_inv_def)
next
  case (step s t)
  then show ?case
    by (auto elim!: cb_step_elim intro: probe_inv_start probe_inv_finish)
qed

section \<open>Properties\<close>

text \<open>C16: In every state the breaker can reach, whatever calls interleave and however they end,
  fewer failures are remembered than trip it (at least one trips it), they are in order and not
  in the future, and an open breaker was opened in the past.\<close>

theorem breaker_invariant:
  assumes "cb_reach ok (new_breaker name threshold recovery) s"
  shows "int (length (cb_failures (sys_breaker s))) < max 1 threshold \<and>
    sorted (cb_failures (sys_breaker s)) \<and>
    (\<forall>t \<in> set (cb_failures (sys_breaker s)). t \<le> sys_now s) \<and>
    (cb_state (sys_breaker s) = OPEN \<longrightarrow> cb_opened_at (sys_breaker s) \<le> sys_now s)"
  using cb_reach_inv [OF assms refl] cb_reach_config [OF assms]
  by (auto simp: cb_inv_def same_config_def new_breaker_def)

abbreviation transient :: exc where
  "transient \<equiv> Tool_Exc (mk_error UpstreamError ''upstream_503'' True None None)"

definition sys0 :: "breaker \<Rightarrow> cb_sys" where
  "sys0 b = \<lparr>sys_breaker = b, sys_tasks = (\<lambda>_. None), sys_now = 0\<rparr>"

theorem breaker_invariant_witness:
  "int (length (cb_failures (sys_breaker (sys0 (new_breaker ''t'' 5 30))))) < 5"
proof -
  have "cb_reach (\<lambda>_ _. True) (new_breaker ''t'' 5 30) (sys0 (new_breaker ''t'' 5 30))"
    unfolding sys0_def by (rule cb_reach.init)
  from breaker_invariant [OF this] show ?thesis by simp
qed

text \<open>While the breaker is open and its recovery window has not passed, a call is answered
  with \<^verbatim>\<open>circuit_open\<close> at once: the guarded function does not run, nothing but the failure
  window of the breaker changes, and the breaker stays open with the same opening time.\<close>

theorem breaker_fast_fail:
  assumes "cb_state b = OPEN" and "clock s - cb_opened_at b < of_int (cb_recovery_seconds b)"
  shows "breaker_call clock fn b s = (Inl (circuit_open b), check_transitions (clock s) b, s) \<and>
    cb_state (check_transitions (clock s) b) = OPEN \<and>
    cb_opened_at (check_transitions (clock s) b) = cb_opened_at b \<and>
    cb_trips (check_transitions (clock s) b) = cb_trips b"
proof -
  have "begin_call (clock s) b = (Rejected, check_transitions (clock s) b)"
    using assms by (simp add: begin_call_def Let_def)
  moreover have "circuit_open (check_transitions (clock s) b) = circuit_open b"
    using check_transitions_config [of "clock s" b] by (simp add: circuit_open_def same_config_def)
  ultimately show ?thesis using assms by (simp add: breaker_call_def)
qed

definition open_breaker :: breaker where
  "open_breaker = trip 100 (new_breaker ''postgres.query'' 5 30)"

theorem breaker_fast_fail_witness:
  "breaker_call (\<lambda>t. t) (\<lambda>t. (Inr (), t)) open_breaker 110 =
     (Inl (circuit_open open_breaker), check_transitions 110 open_breaker, 110)"
  using breaker_fast_fail [of open_breaker "\<lambda>t. t" 110 "\<lambda>t. (Inr (), t)"]
  by (simp add: open_breaker_def trip_def new_breaker_def)

text \<open>C31: Recovery. Once the recovery window has passed and no probe is in flight, the next call
  is let through as the probe. If it returns, the breaker is closed with an empty failure
  window; if it raises a retryable upstream error, the breaker is open again from that moment
  and has tripped once more; if it ends in any other way, the breaker stays half-open and ready
  for the next probe.\<close>

theorem breaker_recovers:
  assumes "cb_state b = OPEN" and "of_int (cb_recovery_seconds b) \<le> clock s - cb_opened_at b"
    and "fn s = (r, s1)"
  shows "\<exists>b'. breaker_call clock fn b s = (r, b', s1) \<and> \<not> cb_probe_in_flight b' \<and>
    (case r of
       Inr v \<Rightarrow> cb_state b' = CLOSED \<and> cb_failures b' = [] \<and> cb_trips b' = cb_trips b
     | Inl x \<Rightarrow>
         if \<exists>e. x = Tool_Exc e \<and> counts_as_failure e
         then cb_state b' = OPEN \<and> cb_opened_at b' = clock s1 \<and> cb_trips b' = cb_trips b + 1
         else cb_state b' = HALF_OPEN \<and> cb_trips b' = cb_trips b)"
proof -
  let ?c = "(check_transitions (clock s) b)\<lparr>cb_probe_in_flight := True\<rparr>"
  have "\<not> cb_probe_in_flight (check_transitions (clock s) b)"
    using assms(1,2) by (simp add: check_transitions_def Let_def)
  then have "begin_call (clock s) b = (Probe, ?c)"
    using assms(1,2) by (simp add: begin_call_def Let_def)
  then have call: "breaker_call clock fn b s = (r, end_call Probe (clock s1) r ?c, s1)"
    by (simp add: breaker_call_def assms(3))
  have c: "cb_state ?c = HALF_OPEN" "cb_trips ?c = cb_trips b" using assms(1,2) by simp_all
  show ?thesis
  proof (cases r)
    case (Inr v)
    with call c show ?thesis by (simp add: end_call_cases on_success_def)
  next
    case (Inl x)
    with call c show ?thesis
      by (cases x) (auto simp: end_call_cases on_failure_def trip_def Let_def)
  qed
qed

theorem breaker_recovers_witness:
  "\<exists>b'. breaker_call (\<lambda>t. t) (\<lambda>t. (Inr True, t + 1)) open_breaker 130 = (Inr True, b', 131)
     \<and> cb_state b' = CLOSED"
  using breaker_recovers [of open_breaker "\<lambda>t. t" 130 "\<lambda>t. (Inr True, t + 1)" "Inr True" 131]
  by (auto simp: open_breaker_def trip_def new_breaker_def)

fun breaker_calls ::
    "('s \<Rightarrow> rat) \<Rightarrow> ('s \<Rightarrow> 'a outcome \<times> 's) list \<Rightarrow> breaker \<Rightarrow> 's \<Rightarrow> 'a outcome list \<times> breaker \<times> 's" where
  "breaker_calls clock [] b s = ([], b, s)"
| "breaker_calls clock (fn # fns) b s =
     (case breaker_call clock fn b s of (r, b1, s1) \<Rightarrow>
        case breaker_calls clock fns b1 s1 of (rs, b2, s2) \<Rightarrow> (r # rs, b2, s2))"

definition counted_outcome :: "'a outcome \<Rightarrow> bool" where
  "counted_outcome r = (case r of Inl (Tool_Exc e) \<Rightarrow> counts_as_failure e | _ \<Rightarrow> False)"

lemma uncounted_end: "\<not> counted_outcome r \<Longrightarrow> end_call Normal now r b = b"
proof (cases r)
  case (Inr v)
  then show ?thesis by (simp add: end_call_cases)
next
  case (Inl x)
  then show "\<not> counted_outcome r \<Longrightarrow> ?thesis"
    by (cases x) (simp_all add: end_call_cases counted_outcome_def on_failure_def)
qed

lemma normal_call:
  assumes "cb_state b = CLOSED"
  shows "breaker_call clock fn b s =
    (fst (fn s), end_call Normal (clock (snd (fn s))) (fst (fn s)) (check_transitions (clock s) b), snd (fn s))"
  using assms by (simp add: breaker_call_def begin_call_def Let_def case_prod_beta)

text \<open>Deterministic errors, cancellations and timeouts never open a breaker: from a closed
  breaker, a sequence of calls none of which raises a retryable upstream error leaves it closed
  and untripped, however long it is, and every call gets the guarded function's own outcome.\<close>

theorem breaker_ignores_deterministic:
  assumes "cb_state b = CLOSED"
    and "\<forall>fn \<in> set fns. \<forall>s. \<not> counted_outcome (fst (fn s))"
  shows "case breaker_calls clock fns b s of (rs, b', s') \<Rightarrow>
    cb_state b' = CLOSED \<and> cb_trips b' = cb_trips b \<and> length rs = length fns \<and>
    (\<forall>r \<in> set rs. \<exists>fn \<in> set fns. \<exists>s. r = fst (fn s))"
  using assms
proof (induction fns arbitrary: b s)
  case Nil
  then show ?case by simp
next
  case (Cons fn fns)
  let ?r = "fst (fn s)" and ?s1 = "snd (fn s)"
  let ?b1 = "end_call Normal (clock ?s1) ?r (check_transitions (clock s) b)"
  have "\<not> counted_outcome ?r" using Cons.prems(2) by simp
  then have b1: "cb_state ?b1 = CLOSED" "cb_trips ?b1 = cb_trips b"
    using Cons.prems(1) by (simp_all add: uncounted_end)
  obtain rs b2 s2 where rest: "breaker_calls clock fns ?b1 ?s1 = (rs, b2, s2)"
    by (metis prod_cases3)
  from Cons.IH [OF b1(1), of ?s1] Cons.prems(2) rest b1(2) show ?case
    by (auto simp: normal_call [OF Cons.prems(1)])
qed

theorem breaker_ignores_deterministic_witness:
  "cb_state (fst (snd (breaker_calls (\<lambda>t. t)
     (replicate 2 (\<lambda>t. (Inl (Tool_Exc (mk_error UpstreamError ''syntax'' False None None)) :: unit outcome, t + 1)))
     (new_breaker ''t'' 1 30) 0))) = CLOSED"
  using breaker_ignores_deterministic [of "new_breaker ''t'' 1 30"
      "replicate 2 (\<lambda>t. (Inl (Tool_Exc (mk_error UpstreamError ''syntax'' False None None)) :: unit outcome, t + 1))"
      "\<lambda>t. t" 0]
  by (auto simp: new_breaker_def counted_outcome_def counts_as_failure_def split: prod.splits)

lemma counted_end:
  "end_call Normal now (Inl (Tool_Exc e)) b = on_failure now e b"
  by (simp add: end_call_cases)

text \<open>The threshold is exact. On a closed breaker a call that ends in a retryable upstream
  error opens it precisely when it is at least the threshold-th such failure within the window:
  the failures remembered, less those older than the window when the call began, and this one.
  Below the threshold the breaker stays closed and remembers this failure last.\<close>

theorem breaker_opens_at_threshold:
  assumes "cb_state b = CLOSED" and "sorted (cb_failures b)"
    and "fn s = (Inl (Tool_Exc e), s1)" and "counts_as_failure e"
  shows "\<exists>b'. breaker_call clock fn b s = (Inl (Tool_Exc e), b', s1) \<and>
    (let recent = filter (\<lambda>t. clock s - of_int (cb_window_seconds b) \<le> t) (cb_failures b)
     in if cb_failure_threshold b \<le> int (length recent) + 1
        then cb_state b' = OPEN \<and> cb_opened_at b' = clock s1 \<and> cb_failures b' = [] \<and>
             cb_trips b' = cb_trips b + 1
        else cb_state b' = CLOSED \<and> cb_failures b' = recent @ [clock s1] \<and>
             cb_trips b' = cb_trips b)"
proof -
  let ?c = "check_transitions (clock s) b"
  have "cb_failures ?c = filter (\<lambda>t. clock s - of_int (cb_window_seconds b) \<le> t) (cb_failures b)"
    using assms(2) by (simp add: dropWhile_sorted_filter)
  moreover have "cb_failure_threshold ?c = cb_failure_threshold b" "cb_state ?c = CLOSED"
    using assms(1) check_transitions_config [of "clock s" b] by (simp_all add: same_config_def)
  ultimately show ?thesis
    using assms(4)
    by (auto simp: normal_call [OF assms(1)] assms(3) counted_end on_failure_def trip_def Let_def
        simp del: check_transitions_simps(3,4))
qed

theorem breaker_opens_at_threshold_witness:
  "\<exists>b'. breaker_call (\<lambda>t. t) (\<lambda>t. (Inl transient :: unit outcome, t + 1))
      (new_breaker ''t'' 1 30) 7 = (Inl transient, b', 8) \<and> cb_state b' = OPEN"
  using breaker_opens_at_threshold [of "new_breaker ''t'' 1 30" "\<lambda>t. (Inl transient :: unit outcome, t + 1)"
      7 "mk_error UpstreamError ''upstream_503'' True None None" 8 "\<lambda>t. t"]
  by (auto simp: new_breaker_def counts_as_failure_def is_instance_def)

text \<open>C30: One probe. As long as no call admitted before the breaker opened is still running when
  the recovery window ends, at most one call at a time is let through a half-open breaker, and a
  probe only runs while the breaker is half-open, however the calls interleave.\<close>

theorem breaker_single_probe:
  assumes "cb_reach drained_start (new_breaker name threshold recovery) s"
  shows "(\<forall>i j. sys_tasks s i = Some Probe \<and> sys_tasks s j = Some Probe \<longrightarrow> i = j) \<and>
    (\<forall>i. sys_tasks s i = Some Probe \<longrightarrow> cb_state (sys_breaker s) = HALF_OPEN)"
proof -
  have "probe_inv s" using cb_reach_probe_inv [OF assms] by (simp add: new_breaker_def)
  then show ?thesis by (cases "cb_state (sys_breaker s) = HALF_OPEN") (auto simp: probe_inv_def)
qed

definition stepped :: "breaker \<Rightarrow> (nat \<Rightarrow> admission option) \<Rightarrow> rat \<Rightarrow> cb_sys" where
  "stepped b ts t = \<lparr>sys_breaker = b, sys_tasks = ts, sys_now = t\<rparr>"

lemma reach_init: "cb_reach ok b (stepped b (\<lambda>_. None) t)"
  unfolding stepped_def by (rule cb_reach.init)

lemma reach_start:
  assumes "cb_reach ok b0 (stepped b ts t)" and "ts i = None" and "t \<le> now"
    and "ok (stepped b ts t) now" and "begin_call now b = (adm, b')" and "adm \<noteq> Rejected"
  shows "cb_reach ok b0 (stepped b' (ts(i := Some adm)) now)"
  using cb_reach.step [OF assms(1) cb_step.start [of "stepped b ts t" i now ok adm b']] assms(2-)
  by (simp add: stepped_def)

lemma reach_finish:
  assumes "cb_reach ok b0 (stepped b ts t)" and "ts i = Some adm" and "t \<le> now"
    and "end_call adm now (r :: unit outcome) b = b'"
  shows "cb_reach ok b0 (stepped b' (ts(i := None)) now)"
  using cb_reach.step [OF assms(1) cb_step.finish [of "stepped b ts t" i adm now ok r]] assms(2-)
  by (simp add: stepped_def)

lemmas breaker_eval = begin_call_def check_transitions_def end_call_def on_failure_def trip_def
  counts_as_failure_def is_instance_def Let_def new_breaker_def drained_start_def

text \<open>A breaker of threshold one, with its failed call and then its probe.\<close>

definition tripped_1 :: breaker where
  "tripped_1 = trip 1 (new_breaker ''t'' 1 30)"

definition probing_1 :: "rat \<Rightarrow> breaker \<Rightarrow> breaker" where
  "probing_1 t b = snd (begin_call t b)"

lemma reach_tripped_drained:
  "cb_reach drained_start (new_breaker ''t'' 1 30) (stepped tripped_1 (\<lambda>_. None) 1)"
proof -
  let ?b = "new_breaker ''t'' 1 30"
  have "cb_reach drained_start ?b (stepped ?b ((\<lambda>_. None)(1 := Some Normal)) 0)"
    by (rule reach_start [OF reach_init [of _ _ 0]]) (simp_all add: breaker_eval stepped_def)
  then have "cb_reach drained_start ?b
      (stepped tripped_1 (((\<lambda>_. None)(1 := Some Normal))(1 := None)) 1)"
    by (rule reach_finish [where r = "Inl transient" and adm = Normal])
       (simp_all add: breaker_eval tripped_1_def)
  then show ?thesis by (simp add: fun_upd_idem)
qed

theorem breaker_single_probe_witness:
  "\<exists>s. cb_reach drained_start (new_breaker ''t'' 1 30) s \<and> sys_tasks s 2 = Some Probe \<and>
     (\<forall>i. sys_tasks s i = Some Probe \<longrightarrow> i = 2)"
proof -
  let ?s = "stepped (probing_1 31 tripped_1) ((\<lambda>_. None)(2 := Some Probe)) 31"
  have "cb_reach drained_start (new_breaker ''t'' 1 30) ?s"
    by (rule reach_start [OF reach_tripped_drained])
       (simp_all add: breaker_eval stepped_def tripped_1_def probing_1_def)
  moreover have two: "sys_tasks ?s 2 = Some Probe" by (simp add: stepped_def)
  moreover have "\<forall>i. sys_tasks ?s i = Some Probe \<longrightarrow> i = 2"
    using breaker_single_probe [OF calculation(1)] two by blast
  ultimately show ?thesis by blast
qed

text \<open>
  Without that condition two probes can run at once: a slow call admitted before the breaker
  opened fails while the first probe is running, which opens the breaker again; when the second
  recovery window ends, the flag that marks the first probe is reset and another call is let
  through.
\<close>

lemma two_probes_reachable:
  "\<exists>s. cb_reach (\<lambda>_ _. True) (new_breaker ''t'' 1 30) s \<and>
     sys_tasks s 3 = Some Probe \<and> sys_tasks s 4 = Some Probe"
proof -
  let ?b = "new_breaker ''t'' 1 30" and ?ok = "\<lambda>_ _. True"
  let ?b3 = "probing_1 31 tripped_1"
  let ?b4 = "trip 32 ?b3"
  have 1: "cb_reach ?ok ?b (stepped ?b ((\<lambda>_. None)(1 := Some Normal)) 0)"
    by (rule reach_start [OF reach_init [of _ _ 0]]) (simp_all add: breaker_eval)
  have 2: "cb_reach ?ok ?b (stepped ?b ((\<lambda>_. None)(1 := Some Normal, 2 := Some Normal)) 0)"
    by (rule reach_start [OF 1]) (simp_all add: breaker_eval)
  have 3: "cb_reach ?ok ?b
      (stepped tripped_1 ((\<lambda>_. None)(1 := Some Normal, 2 := Some Normal, 1 := None)) 1)"
    by (rule reach_finish [OF 2, where r = "Inl transient" and adm = Normal])
       (simp_all add: breaker_eval tripped_1_def)
  have 4: "cb_reach ?ok ?b (stepped ?b3
      ((\<lambda>_. None)(1 := Some Normal, 2 := Some Normal, 1 := None, 3 := Some Probe)) 31)"
    by (rule reach_start [OF 3]) (simp_all add: breaker_eval tripped_1_def probing_1_def)
  have 5: "cb_reach ?ok ?b (stepped ?b4 ((\<lambda>_. None)
      (1 := Some Normal, 2 := Some Normal, 1 := None, 3 := Some Probe, 2 := None)) 32)"
    by (rule reach_finish [OF 4, where r = "Inl transient" and adm = Normal])
       (simp_all add: breaker_eval tripped_1_def probing_1_def)
  have "cb_reach ?ok ?b (stepped (probing_1 62 ?b4) ((\<lambda>_. None)
      (1 := Some Normal, 2 := Some Normal, 1 := None, 3 := Some Probe, 2 := None, 4 := Some Probe)) 62)"
    by (rule reach_start [OF 5]) (simp_all add: breaker_eval tripped_1_def probing_1_def)
  then show ?thesis by (intro exI conjI) (assumption, simp_all add: stepped_def)
qed

text \<open>
  A stale failure on an open breaker whose threshold is one counts as another trip and restarts
  the recovery window, although the breaker was open already.
\<close>

lemma stale_failure_retrips:
  assumes "cb_state b = OPEN" and "cb_failure_threshold b \<le> 1" and "counts_as_failure e"
  shows "cb_trips (on_failure now e b) = cb_trips b + 1 \<and> cb_opened_at (on_failure now e b) = now"
  using assms by (simp add: on_failure_def trip_def Let_def)

end
