(* ===== verification/Observability.thy ===== *)
theory Observability
  imports Circuit_Breaker
begin

text \<open>
  What the dispatch pipeline records: the instruments of the metrics registry
  (\<^verbatim>\<open>observability/metrics.py\<close>), the audit log (\<^verbatim>\<open>observability/audit.py\<close>) and the reliability
  counters (\<^verbatim>\<open>reliability/metrics.py\<close>). An instrument is its value per label set; rendering it is
  the Prometheus library's work. The audit file is its text.
\<close>

section \<open>Metrics\<close>

record metrics =
  mt_calls_total :: "string \<times> string \<Rightarrow> int"
  mt_latency :: "string \<Rightarrow> rat list"
  mt_cache_hits :: "string \<Rightarrow> int"
  mt_cache_misses :: "string \<Rightarrow> int"
  mt_rate_limited :: "string \<Rightarrow> int"
  mt_circuit_state :: "string \<Rightarrow> int option"

definition new_metrics :: metrics where
  "new_metrics = \<lparr>mt_calls_total = (\<lambda>_. 0), mt_latency = (\<lambda>_. []), mt_cache_hits = (\<lambda>_. 0),
     mt_cache_misses = (\<lambda>_. 0), mt_rate_limited = (\<lambda>_. 0), mt_circuit_state = (\<lambda>_. None)\<rparr>"

definition increment :: "'k \<Rightarrow> ('k \<Rightarrow> int) \<Rightarrow> 'k \<Rightarrow> int" where
  "increment k f = f(k := f k + 1)"

definition observe_call :: "string \<Rightarrow> string \<Rightarrow> rat \<Rightarrow> metrics \<Rightarrow> metrics" where
  "observe_call tool status duration_s m =
     m\<lparr>mt_calls_total := increment (tool, status) (mt_calls_total m),
       mt_latency := (mt_latency m)(tool := mt_latency m tool @ [duration_s])\<rparr>"

definition observe_cache :: "string \<Rightarrow> bool \<Rightarrow> metrics \<Rightarrow> metrics" where
  "observe_cache tool hit m =
     (if hit then m\<lparr>mt_cache_hits := increment tool (mt_cache_hits m)\<rparr>
      else m\<lparr>mt_cache_misses := increment tool (mt_cache_misses m)\<rparr>)"

definition observe_rate_limited :: "string \<Rightarrow> metrics \<Rightarrow> metrics" where
  "observe_rate_limited tool m = m\<lparr>mt_rate_limited := increment tool (mt_rate_limited m)\<rparr>"

definition set_circuit_state :: "string \<Rightarrow> bstate \<Rightarrow> metrics \<Rightarrow> metrics" where
  "set_circuit_state tool st m =
     m\<lparr>mt_circuit_state := (mt_circuit_state m)(tool := Some (state_value st))\<rparr>"

text \<open>The histogram of latencies: how many durations were at most each bound.\<close>

definition latency_buckets :: "rat list" where
  "latency_buckets = [5/1000, 1/100, 25/1000, 5/100, 1/10, 25/100, 1/2, 1, 5/2, 5, 10, 30]"

definition latency_histogram :: "string \<Rightarrow> metrics \<Rightarrow> (rat \<times> nat) list" where
  "latency_histogram tool m =
     map (\<lambda>b. (b, length (filter (\<lambda>x. x \<le> b) (mt_latency m tool)))) latency_buckets"

lemma histogram_observe:
  "latency_histogram tool (observe_call tool status d m) =
     map (\<lambda>(b, n). (b, if d \<le> b then Suc n else n)) (latency_histogram tool m)"
  "other \<noteq> tool \<Longrightarrow> latency_histogram other (observe_call tool status d m) = latency_histogram other m"
  by (simp_all add: latency_histogram_def observe_call_def)

lemma histogram_cumulative:
  "sorted (map snd (latency_histogram tool m)) \<and> (\<forall>(b, n) \<in> set (latency_histogram tool m). n \<le> length (mt_latency m tool))"
proof -
  have mono: "a \<le> b \<Longrightarrow> length (filter (\<lambda>x. x \<le> a) xs) \<le> length (filter (\<lambda>x. x \<le> b) xs)" for a b :: rat and xs
    by (induction xs) auto
  have "sorted_wrt (\<le>) latency_buckets" by (simp add: latency_buckets_def)
  then have "sorted_wrt (\<lambda>a b. length (filter (\<lambda>x. x \<le> a) (mt_latency m tool))
      \<le> length (filter (\<lambda>x. x \<le> b) (mt_latency m tool))) latency_buckets"
    by (rule sorted_wrt_mono_rel [rotated]) (rule mono)
  moreover have "map snd (latency_histogram tool m) =
      map (\<lambda>b. length (filter (\<lambda>x. x \<le> b) (mt_latency m tool))) latency_buckets"
    by (simp add: latency_histogram_def)
  ultimately show ?thesis
    by (simp only: sorted_map) (auto simp: latency_histogram_def)
qed

section \<open>Reliability counters\<close>

record rel_metrics =
  rm_retries_attempted :: int
  rm_retries_exhausted :: int
  rm_breaker_short_circuits :: int
  rm_per_tool_calls :: "(string, int) odict"

definition new_rel_metrics :: rel_metrics where
  "new_rel_metrics = \<lparr>rm_retries_attempted = 0, rm_retries_exhausted = 0,
     rm_breaker_short_circuits = 0, rm_per_tool_calls = []\<rparr>"

definition record_call :: "string \<Rightarrow> rel_metrics \<Rightarrow> rel_metrics" where
  "record_call tool m =
     (let n = (case map_of (rm_per_tool_calls m) tool of None \<Rightarrow> 0 | Some n \<Rightarrow> n)
      in m\<lparr>rm_per_tool_calls := AList.update tool (n + 1) (rm_per_tool_calls m)\<rparr>)"

definition record_retry :: "rel_metrics \<Rightarrow> rel_metrics" where
  "record_retry m = m\<lparr>rm_retries_attempted := rm_retries_attempted m + 1\<rparr>"

definition record_retry_exhausted :: "rel_metrics \<Rightarrow> rel_metrics" where
  "record_retry_exhausted m = m\<lparr>rm_retries_exhausted := rm_retries_exhausted m + 1\<rparr>"

definition record_short_circuit :: "rel_metrics \<Rightarrow> rel_metrics" where
  "record_short_circuit m = m\<lparr>rm_breaker_short_circuits := rm_breaker_short_circuits m + 1\<rparr>"

fun state_name :: "bstate \<Rightarrow> string" where
  "state_name CLOSED = ''closed''"
| "state_name OPEN = ''open''"
| "state_name HALF_OPEN = ''half_open''"

definition reliability_snapshot :: "rel_metrics \<Rightarrow> breakers \<Rightarrow> (string \<times> json) list" where
  "reliability_snapshot m bs =
     [(''retries_attempted'', JInt (rm_retries_attempted m)),
      (''retries_exhausted'', JInt (rm_retries_exhausted m)),
      (''breaker_short_circuits'', JInt (rm_breaker_short_circuits m)),
      (''per_tool_calls'', JObj (map (\<lambda>(t, n). (t, JInt n)) (rm_per_tool_calls m))),
      (''breakers'', JObj (map (\<lambda>(t, b). (t, JObj [(''state'', JStr (state_name (cb_state b))),
                                                      (''trips'', JInt (cb_trips b))])) bs))]"

section \<open>The audit log\<close>

record audit_event =
  ae_ts :: string
  ae_trace_id :: "string option"
  ae_tenant :: string
  ae_caller :: string
  ae_delegator :: "string option"
  ae_tool :: string
  ae_args_hash :: string
  ae_duration_ms :: rat
  ae_status :: string
  ae_error_code :: "string option"

definition hash_args :: "runtime \<Rightarrow> (string \<times> json) list \<Rightarrow> string" where
  "hash_args rt arguments = ''sha256:'' @ sha256_hex rt (dumps_sorted rt (JObj arguments))"

text \<open>\<^verbatim>\<open>round(x, 3)\<close>\<close>

definition round3 :: "rat \<Rightarrow> rat" where
  "round3 x = of_int (round_half_even (1000 * x)) / 1000"

definition event_json :: "audit_event \<Rightarrow> json" where
  "event_json e = JObj
     [(''ts'', JStr (ae_ts e)), (''trace_id'', json_opt_str (ae_trace_id e)),
      (''tenant'', JStr (ae_tenant e)), (''caller'', JStr (ae_caller e)),
      (''delegator'', json_opt_str (ae_delegator e)), (''tool'', JStr (ae_tool e)),
      (''args_hash'', JStr (ae_args_hash e)), (''duration_ms'', JFloat (ae_duration_ms e)),
      (''status'', JStr (ae_status e)), (''error_code'', json_opt_str (ae_error_code e))]"

definition make_event ::
    "runtime \<Rightarrow> string \<Rightarrow> string option \<Rightarrow> string \<Rightarrow> string \<Rightarrow> string option \<Rightarrow> string
       \<Rightarrow> (string \<times> json) list \<Rightarrow> rat \<Rightarrow> string \<Rightarrow> string option \<Rightarrow> audit_event" where
  "make_event rt ts trace_id tenant caller delegator tool arguments duration_ms status error_code =
     \<lparr>ae_ts = ts, ae_trace_id = trace_id, ae_tenant = tenant, ae_caller = caller,
      ae_delegator = delegator, ae_tool = tool, ae_args_hash = hash_args rt arguments,
      ae_duration_ms = round3 duration_ms, ae_status = status, ae_error_code = error_code\<rparr>"

text \<open>Recording appends one line to the file.\<close>

abbreviation newline :: char where "newline \<equiv> CHR 0x0A"

definition audit_record :: "runtime \<Rightarrow> audit_event \<Rightarrow> string \<Rightarrow> string" where
  "audit_record rt e file = file @ dumps rt (event_json e) @ [newline]"

text \<open>The lines of a text file, each without its line end.\<close>

fun split_lines :: "string \<Rightarrow> string \<Rightarrow> string list" where
  "split_lines cur [] = (if cur = '''' then [] else [cur])"
| "split_lines cur (c # cs) = (if c = newline then cur # split_lines '''' cs else split_lines (cur @ [c]) cs)"

fun load_lines :: "runtime \<Rightarrow> string list \<Rightarrow> json list outcome" where
  "load_lines rt [] = Inr []"
| "load_lines rt (l # ls) =
     (if py_strip l = '''' then load_lines rt ls
      else (case loads rt l of
              None \<Rightarrow> Inl (Py_Exc ''JSONDecodeError'' '''')
            | Some j \<Rightarrow> (case load_lines rt ls of Inl x \<Rightarrow> Inl x | Inr js \<Rightarrow> Inr (j # js))))"

definition read_all :: "runtime \<Rightarrow> string \<Rightarrow> json list outcome" where
  "read_all rt file = load_lines rt (split_lines '''' file)"

definition field_is :: "string \<Rightarrow> string \<Rightarrow> json \<Rightarrow> bool outcome" where
  "field_is k v e =
     (case e of
        JObj ps \<Rightarrow> (case map_of ps k of None \<Rightarrow> Inl (Py_Exc ''KeyError'' k) | Some x \<Rightarrow> Inr (x = JStr v))
      | _ \<Rightarrow> Inl (Py_Exc ''TypeError'' ''''))"

fun keep_field :: "string \<Rightarrow> string \<Rightarrow> json list \<Rightarrow> json list outcome" where
  "keep_field k v [] = Inr []"
| "keep_field k v (e # es) =
     (case field_is k v e of
        Inl x \<Rightarrow> Inl x
      | Inr b \<Rightarrow> (case keep_field k v es of Inl x \<Rightarrow> Inl x | Inr r \<Rightarrow> Inr (if b then e # r else r)))"

definition keep_opt :: "string \<Rightarrow> string option \<Rightarrow> json list \<Rightarrow> json list outcome" where
  "keep_opt k v es = (case v of None \<Rightarrow> Inr es | Some x \<Rightarrow> keep_field k x es)"

definition audit_query :: "runtime \<Rightarrow> string option \<Rightarrow> string option \<Rightarrow> string \<Rightarrow> json list outcome" where
  "audit_query rt tenant tool file =
     (case read_all rt file of
        Inl x \<Rightarrow> Inl x
      | Inr es \<Rightarrow>
          (case keep_opt ''tenant'' tenant es of
             Inl x \<Rightarrow> Inl x
           | Inr es1 \<Rightarrow> keep_opt ''tool'' tool es1))"

section \<open>Reading the log back\<close>

lemma newline_not_json_char: "newline \<notin> set (json_char c)"
proof -
  have h: "hex_digit d \<noteq> newline" if "d < 16" for d
  proof
    assume "hex_digit d = newline"
    then have "(of_char (hex_digit d) :: nat) = 10" by simp
    then show False using that by (auto simp: hex_digit_def of_char_of split: if_splits)
  qed
  have b: "(of_char c :: nat) div 16 < 16" using of_char_less_256 [of c] by linarith
  have m: "(of_char c :: nat) mod 16 < 16" by simp
  show ?thesis
    using h [OF b] h [OF m] by (auto simp: json_char_def Let_def)
qed

lemma newline_not_json_str: "newline \<notin> set (json_str s)"
  using newline_not_json_char by (auto simp: json_str_def)

lemma newline_not_num: "list_all num_char s \<Longrightarrow> newline \<notin> set s"
  by (auto simp: list_all_iff num_char_def is_digit_def)

lemma newline_not_join: "(\<forall>s \<in> set ss. newline \<notin> set s) \<Longrightarrow> newline \<notin> set (py_join '', '' ss)"
  by (induction "'', ''" ss rule: py_join.induct) auto

lemma newline_not_dumps: "wf_json rt j \<Longrightarrow> newline \<notin> set (dumps rt j)"
proof (induction rt j rule: dumps.induct)
  case (3 rt i)
  then show ?case using newline_not_num [OF str_of_int_num_chars] by simp
next
  case (4 rt x)
  then show ?case by (simp add: newline_not_num)
next
  case (6 rt xs)
  then have "newline \<notin> set (py_join '', '' (map (dumps rt) xs))"
    by (intro newline_not_join) (auto simp: list_all_iff)
  then show ?case by simp
next
  case (7 rt ps)
  then have "newline \<notin> set (py_join '', '' (map (\<lambda>(k, v). json_str k @ '': '' @ dumps rt v) ps))"
    by (intro newline_not_join) (fastforce simp: list_all_iff newline_not_json_str)
  then show ?case by simp
qed (simp_all add: newline_not_json_str)

lemma split_lines_line:
  "newline \<notin> set l \<Longrightarrow> split_lines cur (l @ newline # rest) = (cur @ l) # split_lines '''' rest"
  by (induction l arbitrary: cur) auto

lemma split_lines_all:
  "\<forall>l \<in> set ls. newline \<notin> set l \<Longrightarrow> split_lines '''' (concat (map (\<lambda>l. l @ [newline]) ls)) = ls"
  by (induction ls) (auto simp: split_lines_line)

lemma dumps_obj_not_blank: "py_strip (dumps rt (JObj ps)) \<noteq> ''''"
  by (simp add: py_strip_def py_rstrip_def py_lstrip_def is_space_def dropWhile_eq_Nil_conv)

lemma load_lines_dumps:
  "\<forall>e \<in> set es. wf_json rt (event_json e) \<Longrightarrow>
     load_lines rt (map (\<lambda>e. dumps rt (event_json e)) es) = Inr (map event_json es)"
proof (induction es)
  case Nil
  then show ?case by simp
next
  case (Cons e es)
  then have "loads rt (dumps rt (event_json e)) = Some (event_json e)" by (simp add: loads_dumps)
  moreover have "py_strip (dumps rt (event_json e)) \<noteq> ''''"
    unfolding event_json_def by (rule dumps_obj_not_blank)
  ultimately show ?case using Cons by simp
qed

lemma file_text: "fold (audit_record rt) es f0 = f0 @ concat (map (\<lambda>e. dumps rt (event_json e) @ [newline]) es)"
  by (induction es arbitrary: f0) (simp_all add: audit_record_def)

lemma wf_event: "wf_json rt (event_json e) \<longleftrightarrow> wf_json rt (JFloat (ae_duration_ms e))"
  by (auto simp: event_json_def json_opt_str_def split: option.splits)

lemma read_all_records:
  assumes "\<forall>e \<in> set es. wf_json rt (JFloat (ae_duration_ms e))"
  shows "read_all rt (fold (audit_record rt) es '''') = Inr (map event_json es)"
proof -
  have wf: "\<forall>e \<in> set es. wf_json rt (event_json e)" using assms by (simp only: wf_event)
  then have "\<forall>l \<in> set (map (\<lambda>e. dumps rt (event_json e)) es). newline \<notin> set l"
    by (auto dest: newline_not_dumps)
  from split_lines_all [OF this] load_lines_dumps [OF wf] show ?thesis
    by (simp add: read_all_def file_text comp_def)
qed

lemma keep_field_events:
  "keep_field ''tenant'' v (map event_json es) = Inr (map event_json (filter (\<lambda>e. ae_tenant e = v) es))"
  "keep_field ''tool'' v (map event_json es) = Inr (map event_json (filter (\<lambda>e. ae_tool e = v) es))"
  by (induction es) (auto simp: field_is_def event_json_def)

section \<open>Properties\<close>

text \<open>C40: The audit trail answers who called what. Whatever events were recorded in a file, in any
  number and order, whatever their texts contain, a query returns exactly the events of the
  tenant and the tool it asks for, in the order they were recorded and as they were recorded;
  it never fails on a line. Durations are floats the JSON printer and reader round-trip.\<close>

theorem audit_query_exact:
  assumes "\<forall>e \<in> set es. wf_json rt (JFloat (ae_duration_ms e))"
  shows "audit_query rt tenant tool (fold (audit_record rt) es '''') =
    Inr (map event_json (filter (\<lambda>e. (tenant = None \<or> tenant = Some (ae_tenant e)) \<and>
                                       (tool = None \<or> tool = Some (ae_tool e))) es))"
  by (cases tenant; cases tool)
     (auto simp: audit_query_def read_all_records [OF assms] keep_opt_def keep_field_events
        intro!: arg_cong [of _ _ "map event_json"] filter_cong)

definition fixed_runtime :: runtime where
  "fixed_runtime = \<lparr>float_repr = (\<lambda>x. ''1.5''), float_parse = (\<lambda>s. Some (3/2)),
     sha256_hex = (\<lambda>s. replicate 64 (CHR ''a''))\<rparr>"

definition demo_event :: "string \<Rightarrow> audit_event" where
  "demo_event tenant = make_event fixed_runtime ''2025'' None tenant ''agent'' None ''server.ping'' []
     (3/2) ''ok'' None"

theorem audit_query_exact_witness:
  "audit_query fixed_runtime (Some ''acme'') None
     (fold (audit_record fixed_runtime) [demo_event ''acme'', demo_event ''globex''] '''') =
   Inr [event_json (demo_event ''acme'')]"
proof -
  have "round3 (3/2) = 3/2" by (simp add: round3_def round_half_even_def)
  then have "wf_json fixed_runtime (JFloat (ae_duration_ms (demo_event t)))" for t
    by (simp add: demo_event_def make_event_def fixed_runtime_def num_char_def is_digit_def
        float_lexeme_def drop_minus_def frac_exp_ok_def int_digits_def exp_ok_def)
  then show ?thesis
    using audit_query_exact [of "[demo_event ''acme'', demo_event ''globex'']" fixed_runtime
        "Some ''acme''" None]
    by (simp add: demo_event_def make_event_def)
qed

end
