(* ===== verification/Validation.thy ===== *)
theory Validation
  imports Errors
begin

text \<open>
  The guards on agent-generated arguments (\<^verbatim>\<open>validation/adversarial.py\<close>): identifiers, free
  text, and the size and nesting of the argument tree. The pattern of an identifier is a
  predicate; in it, as in the source, the end anchor also matches before a final newline.
\<close>

section \<open>Identifiers and text\<close>

definition ident_start :: "char \<Rightarrow> bool" where
  "ident_start c = (let n = (of_char c :: nat) in
     65 \<le> n \<and> n \<le> 90 \<or> 97 \<le> n \<and> n \<le> 122 \<or> 48 \<le> n \<and> n \<le> 57)"

definition ident_char :: "char \<Rightarrow> bool" where
  "ident_char c \<longleftrightarrow> ident_start c \<or> c = CHR ''.'' \<or> c = CHR ''_'' \<or> c = CHR ''-''"

definition drop_final_newline :: "string \<Rightarrow> string" where
  "drop_final_newline s = (if s \<noteq> [] \<and> last s = CHR 0x0A then butlast s else s)"

definition safe_identifier :: "string \<Rightarrow> bool" where
  "safe_identifier s =
     (case drop_final_newline s of
        [] \<Rightarrow> False
      | c # cs \<Rightarrow> ident_start c \<and> list_all ident_char cs \<and> length cs \<le> 127)"

definition safe_identifier_pattern :: string where
  "safe_identifier_pattern = ''^[A-Za-z0-9][A-Za-z0-9._'' @ [bs_char] @ ''-]{0,127}$''"

definition invalid_arguments :: "string \<Rightarrow> (string \<times> json) list option \<Rightarrow> exc" where
  "invalid_arguments hint ctx =
     Tool_Exc (mk_error ValidationError ''invalid_arguments'' False (Some hint) ctx)"

definition assert_safe_identifier :: "string \<Rightarrow> string \<Rightarrow> string outcome" where
  "assert_safe_identifier field v =
     (if \<not> safe_identifier v
      then Inl (invalid_arguments (field @ '': must match '' @ safe_identifier_pattern)
                  (Some [(''field'', JStr field), (''value'', JStr (take 64 v))]))
      else Inr v)"

definition control_char :: "char \<Rightarrow> bool" where
  "control_char c = (let n = (of_char c :: nat) in
     n \<le> 8 \<or> n = 11 \<or> n = 12 \<or> 14 \<le> n \<and> n \<le> 31 \<or> n = 127)"

definition scrub_text :: "string \<Rightarrow> int \<Rightarrow> string \<Rightarrow> string outcome" where
  "scrub_text field max_length v =
     (if max_length < int (length v)
      then Inl (invalid_arguments (field @ '': exceeds max length '' @ str_of_int max_length)
                  (Some [(''field'', JStr field), (''length'', JInt (int (length v)))]))
      else
        let cleaned = filter (\<lambda>c. \<not> control_char c) v
        in if cleaned \<noteq> v
           then Inl (invalid_arguments (field @ '': contains forbidden control characters'')
                       (Some [(''field'', JStr field)]))
           else Inr cleaned)"

text \<open>The validator the factory \<^verbatim>\<open>text_field_validator\<close> makes for a field.\<close>

definition text_field_scrub :: "string option \<Rightarrow> int \<Rightarrow> json \<Rightarrow> json outcome" where
  "text_field_scrub field_name max_length v =
     (case v of
        JNull \<Rightarrow> Inr JNull
      | JStr s \<Rightarrow>
          (case scrub_text (or_str field_name ''text'') max_length s of
             Inl x \<Rightarrow> Inl x
           | Inr t \<Rightarrow> Inr (JStr t))
      | _ \<Rightarrow> Inl (Py_Exc ''ValueError'' ''expected a string''))"

section \<open>The argument tree\<close>

definition max_argument_bytes :: nat where "max_argument_bytes = 64 * 1024"
definition max_nesting_depth :: nat where "max_nesting_depth = 8"
definition max_list_length :: nat where "max_list_length = 1000"
definition max_object_keys :: nat where "max_object_keys = 100"

definition too_deep :: exc where
  "too_deep = invalid_arguments
     (''arguments nest deeper than '' @ str_of_nat max_nesting_depth @ '' levels'') None"

definition too_many_keys :: exc where
  "too_many_keys = invalid_arguments (''object exceeds '' @ str_of_nat max_object_keys @ '' keys'') None"

definition too_many_items :: exc where
  "too_many_items = invalid_arguments (''list exceeds '' @ str_of_nat max_list_length @ '' items'') None"

fun check_depth :: "nat \<Rightarrow> json \<Rightarrow> unit outcome"
  and check_values :: "nat \<Rightarrow> (string \<times> json) list \<Rightarrow> unit outcome"
  and check_items :: "nat \<Rightarrow> json list \<Rightarrow> unit outcome" where
  "check_depth depth node =
     (if max_nesting_depth < depth then Inl too_deep
      else (case node of
              JObj ps \<Rightarrow>
                if max_object_keys < length ps then Inl too_many_keys else check_values (depth + 1) ps
            | JList xs \<Rightarrow>
                if max_list_length < length xs then Inl too_many_items else check_items (depth + 1) xs
            | _ \<Rightarrow> Inr ()))"
| "check_values depth [] = Inr ()"
| "check_values depth ((k, v) # ps) =
     (case check_depth depth v of Inl x \<Rightarrow> Inl x | Inr u \<Rightarrow> check_values depth ps)"
| "check_items depth [] = Inr ()"
| "check_items depth (v # vs) =
     (case check_depth depth v of Inl x \<Rightarrow> Inl x | Inr u \<Rightarrow> check_items depth vs)"

declare check_depth.simps [simp del]

text \<open>
  The text \<^verbatim>\<open>json.dumps\<close> produces is ASCII, so its length in bytes is its length; on a JSON value
  it does not fail, so the other guard of the source, for values that are not, has no case here.
\<close>

definition bound_argument_tree :: "runtime \<Rightarrow> (string \<times> json) list \<Rightarrow> (string \<times> json) list outcome" where
  "bound_argument_tree rt arguments =
     (let blob = dumps rt (JObj arguments)
      in if max_argument_bytes < length blob
         then Inl (invalid_arguments
                ((''arguments exceed '' @ str_of_nat max_argument_bytes) @ '' bytes'')
                (Some [(''bytes'', JInt (int (length blob)))]))
         else (case check_depth 0 (JObj arguments) of Inl x \<Rightarrow> Inl x | Inr u \<Rightarrow> Inr arguments))"

section \<open>What the guard accepts\<close>

text \<open>The height of a tree, and its nodes.\<close>

fun json_height :: "json \<Rightarrow> nat" where
  "json_height (JList xs) = (if xs = [] then 0 else Suc (Max (set (map json_height xs))))"
| "json_height (JObj ps) = (if ps = [] then 0 else Suc (Max (set (map (\<lambda>(k, v). json_height v) ps))))"
| "json_height j = 0"

fun json_nodes :: "json \<Rightarrow> json list" where
  "json_nodes (JList xs) = JList xs # concat (map json_nodes xs)"
| "json_nodes (JObj ps) = JObj ps # concat (map (\<lambda>(k, v). json_nodes v) ps)"
| "json_nodes j = [j]"

fun node_ok :: "json \<Rightarrow> bool" where
  "node_ok (JList xs) = (length xs \<le> 1000)"
| "node_ok (JObj ps) = (length ps \<le> 100)"
| "node_ok j = True"

definition tree_ok :: "nat \<Rightarrow> json \<Rightarrow> bool" where
  "tree_ok depth j \<longleftrightarrow> depth + json_height j \<le> 8 \<and> list_all node_ok (json_nodes j)"

lemma height_le: "finite S \<Longrightarrow> S \<noteq> {} \<Longrightarrow> (d + Suc (Max S) \<le> 8) = (\<forall>x \<in> S. Suc d + x \<le> (8 :: nat))"
proof
  assume "finite S" "S \<noteq> {}" "d + Suc (Max S) \<le> 8"
  then show "\<forall>x \<in> S. Suc d + x \<le> 8" using Max_ge [of S] by fastforce
next
  assume "finite S" "S \<noteq> {}" "\<forall>x \<in> S. Suc d + x \<le> 8"
  then show "d + Suc (Max S) \<le> 8" using Max_in [of S] by fastforce
qed

lemma tree_ok_list:
  "tree_ok d (JList xs) \<longleftrightarrow> d \<le> 8 \<and> length xs \<le> 1000 \<and> (\<forall>x \<in> set xs. tree_ok (Suc d) x)"
proof (cases "xs = []")
  case True
  then show ?thesis by (simp add: tree_ok_def)
next
  case False
  then have "d + json_height (JList xs) \<le> 8 \<longleftrightarrow> (\<forall>x \<in> set xs. Suc d + json_height x \<le> 8)"
    using height_le [of "set (map json_height xs)" d] by simp
  moreover have "list_all node_ok (json_nodes (JList xs)) \<longleftrightarrow>
      length xs \<le> 1000 \<and> (\<forall>x \<in> set xs. list_all node_ok (json_nodes x))"
    by (auto simp: list_all_iff)
  moreover have "d \<le> 8" if "\<forall>x \<in> set xs. Suc d + json_height x \<le> 8"
    using that False by (cases xs) auto
  ultimately show ?thesis unfolding tree_ok_def by blast
qed

lemma tree_ok_obj:
  "tree_ok d (JObj ps) \<longleftrightarrow> d \<le> 8 \<and> length ps \<le> 100 \<and> (\<forall>p \<in> set ps. tree_ok (Suc d) (snd p))"
proof (cases "ps = []")
  case True
  then show ?thesis by (simp add: tree_ok_def)
next
  case False
  then have "d + json_height (JObj ps) \<le> 8 \<longleftrightarrow> (\<forall>p \<in> set ps. Suc d + json_height (snd p) \<le> 8)"
    using height_le [of "set (map (\<lambda>(k, v). json_height v) ps)" d]
    by (simp add: case_prod_beta)
  moreover have "list_all node_ok (json_nodes (JObj ps)) \<longleftrightarrow>
      length ps \<le> 100 \<and> (\<forall>p \<in> set ps. list_all node_ok (json_nodes (snd p)))"
    by (auto simp: list_all_iff case_prod_beta)
  moreover have "d \<le> 8" if "\<forall>p \<in> set ps. Suc d + json_height (snd p) \<le> 8"
    using that False by (cases ps) auto
  ultimately show ?thesis unfolding tree_ok_def by blast
qed

lemma tree_ok_scalar: "\<lbrakk>\<forall>xs. j \<noteq> JList xs; \<forall>ps. j \<noteq> JObj ps\<rbrakk> \<Longrightarrow> tree_ok d j \<longleftrightarrow> d \<le> 8"
  by (cases j) (simp_all add: tree_ok_def)

lemma res_case_ok: "(case r of Inl x \<Rightarrow> Inl x | Inr u \<Rightarrow> f u) = Inr () \<longleftrightarrow> r = Inr () \<and> f () = Inr ()"
  by (cases r) auto

lemmas depth_limits = max_nesting_depth_def max_list_length_def max_object_keys_def

lemma check_depth_ok:
  "check_depth d j = Inr () \<longleftrightarrow> tree_ok d j"
  "check_values d ps = Inr () \<longleftrightarrow> (\<forall>p \<in> set ps. tree_ok d (snd p))"
  "check_items d xs = Inr () \<longleftrightarrow> (\<forall>x \<in> set xs. tree_ok d x)"
proof (induction d j and d ps and d xs rule: check_depth_check_values_check_items.induct)
  case (1 d j)
  show ?case
  proof (cases "max_nesting_depth < d")
    case True
    then show ?thesis
      by (cases j) (simp_all add: check_depth.simps [of d] depth_limits tree_ok_def)
  next
    case False
    then show ?thesis
    proof (cases j)
      case (JList xs)
      then show ?thesis
        using 1(1) [OF False JList] False
        by (auto simp: check_depth.simps [of d] depth_limits tree_ok_list)
    next
      case (JObj ps)
      then show ?thesis
        using 1(2) [OF False JObj] False
        by (auto simp: check_depth.simps [of d] depth_limits tree_ok_obj)
    qed (simp_all add: check_depth.simps [of d] depth_limits tree_ok_scalar)
  qed
next
  case (3 d k v ps)
  then show ?case by (simp add: res_case_ok) (auto simp: res_case_ok split: sum.splits)
next
  case (5 d v vs)
  then show ?case by (simp add: res_case_ok) (auto simp: res_case_ok split: sum.splits)
qed simp_all

text \<open>Whatever the guard raises is the one kind of error.\<close>

lemma check_depth_error:
  "check_depth d j = Inl x \<Longrightarrow> x \<in> {too_deep, too_many_keys, too_many_items}"
  "check_values d ps = Inl x \<Longrightarrow> x \<in> {too_deep, too_many_keys, too_many_items}"
  "check_items d xs = Inl x \<Longrightarrow> x \<in> {too_deep, too_many_keys, too_many_items}"
proof (induction d j and d ps and d xs rule: check_depth_check_values_check_items.induct)
  case (1 d j)
  then show ?case
    by (cases j) (auto simp: check_depth.simps [of d] split: if_splits)
qed (auto split: sum.splits)

section \<open>Properties\<close>


text \<open>
  The end anchor accepts an identifier with a newline after it.
\<close>

lemma identifier_with_newline: "assert_safe_identifier ''name'' (''a'' @ [CHR 0x0A]) = Inr (''a'' @ [CHR 0x0A])"
  by (simp add: assert_safe_identifier_def safe_identifier_def drop_final_newline_def ident_start_def)

lemma scrub_text_ok:
  "scrub_text f n v = Inr w \<longleftrightarrow> w = v \<and> int (length v) \<le> n \<and> list_all (\<lambda>c. \<not> control_char c) v"
  by (auto simp: scrub_text_def Let_def list_all_iff filter_id_conv)

end
