(* ===== verification/Atba.thy ===== *)
theory Atba
  imports Errors
begin

text \<open>
  The adaptive timeout budget (\<^verbatim>\<open>reliability/atba.py\<close>): the rolling window of latencies per
  tool, the timeout derived from it and from the turn's budget, and the call under that timeout.
  A coroutine here is a function of its cancellation deadline and a state whose clock can be
  read: if the deadline passes it is cancelled, which \<^verbatim>\<open>wait_for\<close> turns into a
  \<^verbatim>\<open>TimeoutError\<close>. The product \<^verbatim>\<open>len(ordered) * 0.95\<close> truncates to \<open>len * 95 div 100\<close> for every
  length the window allows.
\<close>

section \<open>The budget of a turn\<close>

record budget_context =
  bc_total_budget_s :: rat
  bc_started_at :: rat
  bc_calls_made :: int
  bc_spent_s :: rat

definition remaining_s :: "rat \<Rightarrow> budget_context \<Rightarrow> rat" where
  "remaining_s now c = max 0 (bc_total_budget_s c - (now - bc_started_at c))"

section \<open>Latencies\<close>

record latency_tracker =
  lt_window :: nat
  lt_samples :: "(string, rat list) odict"

definition new_tracker :: latency_tracker where
  "new_tracker = \<lparr>lt_window = 500, lt_samples = []\<rparr>"

text \<open>Appending to a \<^verbatim>\<open>deque(maxlen=window)\<close> drops from the left; a tool not seen yet starts empty.\<close>

definition bounded_append :: "nat \<Rightarrow> 'a list \<Rightarrow> 'a \<Rightarrow> 'a list" where
  "bounded_append n xs x = (let ys = xs @ [x] in drop (length ys - n) ys)"

definition record_latency :: "string \<Rightarrow> rat \<Rightarrow> latency_tracker \<Rightarrow> latency_tracker" where
  "record_latency tool duration_s lt =
     (let old = (case map_of (lt_samples lt) tool of None \<Rightarrow> [] | Some xs \<Rightarrow> xs)
      in lt\<lparr>lt_samples := AList.update tool (bounded_append (lt_window lt) old duration_s) (lt_samples lt)\<rparr>)"

definition p95 :: "latency_tracker \<Rightarrow> string \<Rightarrow> rat \<Rightarrow> rat" where
  "p95 lt tool default_s =
     (case map_of (lt_samples lt) tool of
        None \<Rightarrow> default_s
      | Some samples \<Rightarrow>
          if samples = [] \<or> length samples < 20 then default_s
          else let ordered = sort samples;
                   idx = length ordered * 95 div 100
               in ordered ! min idx (length ordered - 1))"

section \<open>The allocator\<close>

record atba =
  at_total_budget_s :: rat
  at_tracker :: latency_tracker

type_synonym budget_var = "budget_context option"

definition safety_factor :: rat where "safety_factor = 3/2"
definition min_call_timeout_s :: rat where "min_call_timeout_s = 1/2"
definition expected_calls_per_turn :: int where "expected_calls_per_turn = 5"

definition new_atba :: "int \<Rightarrow> atba" where
  "new_atba total_budget_ms = \<lparr>at_total_budget_s = of_int total_budget_ms / 1000, at_tracker = new_tracker\<rparr>"

definition begin_turn :: "rat \<Rightarrow> atba \<Rightarrow> budget_var" where
  "begin_turn now a = Some \<lparr>bc_total_budget_s = at_total_budget_s a, bc_started_at = now,
                          bc_calls_made = 0, bc_spent_s = 0\<rparr>"

definition timeout_for :: "rat \<Rightarrow> string \<Rightarrow> atba \<Rightarrow> budget_var \<Rightarrow> rat" where
  "timeout_for now tool a bv =
     (let target = p95 (at_tracker a) tool 5 * safety_factor
      in case bv of
           None \<Rightarrow> max min_call_timeout_s target
         | Some c \<Rightarrow>
             let calls_left = max 1 (expected_calls_per_turn - bc_calls_made c);
                 fair_share = remaining_s now c / of_int calls_left
             in max min_call_timeout_s (min target fair_share))"

text \<open>\<^verbatim>\<open>int(x)\<close> truncates towards zero.\<close>

definition py_int :: "rat \<Rightarrow> int" where
  "py_int x = (if x < 0 then \<lceil>x\<rceil> else \<lfloor>x\<rfloor>)"

type_synonym ('s, 'a) coro = "rat \<Rightarrow> 's \<Rightarrow> 'a outcome \<times> 's"

text \<open>
  \<^verbatim>\<open>asyncio.wait_for\<close>: a cancellation that arrives at or after the deadline is the timeout's own;
  an earlier one comes from outside and passes through.
\<close>

definition wait_for :: "('s \<Rightarrow> rat) \<Rightarrow> rat \<Rightarrow> ('s, 'a) coro \<Rightarrow> 's \<Rightarrow> 'a outcome \<times> 's" where
  "wait_for clock timeout coro s =
     (let deadline = clock s + timeout
      in case coro deadline s of
           (Inl Cancelled, s1) \<Rightarrow>
             (Inl (if deadline \<le> clock s1 then Py_Exc ''TimeoutError'' '''' else Cancelled), s1)
         | (r, s1) \<Rightarrow> (r, s1))"

definition budget_error :: "string \<Rightarrow> rat \<Rightarrow> 'a outcome \<Rightarrow> 'a outcome" where
  "budget_error tool timeout r =
     (case r of
        Inl (Py_Exc ty msg) \<Rightarrow>
          if ty = ''TimeoutError'' then Inl (Tool_Exc (timeout_error tool (py_int (timeout * 1000)))) else r
      | _ \<Rightarrow> r)"

definition call_with_budget ::
    "('s \<Rightarrow> rat) \<Rightarrow> string \<Rightarrow> ('s, 'a) coro \<Rightarrow> atba \<Rightarrow> budget_var \<Rightarrow> 's
       \<Rightarrow> 'a outcome \<times> atba \<times> budget_var \<times> 's" where
  "call_with_budget clock tool coro a bv s =
     (let timeout = timeout_for (clock s) tool a bv;
          bv1 = map_option (\<lambda>c. c\<lparr>bc_calls_made := bc_calls_made c + 1\<rparr>) bv;
          started = clock s
      in case wait_for clock timeout coro s of
           (r, s1) \<Rightarrow>
             let duration = clock s1 - started
             in (budget_error tool timeout r,
                 a\<lparr>at_tracker := record_latency tool duration (at_tracker a)\<rparr>,
                 map_option (\<lambda>c. c\<lparr>bc_spent_s := bc_spent_s c + duration\<rparr>) bv1,
                 s1))"

section \<open>The window\<close>

definition samples_of :: "latency_tracker \<Rightarrow> string \<Rightarrow> rat list" where
  "samples_of lt tool = (case map_of (lt_samples lt) tool of None \<Rightarrow> [] | Some xs \<Rightarrow> xs)"

lemma samples_new [simp]: "samples_of new_tracker t = []"
  by (simp add: samples_of_def new_tracker_def)

lemma window_new [simp]: "lt_window new_tracker = 500"
  by (simp add: new_tracker_def)

lemma window_record [simp]: "lt_window (record_latency t d lt) = lt_window lt"
  by (simp add: record_latency_def Let_def)

lemma samples_record:
  "samples_of (record_latency t d lt) t' =
     (if t' = t then bounded_append (lt_window lt) (samples_of lt t) d else samples_of lt t')"
  by (simp add: samples_of_def record_latency_def Let_def)

lemma length_bounded_append: "length xs \<le> n \<Longrightarrow> length (bounded_append n xs x) \<le> n"
  by (simp add: bounded_append_def Let_def)

lemma bounded_append_last:
  "bounded_append n (drop (length xs - n) xs) x = drop (length (xs @ [x]) - n) (xs @ [x])"
  by (cases "length xs < n") (auto simp: bounded_append_def Let_def Suc_diff_le)

lemma window_step:
  "samples_of lt tool = drop (length xs - 500) xs \<Longrightarrow> lt_window lt = 500 \<Longrightarrow>
     samples_of (record_latency tool d lt) tool = drop (length (xs @ [d]) - 500) (xs @ [d])"
  using bounded_append_last [of 500 xs d] by (simp add: samples_record)

lemma record_all:
  "samples_of (fold (\<lambda>(t, d). record_latency t d) ds new_tracker) tool =
     (let xs = map snd (filter (\<lambda>p. fst p = tool) ds) in drop (length xs - 500) xs) \<and>
   lt_window (fold (\<lambda>(t, d). record_latency t d) ds new_tracker) = 500"
proof (induction ds rule: rev_induct)
  case Nil
  then show ?case by simp
next
  case (snoc p ds)
  obtain t d where p: "p = (t, d)" by (cases p)
  define xs where "xs = map snd (filter (\<lambda>p. fst p = tool) ds)"
  let ?lt = "fold (\<lambda>(t, d). record_latency t d) ds new_tracker"
  from snoc have ih: "samples_of ?lt tool = drop (length xs - 500) xs" "lt_window ?lt = 500"
    by (simp_all add: xs_def Let_def)
  show ?case
  proof (cases "t = tool")
    case True
    with window_step [OF ih, of d] p ih(2) show ?thesis by (simp add: xs_def Let_def)
  next
    case False
    with ih p show ?thesis by (simp add: samples_record xs_def Let_def)
  qed
qed

section \<open>The percentile\<close>

lemma sorted_nth_split:
  assumes "sorted xs" and "i < length xs"
  shows "Suc i \<le> length (filter (\<lambda>x. x \<le> xs ! i) xs)" "length (filter (\<lambda>x. x < xs ! i) xs) \<le> i"
proof -
  have xs: "xs = take i xs @ xs ! i # drop (Suc i) xs" using assms(2) by (rule id_take_nth_drop)
  have lo: "\<forall>x \<in> set (take i xs). x \<le> xs ! i"
    using assms by (auto simp: in_set_conv_nth intro!: sorted_nth_mono)
  have hi: "\<forall>x \<in> set (drop (Suc i) xs). xs ! i \<le> x"
    using assms by (auto simp: in_set_conv_nth intro!: sorted_nth_mono)
  have "filter (\<lambda>x. x \<le> xs ! i) (take i xs) = take i xs" using lo by (simp add: filter_id_conv)
  then have "Suc i \<le> length (filter (\<lambda>x. x \<le> xs ! i) (take i xs @ xs ! i # drop (Suc i) xs))"
    using assms(2) by simp
  with xs show "Suc i \<le> length (filter (\<lambda>x. x \<le> xs ! i) xs)" by simp
  have "filter (\<lambda>x. x < xs ! i) (drop (Suc i) xs) = []"
    using hi by (auto simp: filter_empty_conv not_less)
  then have "length (filter (\<lambda>x. x < xs ! i) (take i xs @ xs ! i # drop (Suc i) xs)) \<le> i"
    using length_filter_le [of "\<lambda>x. x < xs ! i" "take i xs"] assms(2) by simp
  with xs show "length (filter (\<lambda>x. x < xs ! i) xs) \<le> i" by simp
qed

lemma percentile_index:
  fixes n :: nat
  shows "95 * n \<le> 100 * Suc (n * 95 div 100)" "100 * (n * 95 div 100) \<le> 95 * n"
proof -
  obtain q r where q: "q = n * 95 div 100" and r: "r = n * 95 mod 100" by simp
  have "n * 95 = q * 100 + r" unfolding q r by (rule div_mult_mod_eq [symmetric])
  moreover have "r < 100" unfolding r by simp
  ultimately have "95 * n \<le> 100 * Suc q" "100 * q \<le> 95 * n" by simp_all
  then show "95 * n \<le> 100 * Suc (n * 95 div 100)" "100 * (n * 95 div 100) \<le> 95 * n"
    unfolding q .
qed

lemma length_filter_sort: "length (filter P (sort xs)) = length (filter P xs)"
  by (simp add: filter_sort)

lemma p95_few: "length (samples_of lt t) < 20 \<Longrightarrow> p95 lt t dflt = dflt"
  by (auto simp: p95_def samples_of_def split: option.splits)

lemma p95_many:
  assumes "20 \<le> length (samples_of lt t)"
  shows "p95 lt t dflt = sort (samples_of lt t) ! (length (samples_of lt t) * 95 div 100)"
proof -
  have "length (samples_of lt t) * 95 div 100 \<le> length (samples_of lt t) - 1"
    using assms by linarith
  then show ?thesis
    using assms by (auto simp: p95_def samples_of_def Let_def min_def split: option.splits)
qed

lemma timeout_no_budget: "timeout_for now tool a None = max (1/2) (p95 (at_tracker a) tool 5 * (3/2))"
  by (simp add: timeout_for_def Let_def safety_factor_def min_call_timeout_s_def)

lemma timeout_no_budget_pos: "0 \<le> timeout_for now tool a None"
  unfolding timeout_no_budget by (rule order_trans [OF _ max.cobounded1]) simp

section \<open>Properties\<close>

text \<open>The latency a timeout
  is derived from. After any sequence of recorded durations, the
  tracker holds for each tool exactly its last 500 durations, whatever was recorded for other
  tools. With at least 20 of them the estimate is one of them, at least 95 percent of them are no
  larger and at most 95 percent of them are smaller; with fewer it is the default.\<close>

theorem p95_of_window:
  fixes ds :: "(string \<times> rat) list" and tool :: string and dflt :: rat
  shows "let lt = fold (\<lambda>(t, d). record_latency t d) ds new_tracker;
    mine = map snd (filter (\<lambda>p. fst p = tool) ds);
    xs = drop (length mine - 500) mine; e = p95 lt tool dflt
    in samples_of lt tool = xs \<and>
      (if length xs < 20 then e = dflt
       else e \<in> set xs \<and> 95 * length xs \<le> 100 * length (filter (\<lambda>x. x \<le> e) xs) \<and>
            100 * length (filter (\<lambda>x. x < e) xs) \<le> 95 * length xs)"
proof -
  define lt where "lt = fold (\<lambda>(t, d). record_latency t d) ds new_tracker"
  define mine where "mine = map snd (filter (\<lambda>p. fst p = tool) ds)"
  define xs where "xs = drop (length mine - 500) mine"
  have s: "samples_of lt tool = xs"
    using record_all [of ds tool] by (simp add: lt_def xs_def mine_def Let_def)
  have "e = dflt" if "length xs < 20" "e = p95 lt tool dflt" for e
    using that s by (simp add: p95_few)
  moreover have "e \<in> set xs \<and> 95 * length xs \<le> 100 * length (filter (\<lambda>x. x \<le> e) xs) \<and>
      100 * length (filter (\<lambda>x. x < e) xs) \<le> 95 * length xs"
    if n: "\<not> length xs < 20" and e: "e = p95 lt tool dflt" for e
  proof -
    define i where "i = length xs * 95 div 100"
    have ei: "e = sort xs ! i" using n e s by (simp add: p95_many i_def)
    have il: "i < length (sort xs)" unfolding i_def using n by simp
    then have "e \<in> set (sort xs)" using ei nth_mem by blast
    then have "e \<in> set xs" by simp
    moreover have "Suc i \<le> length (filter (\<lambda>x. x \<le> e) xs)"
      using sorted_nth_split(1) [OF sorted_sort il] ei by (simp add: length_filter_sort)
    moreover have "length (filter (\<lambda>x. x < e) xs) \<le> i"
      using sorted_nth_split(2) [OF sorted_sort il] ei by (simp add: length_filter_sort)
    moreover have "95 * length xs \<le> 100 * Suc i" "100 * i \<le> 95 * length xs"
      unfolding i_def by (rule percentile_index)+
    ultimately show ?thesis
      using mult_le_mono2 [of "Suc i" "length (filter (\<lambda>x. x \<le> e) xs)" 100]
        mult_le_mono2 [of "length (filter (\<lambda>x. x < e) xs)" i 100]
      by (blast intro: order_trans)
  qed
  ultimately show ?thesis
    unfolding Let_def lt_def [symmetric] mine_def [symmetric] xs_def [symmetric] using s by auto
qed

text \<open>The timeout of a call is at least half a second. Without a budget it is one and a half
  times the estimated latency, or that floor; with a budget it is moreover no more than the fair
  share of what remains, or that floor, which is itself never more than what remains.\<close>

theorem atba_timeout_bounds:
  fixes a :: atba and bv :: budget_var
  shows "1/2 \<le> timeout_for now tool a bv \<and>
    timeout_for now tool a bv \<le> max (1/2) (p95 (at_tracker a) tool 5 * (3/2)) \<and>
    (case bv of
       None \<Rightarrow> timeout_for now tool a bv = max (1/2) (p95 (at_tracker a) tool 5 * (3/2))
     | Some c \<Rightarrow>
         (let share = remaining_s now c / of_int (max 1 (5 - bc_calls_made c))
          in timeout_for now tool a bv = max (1/2) (min (p95 (at_tracker a) tool 5 * (3/2)) share) \<and>
             share \<le> remaining_s now c))"
proof (cases bv)
  case None
  then show ?thesis
    by (simp add: timeout_for_def Let_def safety_factor_def min_call_timeout_s_def)
next
  case (Some c)
  let ?m = "max 1 (5 - bc_calls_made c)"
  have "(0::rat) \<le> remaining_s now c" by (simp add: remaining_s_def)
  then have "remaining_s now c * 1 \<le> remaining_s now c * of_int ?m"
    by (intro mult_left_mono) simp_all
  then have "remaining_s now c / of_int ?m \<le> remaining_s now c"
    by (simp add: field_simps)
  with Some show ?thesis
    by (auto simp: timeout_for_def Let_def safety_factor_def min_call_timeout_s_def
        expected_calls_per_turn_def)
qed

text \<open>
  A coroutine obeys its deadline when it ends by then, and, when it is cancelled by the deadline,
  exactly then.
\<close>

definition obeys_deadline :: "('s \<Rightarrow> rat) \<Rightarrow> ('s, 'a) coro \<Rightarrow> bool" where
  "obeys_deadline clock coro \<longleftrightarrow>
     (\<forall>d s. clock s \<le> d \<longrightarrow> clock s \<le> clock (snd (coro d s)) \<and> clock (snd (coro d s)) \<le> d)"

lemma budget_error_cases:
  assumes "py_int (t * 1000) = \<lfloor>t * 1000\<rfloor>" and "(c1 :: rat) \<le> d"
  shows "budget_error tool t (if r = Inl Cancelled \<and> d \<le> c1 then Inl (Py_Exc ''TimeoutError'' '''') else r) =
    (if r = Inl Cancelled \<and> c1 = d \<or> (\<exists>m. r = Inl (Py_Exc ''TimeoutError'' m))
     then Inl (Tool_Exc (timeout_error tool \<lfloor>t * 1000\<rfloor>)) else r)"
proof (cases r)
  case (Inl x)
  with assms show ?thesis by (cases x) (auto simp: budget_error_def)
qed (simp add: budget_error_def)

text \<open>A call under the budget
  ends within its timeout, and its duration is what the tracker
  and the turn's budget are charged. The result is the coroutine's own, unless the deadline
  cancelled it (or it raised Python's \<^verbatim>\<open>TimeoutError\<close> itself): then it is the retryable
  \<^verbatim>\<open>timeout\<close> error, which names the budget in milliseconds.\<close>

theorem atba_call_bounded:
  assumes "obeys_deadline clock coro"
    and "call_with_budget clock tool coro a bv s = (r, a', bv', s')"
  shows "0 \<le> clock s' - clock s \<and> clock s' - clock s \<le> timeout_for (clock s) tool a bv \<and>
    at_tracker a' = record_latency tool (clock s' - clock s) (at_tracker a) \<and>
    (\<forall>c. bv = Some c \<longrightarrow> bv' = Some (c\<lparr>bc_calls_made := bc_calls_made c + 1,
       bc_spent_s := bc_spent_s c + (clock s' - clock s)\<rparr>)) \<and>
    (let r0 = fst (coro (clock s + timeout_for (clock s) tool a bv) s) in
     if r0 = Inl Cancelled \<and> clock s' = clock s + timeout_for (clock s) tool a bv \<or>
        (\<exists>m. r0 = Inl (Py_Exc ''TimeoutError'' m))
     then r = Inl (Tool_Exc (timeout_error tool \<lfloor>timeout_for (clock s) tool a bv * 1000\<rfloor>))
     else r = r0)"
proof -
  let ?t = "timeout_for (clock s) tool a bv"
  obtain r0 s1 where c: "coro (clock s + ?t) s = (r0, s1)" by (cases "coro (clock s + ?t) s")
  have t: "1/2 \<le> ?t"
    by (auto simp only: timeout_for_def Let_def min_call_timeout_s_def max.cobounded1 split: option.split)
  then have "clock s \<le> clock s + ?t" by simp
  with assms(1) c have b: "clock s \<le> clock s1" "clock s1 \<le> clock s + ?t"
    unfolding obeys_deadline_def by (metis snd_conv)+
  have pi: "py_int (?t * 1000) = \<lfloor>?t * 1000\<rfloor>" using t by (simp add: py_int_def)
  have w: "wait_for clock ?t coro s =
      (if r0 = Inl Cancelled \<and> clock s + ?t \<le> clock s1 then Inl (Py_Exc ''TimeoutError'' '''') else r0, s1)"
    by (cases r0) (auto simp: wait_for_def Let_def c split: exc.split)
  obtain r2 where r2: "r2 = fst (wait_for clock ?t coro s)" by simp
  from assms(2) w have r: "r = budget_error tool ?t r2" "s' = s1"
    "at_tracker a' = record_latency tool (clock s1 - clock s) (at_tracker a)"
    "bv' = map_option (\<lambda>c. c\<lparr>bc_calls_made := bc_calls_made c + 1,
        bc_spent_s := bc_spent_s c + (clock s1 - clock s)\<rparr>) bv"
    by (auto simp: call_with_budget_def Let_def r2 option.map_comp comp_def)
  have "r = (if r0 = Inl Cancelled \<and> clock s1 = clock s + ?t \<or> (\<exists>m. r0 = Inl (Py_Exc ''TimeoutError'' m))
      then Inl (Tool_Exc (timeout_error tool \<lfloor>?t * 1000\<rfloor>)) else r0)"
    unfolding r(1) r2 w fst_conv by (rule budget_error_cases [OF pi b(2)])
  with b c r show ?thesis by (auto simp: Let_def)
qed

definition slow_coro :: "rat \<Rightarrow> (rat, unit) coro" where
  "slow_coro dur d t = (if t + dur < d then (Inr (), t + dur) else (Inl Cancelled, max t d))"

lemma slow_coro_obeys: "0 \<le> dur \<Longrightarrow> obeys_deadline (\<lambda>t. t) (slow_coro dur)"
  by (auto simp: obeys_deadline_def slow_coro_def)

lemma first_timeout: "timeout_for t ''x'' (new_atba 30000) None = 15/2"
  by (simp add: timeout_for_def Let_def new_atba_def p95_def new_tracker_def safety_factor_def
      min_call_timeout_s_def)

theorem atba_call_bounded_witness:
  "fst (call_with_budget (\<lambda>t. t) ''x'' (slow_coro 60) (new_atba 30000) None 0) =
     Inl (Tool_Exc (timeout_error ''x'' 7500))"
proof -
  obtain r a' bv' s' where c:
    "call_with_budget (\<lambda>t. t) ''x'' (slow_coro 60) (new_atba 30000) None 0 = (r, a', bv', s')"
    by (metis prod_cases4)
  have "s' = 15/2"
    using c by (auto simp: call_with_budget_def Let_def first_timeout wait_for_def slow_coro_def)
  moreover have "obeys_deadline (\<lambda>t. t) (slow_coro 60)" by (rule slow_coro_obeys) simp
  ultimately have "r = Inl (Tool_Exc (timeout_error ''x'' 7500))"
    using atba_call_bounded [OF _ c] by (auto simp: first_timeout slow_coro_def Let_def)
  with c show ?thesis by simp
qed

end
