(* ===== verification/Request_Context.thy ===== *)
theory Request_Context
  imports Errors
begin

text \<open>
  The identity of a request (\<^verbatim>\<open>context.py\<close>), the envelope the dispatch pipeline reads
  (\<^verbatim>\<open>validation/schemas.py\<close>), and the context variable that carries the identity through a
  task. The token \<^verbatim>\<open>ContextVar.set\<close> returns is the previous value, which \<^verbatim>\<open>reset\<close> restores.
\<close>

record tool_call_envelope =
  env_tool :: string
  env_arguments :: "(string \<times> json) list"
  env_tenant :: string
  env_caller :: string
  env_trace_id :: "string option"
  env_delegator :: "string option"

record request_context =
  rc_subject :: string
  rc_tenant :: string
  rc_scopes :: "string list"
  rc_delegator :: "string option"
  rc_trace_id :: "string option"

definition scope_held :: "string list \<Rightarrow> string \<Rightarrow> bool" where
  "scope_held scopes required =
     (if required \<in> set scopes then True
      else if startswith required ''tool:'' \<and> ''tool:*:admin'' \<in> set scopes then True
      else False)"

definition has_scope :: "request_context \<Rightarrow> string \<Rightarrow> bool" where
  "has_scope ctx required = scope_held (rc_scopes ctx) required"

definition build_envelope ::
    "request_context \<Rightarrow> string \<Rightarrow> (string \<times> json) list \<Rightarrow> tool_call_envelope" where
  "build_envelope ctx tool arguments =
     \<lparr>env_tool = tool, env_arguments = arguments, env_tenant = rc_tenant ctx,
      env_caller = rc_subject ctx, env_trace_id = rc_trace_id ctx,
      env_delegator = rc_delegator ctx\<rparr>"

definition dev_context :: "string \<Rightarrow> string \<Rightarrow> string list \<Rightarrow> request_context" where
  "dev_context tenant subject scopes =
     \<lparr>rc_subject = subject, rc_tenant = tenant, rc_scopes = scopes,
      rc_delegator = None, rc_trace_id = None\<rparr>"

definition default_dev_context :: request_context where
  "default_dev_context = dev_context ''default'' ''dev:local'' []"

type_synonym context_var = "request_context option"

definition set_context :: "request_context \<Rightarrow> context_var \<Rightarrow> context_var \<times> context_var" where
  "set_context ctx cv = (cv, Some ctx)"

definition reset_context :: "context_var \<Rightarrow> context_var \<Rightarrow> context_var" where
  "reset_context token cv = token"

definition current_context :: "context_var \<Rightarrow> request_context" where
  "current_context cv = (case cv of Some ctx \<Rightarrow> ctx | None \<Rightarrow> default_dev_context)"

definition clear_context :: "context_var \<Rightarrow> context_var" where
  "clear_context cv = None"

lemma build_envelope_simps [simp]:
  "env_tool (build_envelope ctx t a) = t" "env_arguments (build_envelope ctx t a) = a"
  "env_tenant (build_envelope ctx t a) = rc_tenant ctx"
  "env_caller (build_envelope ctx t a) = rc_subject ctx"
  by (simp_all add: build_envelope_def)

lemma scope_held_iff:
  "scope_held scopes r \<longleftrightarrow>
     r \<in> set scopes \<or> startswith r ''tool:'' \<and> ''tool:*:admin'' \<in> set scopes"
  by (simp add: scope_held_def)

lemma scope_held_mono: "set a \<subseteq> set b \<Longrightarrow> scope_held a r \<Longrightarrow> scope_held b r"
  by (auto simp: scope_held_iff)

end
