(* ===== verification/Tools.thy ===== *)
theory Tools
  imports Settings Validation Atba Request_Context
begin

text \<open>
  Tools and their registry (\<^verbatim>\<open>tools/base.py\<close>, \<^verbatim>\<open>tools/registry.py\<close>, and the metadata each
  built-in tool declares). A tool is its metadata, its input schema and its run. The schema is
  Pydantic's: a function of the model from the raw arguments to the validated ones, or to the
  errors Pydantic reports, or to what a validator raised through it. Validated arguments are the
  object \<^verbatim>\<open>model_dump\<close> gives. A run is a coroutine over the outside world.
\<close>

type_synonym args = "(string \<times> json) list"

datatype tool_level = ATOMIC | COMPOSED | WORKFLOW

fun level_value :: "tool_level \<Rightarrow> string" where
  "level_value ATOMIC = ''atomic''"
| "level_value COMPOSED = ''composed''"
| "level_value WORKFLOW = ''workflow''"

record tool_metadata =
  tm_name :: string
  tm_description :: string
  tm_level :: tool_level
  tm_scopes_required :: "string list"
  tm_destructive :: bool
  tm_cacheable :: bool
  tm_cache_ttl_seconds :: int
  tm_timeout_ms :: int
  tm_tags :: "string list"

text \<open>The defaults of the dataclass.\<close>

definition metadata :: "string \<Rightarrow> string \<Rightarrow> tool_level \<Rightarrow> tool_metadata" where
  "metadata name description level =
     \<lparr>tm_name = name, tm_description = description, tm_level = level, tm_scopes_required = [],
      tm_destructive = False, tm_cacheable = True, tm_cache_ttl_seconds = 60,
      tm_timeout_ms = 10000, tm_tags = []\<rparr>"

datatype schema_result =
    Valid args
  | Invalid "(string list \<times> string option) list" string
  | Raised exc

record 's tool =
  tl_meta :: tool_metadata
  tl_schema :: "args \<Rightarrow> schema_result"
  tl_json_schema :: json
  tl_run :: "string \<Rightarrow> args \<Rightarrow> ('s, args) coro"

definition summarise_pydantic_error :: "(string list \<times> string option) list \<Rightarrow> string \<Rightarrow> string" where
  "summarise_pydantic_error errs str_exc =
     (case errs of
        [] \<Rightarrow> str_exc
      | (loc, msg) # rest \<Rightarrow>
          py_join ''.'' loc @ '': '' @ (case msg of None \<Rightarrow> ''invalid'' | Some m \<Rightarrow> m))"

definition invalid_tool_arguments :: "'s tool \<Rightarrow> string \<Rightarrow> exc" where
  "invalid_tool_arguments t hint =
     invalid_arguments hint (Some [(''tool'', JStr (tm_name (tl_meta t)))])"

fun exc_text :: "exc \<Rightarrow> string" where
  "exc_text (Tool_Exc e) = error_str e"
| "exc_text (Py_Exc ty msg) = msg"
| "exc_text Cancelled = ''''"

definition validate :: "runtime \<Rightarrow> 's tool \<Rightarrow> args \<Rightarrow> args outcome" where
  "validate rt t arguments =
     (case bound_argument_tree rt arguments of
        Inl x \<Rightarrow> Inl x
      | Inr a \<Rightarrow>
          (case tl_schema t arguments of
             Valid v \<Rightarrow> Inr v
           | Invalid errs text \<Rightarrow> Inl (invalid_tool_arguments t (summarise_pydantic_error errs text))
           | Raised x \<Rightarrow>
               (case x of
                  Tool_Exc e \<Rightarrow>
                    if is_instance e ValidationError then Inl x
                    else Inl (invalid_tool_arguments t (exc_text x))
                | Py_Exc ty msg \<Rightarrow> Inl (invalid_tool_arguments t (exc_text x))
                | Cancelled \<Rightarrow> Inl x)))"

definition cache_key :: "runtime \<Rightarrow> 's tool \<Rightarrow> string \<Rightarrow> args \<Rightarrow> string" where
  "cache_key rt t tenant vargs =
     (let blob = dumps_sorted rt (JObj [(''args'', JObj vargs)]);
          digest = take 24 (sha256_hex rt blob)
      in ''atlas:'' @ tenant @ '':'' @ tm_name (tl_meta t) @ '':'' @ digest)"

definition cacheable :: "'s tool \<Rightarrow> bool" where
  "cacheable t = tm_cacheable (tl_meta t)"

definition cache_ttl_seconds :: "'s tool \<Rightarrow> int" where
  "cache_ttl_seconds t = tm_cache_ttl_seconds (tl_meta t)"

definition execute :: "'s tool \<Rightarrow> string \<Rightarrow> args \<Rightarrow> ('s, args) coro" where
  "execute t tenant vargs = tl_run t tenant vargs"

section \<open>The registry\<close>

record 's registry =
  rg_tools :: "(string, 's tool) odict"
  rg_discovered :: bool

definition new_registry :: "'s registry" where
  "new_registry = \<lparr>rg_tools = [], rg_discovered = False\<rparr>"

definition register_tool :: "'s tool \<Rightarrow> 's registry \<Rightarrow> unit outcome \<times> 's registry" where
  "register_tool t rg =
     (let name = tm_name (tl_meta t)
      in if name \<in> set (keys_of (rg_tools rg))
         then (Inl (Py_Exc ''ValueError'' (''tool '' @ py_repr name @ '' already registered'')), rg)
         else (Inr (), rg\<lparr>rg_tools := AList.update name t (rg_tools rg)\<rparr>))"

definition unregister_tool :: "string \<Rightarrow> 's registry \<Rightarrow> unit outcome \<times> 's registry" where
  "unregister_tool name rg =
     (if name \<notin> set (keys_of (rg_tools rg)) then (Inl (Tool_Exc (tool_not_found_error name)), rg)
      else (Inr (), rg\<lparr>rg_tools := AList.delete name (rg_tools rg)\<rparr>))"

fun register_all :: "'s tool list \<Rightarrow> 's registry \<Rightarrow> unit outcome \<times> 's registry" where
  "register_all [] rg = (Inr (), rg)"
| "register_all (t # ts) rg =
     (case register_tool t rg of
        (Inl x, rg1) \<Rightarrow> (Inl x, rg1)
      | (Inr u, rg1) \<Rightarrow> register_all ts rg1)"

definition discover :: "'s tool list \<Rightarrow> 's registry \<Rightarrow> unit outcome \<times> 's registry" where
  "discover builtin rg =
     (if rg_discovered rg then (Inr (), rg)
      else case register_all builtin rg of
             (Inl x, rg1) \<Rightarrow> (Inl x, rg1)
           | (Inr u, rg1) \<Rightarrow> (Inr (), rg1\<lparr>rg_discovered := True\<rparr>))"

definition get_tool :: "'s registry \<Rightarrow> string \<Rightarrow> 's tool outcome" where
  "get_tool rg name =
     (case map_of (rg_tools rg) name of
        None \<Rightarrow> Inl (Tool_Exc (tool_not_found_error name))
      | Some t \<Rightarrow> Inr t)"

definition tool_names :: "'s registry \<Rightarrow> string list" where
  "tool_names rg = sort (keys_of (rg_tools rg))"

definition by_level :: "'s registry \<Rightarrow> tool_level \<Rightarrow> 's tool list" where
  "by_level rg level = filter (\<lambda>t. tm_level (tl_meta t) = level) (map snd (rg_tools rg))"

definition scopes_satisfied :: "string list \<Rightarrow> string list \<Rightarrow> bool" where
  "scopes_satisfied required held =
     (if required = [] then True
      else list_all (\<lambda>scope. scope \<in> set held \<or> ''tool:*:admin'' \<in> set held) required)"

record mcp_tool_spec =
  ms_name :: string
  ms_description :: string
  ms_input_schema :: json

definition to_mcp_spec :: "'s tool \<Rightarrow> mcp_tool_spec" where
  "to_mcp_spec t = \<lparr>ms_name = tm_name (tl_meta t), ms_description = tm_description (tl_meta t),
     ms_input_schema = tl_json_schema t\<rparr>"

definition list_visible :: "'s registry \<Rightarrow> string \<Rightarrow> string list \<Rightarrow> mcp_tool_spec list" where
  "list_visible rg tenant scopes =
     map to_mcp_spec
       (filter (\<lambda>t. scopes_satisfied (tm_scopes_required (tl_meta t)) scopes) (map snd (rg_tools rg)))"

definition tool_summary :: "'s tool \<Rightarrow> json" where
  "tool_summary t = (let m = tl_meta t in JObj
     [(''name'', JStr (tm_name m)), (''level'', JStr (level_value (tm_level m))),
      (''description'', JStr (tm_description m)), (''tags'', JList (map JStr (tm_tags m))),
      (''scopes_required'', JList (map JStr (tm_scopes_required m))),
      (''destructive'', JBool (tm_destructive m)), (''cacheable'', JBool (tm_cacheable m))])"

definition atlas_version :: string where
  "atlas_version = ''0.1.0''"

definition capability_document :: "settings \<Rightarrow> 's registry \<Rightarrow> json" where
  "capability_document cfg rg = JObj
     [(''protocol_version'', JStr ''2025-11''),
      (''server'', JObj [(''name'', JStr (service_name cfg)), (''version'', JStr atlas_version)]),
      (''capabilities'', JObj
         [(''tools'', JObj
             [(''list_changed'', JBool True), (''count'', JInt (int (length (rg_tools rg)))),
              (''levels'', JList (map JStr (sort (remdups
                 (map (\<lambda>t. level_value (tm_level (tl_meta t))) (map snd (rg_tools rg)))))))]),
          (''prompts'', JObj []), (''resources'', JObj [])]),
      (''tools_summary'', JList (map tool_summary (map snd (rg_tools rg)))),
      (''authorization_server'', JObj
         [(''issuer'', JStr (auth_issuer cfg)),
          (''metadata_url'', JStr (auth_issuer cfg @ ''/.well-known/oauth-authorization-server''))])]"

section \<open>The built-in tools\<close>

definition ping_meta :: tool_metadata where
  "ping_meta = (metadata ''server.ping''
      ''Health-check stub tool. Returns pong with the caller tenant.'' ATOMIC)
     \<lparr>tm_cacheable := False, tm_tags := [''stub'', ''health'']\<rparr>"

definition postgres_meta :: tool_metadata where
  "postgres_meta = (metadata ''postgres.query''
      ''Execute a single read-only SELECT against the Postgres warehouse.'' ATOMIC)
     \<lparr>tm_scopes_required := [''tool:postgres:read''], tm_cache_ttl_seconds := 30,
      tm_timeout_ms := 5000, tm_tags := [''postgres'', ''sql'', ''read'']\<rparr>"

definition elasticsearch_meta :: tool_metadata where
  "elasticsearch_meta = (metadata ''elasticsearch.search''
      ''Run a DSL search against an Elasticsearch index.'' ATOMIC)
     \<lparr>tm_scopes_required := [''tool:elasticsearch:read''], tm_cache_ttl_seconds := 30,
      tm_timeout_ms := 3000, tm_tags := [''elasticsearch'', ''search'', ''read'']\<rparr>"

definition vector_meta :: tool_metadata where
  "vector_meta = (metadata ''vector.search''
      ''Nearest-neighbour search against a vector collection.'' ATOMIC)
     \<lparr>tm_scopes_required := [''tool:vector:read''], tm_cache_ttl_seconds := 300,
      tm_timeout_ms := 2000, tm_tags := [''vector'', ''qdrant'', ''retrieval'']\<rparr>"

definition s3_get_meta :: tool_metadata where
  "s3_get_meta = (metadata ''s3.get_object''
      ''Read a text object from the Atlas S3 bucket.'' ATOMIC)
     \<lparr>tm_scopes_required := [''tool:s3:read''], tm_cache_ttl_seconds := 300,
      tm_timeout_ms := 3000, tm_tags := [''s3'', ''storage'', ''read'']\<rparr>"

definition s3_put_meta :: tool_metadata where
  "s3_put_meta = (metadata ''s3.put_object''
      ''Write a text object to the Atlas S3 bucket. Requires human approval.'' ATOMIC)
     \<lparr>tm_scopes_required := [''tool:s3:write''], tm_destructive := True, tm_cacheable := False,
      tm_timeout_ms := 5000, tm_tags := [''s3'', ''storage'', ''write'']\<rparr>"

definition http_meta :: tool_metadata where
  "http_meta = (metadata ''http.fetch''
      ''Make an outbound HTTPS request to an allowlisted domain.'' ATOMIC)
     \<lparr>tm_scopes_required := [''tool:http:fetch''], tm_cacheable := False,
      tm_timeout_ms := 15000, tm_tags := [''http'', ''network'']\<rparr>"

definition semantic_meta :: tool_metadata where
  "semantic_meta = (metadata ''semantic_search''
      (''Retrieve passages from the knowledge base using dense vector search. '' @
       ''Prefer this over vector.search unless you have a pre-computed embedding.'') COMPOSED)
     \<lparr>tm_scopes_required := [''tool:vector:read'', ''tool:postgres:read''],
      tm_cache_ttl_seconds := 120, tm_timeout_ms := 8000, tm_tags := [''rag'', ''retrieval'', ''semantic'']\<rparr>"

definition hybrid_meta :: tool_metadata where
  "hybrid_meta = (metadata ''hybrid_search''
      (''Hybrid lexical + semantic retrieval with Reciprocal Rank Fusion. '' @
       ''Prefer this for queries that mix technical keywords with natural language.'') COMPOSED)
     \<lparr>tm_scopes_required := [''tool:vector:read'', ''tool:elasticsearch:read''],
      tm_cache_ttl_seconds := 120, tm_tags := [''rag'', ''retrieval'', ''hybrid'', ''rrf'']\<rparr>"

definition customer_meta :: tool_metadata where
  "customer_meta = (metadata ''customer.build_context''
      (''Aggregate a customer'' @ [sq_char] @ ''s recent orders, open tickets, and relevant '' @
       ''documentation passages for the given question. Returns a single '' @
       ''structured context object.'') WORKFLOW)
     \<lparr>tm_scopes_required := [''tool:postgres:read'', ''tool:elasticsearch:read'', ''tool:vector:read''],
      tm_cache_ttl_seconds := 30, tm_timeout_ms := 15000,
      tm_tags := [''support'', ''context'', ''workflow'']\<rparr>"

text \<open>In the order \<^verbatim>\<open>discover\<close> registers them.\<close>

definition builtin_metas :: "tool_metadata list" where
  "builtin_metas = [ping_meta, postgres_meta, elasticsearch_meta, vector_meta, s3_get_meta,
     s3_put_meta, http_meta, semantic_meta, hybrid_meta, customer_meta]"

lemmas builtin_defs = builtin_metas_def ping_meta_def postgres_meta_def elasticsearch_meta_def
  vector_meta_def s3_get_meta_def s3_put_meta_def http_meta_def semantic_meta_def hybrid_meta_def
  customer_meta_def metadata_def

section \<open>Registry invariants\<close>

text \<open>Every tool is filed under its own name, once.\<close>

definition registry_wf :: "'s registry \<Rightarrow> bool" where
  "registry_wf rg \<longleftrightarrow> wf_odict (rg_tools rg) \<and> (\<forall>(n, t) \<in> set (rg_tools rg). tm_name (tl_meta t) = n)"

lemma registry_wf_new [simp]: "registry_wf new_registry"
  by (simp add: registry_wf_def new_registry_def)

lemma update_fresh: "k \<notin> set (keys_of d) \<Longrightarrow> AList.update k v d = d @ [(k, v)]"
  by (induction d) auto

lemma register_wf: "registry_wf rg \<Longrightarrow> registry_wf (snd (register_tool t rg))"
  by (auto simp: registry_wf_def register_tool_def Let_def update_fresh wf_odict_def)

lemma unregister_wf: "registry_wf rg \<Longrightarrow> registry_wf (snd (unregister_tool n rg))"
  by (auto simp: registry_wf_def unregister_tool_def AList.delete_eq)

lemma register_all_wf: "registry_wf rg \<Longrightarrow> registry_wf (snd (register_all ts rg))"
proof (induction ts arbitrary: rg)
  case Nil
  then show ?case by simp
next
  case (Cons t ts)
  from register_wf [OF Cons.prems, of t] Cons.IH show ?case
    by (auto split: prod.split sum.split)
qed

lemma get_tool_name: "registry_wf rg \<Longrightarrow> get_tool rg n = Inr t \<Longrightarrow> tm_name (tl_meta t) = n"
  by (fastforce simp: registry_wf_def get_tool_def dest: map_of_SomeD split: option.splits)

lemma register_all_tools:
  "distinct (keys_of (rg_tools rg) @ map (\<lambda>t. tm_name (tl_meta t)) ts) \<Longrightarrow>
   register_all ts rg =
     (Inr (), rg\<lparr>rg_tools := rg_tools rg @ map (\<lambda>t. (tm_name (tl_meta t), t)) ts\<rparr>)"
proof (induction ts arbitrary: rg)
  case Nil
  then show ?case by simp
next
  case (Cons t ts)
  then have "register_tool t rg =
      (Inr (), rg\<lparr>rg_tools := rg_tools rg @ [(tm_name (tl_meta t), t)]\<rparr>)"
    by (simp add: register_tool_def Let_def update_fresh)
  with Cons show ?case by simp
qed

section \<open>Properties\<close>

text \<open>Discovery. On a fresh registry, discovering tools with distinct names succeeds; afterwards
  the registry resolves exactly their names, each to its tool, under which it is filed, refuses
  every other name with \<^verbatim>\<open>tool_not_found\<close>, and discovering again changes nothing. The built-in
  names are distinct.\<close>

theorem discover_resolves:
  assumes "distinct (map (\<lambda>t. tm_name (tl_meta t)) ts)"
  shows "\<exists>rg. discover ts new_registry = (Inr (), rg) \<and> registry_wf rg \<and>
    (\<forall>t \<in> set ts. get_tool rg (tm_name (tl_meta t)) = Inr t) \<and>
    (\<forall>n. n \<notin> (\<lambda>t. tm_name (tl_meta t)) ` set ts \<longrightarrow>
       get_tool rg n = Inl (Tool_Exc (tool_not_found_error n))) \<and>
    discover ts rg = (Inr (), rg) \<and>
    tool_names rg = sort (map (\<lambda>t. tm_name (tl_meta t)) ts) \<and>
    distinct (map tm_name builtin_metas)"
proof -
  let ?d = "map (\<lambda>t. (tm_name (tl_meta t), t)) ts"
  let ?rg = "\<lparr>rg_tools = ?d, rg_discovered = True\<rparr>"
  have keys: "keys_of ?d = map (\<lambda>t. tm_name (tl_meta t)) ts" by (simp add: comp_def)
  have wf: "wf_odict ?d" using assms by (simp add: wf_odict_def comp_def)
  have "discover ts new_registry = (Inr (), ?rg)"
    using register_all_tools [of new_registry ts] assms by (simp add: discover_def new_registry_def)
  moreover have "registry_wf ?rg" using wf by (auto simp: registry_wf_def)
  moreover have "get_tool ?rg (tm_name (tl_meta t)) = Inr t" if "t \<in> set ts" for t
  proof -
    have "map_of ?d (tm_name (tl_meta t)) = Some t"
      using wf that by (intro map_of_is_SomeI) (auto simp: wf_odict_def)
    then show ?thesis by (simp add: get_tool_def)
  qed
  moreover have "get_tool ?rg n = Inl (Tool_Exc (tool_not_found_error n))"
    if "n \<notin> (\<lambda>t. tm_name (tl_meta t)) ` set ts" for n
  proof -
    have "map_of ?d n = None" using that by (auto simp: map_of_eq_None_iff)
    then show ?thesis by (simp add: get_tool_def)
  qed
  moreover have "discover ts ?rg = (Inr (), ?rg)" by (simp add: discover_def)
  moreover have "tool_names ?rg = sort (map (\<lambda>t. tm_name (tl_meta t)) ts)"
    by (simp add: tool_names_def comp_def)
  moreover have "distinct (map tm_name builtin_metas)" by (simp add: builtin_defs)
  ultimately show ?thesis by blast
qed

definition demo_tool :: "tool_metadata \<Rightarrow> unit tool" where
  "demo_tool m = \<lparr>tl_meta = m, tl_schema = Valid, tl_json_schema = JObj [],
     tl_run = (\<lambda>tenant a d s. (Inr a, s))\<rparr>"

theorem discover_resolves_witness:
  "\<exists>rg. discover (map demo_tool builtin_metas) new_registry = (Inr (), rg) \<and>
     get_tool rg ''s3.put_object'' = Inr (demo_tool s3_put_meta)"
proof -
  have d: "distinct (map (\<lambda>t. tm_name (tl_meta t)) (map demo_tool builtin_metas))"
    by (simp add: builtin_defs demo_tool_def)
  have m: "demo_tool s3_put_meta \<in> set (map demo_tool builtin_metas)" by (simp add: builtin_metas_def)
  have n: "tm_name (tl_meta (demo_tool s3_put_meta)) = ''s3.put_object''"
    by (simp add: demo_tool_def s3_put_meta_def metadata_def)
  from discover_resolves [OF d] m n show ?thesis by metis
qed

text \<open>What a caller is shown is what its scopes let it call. A tool whose required scopes are
  tool scopes is listed for a caller exactly when every scope it requires passes the check the
  dispatch pipeline makes, whatever tenant lists; this holds for every built-in tool.\<close>

theorem visible_iff_scoped:
  assumes "\<forall>s \<in> set (tm_scopes_required (tl_meta t)). startswith s ''tool:''" and "(n, t) \<in> set (rg_tools rg)"
  shows "(list_all (has_scope ctx) (tm_scopes_required (tl_meta t)) \<longrightarrow>
      to_mcp_spec t \<in> set (list_visible rg (rc_tenant ctx) (rc_scopes ctx))) \<and>
    (scopes_satisfied (tm_scopes_required (tl_meta t)) (rc_scopes ctx) \<longleftrightarrow>
      list_all (has_scope ctx) (tm_scopes_required (tl_meta t))) \<and>
    (\<forall>m \<in> set builtin_metas. \<forall>s \<in> set (tm_scopes_required m). startswith s ''tool:'')"
proof -
  have eq: "scopes_satisfied (tm_scopes_required (tl_meta t)) (rc_scopes ctx) \<longleftrightarrow>
      list_all (has_scope ctx) (tm_scopes_required (tl_meta t))"
    using assms(1) by (auto simp: scopes_satisfied_def has_scope_def scope_held_iff list_all_iff)
  have "to_mcp_spec t \<in> set (list_visible rg (rc_tenant ctx) (rc_scopes ctx))"
    if "scopes_satisfied (tm_scopes_required (tl_meta t)) (rc_scopes ctx)"
    using assms(2) that by (force simp: list_visible_def)
  moreover have "\<forall>m \<in> set builtin_metas. \<forall>s \<in> set (tm_scopes_required m). startswith s ''tool:''"
    by (simp add: builtin_defs str_eval)
  ultimately show ?thesis using eq by blast
qed

theorem visible_iff_scoped_witness:
  "to_mcp_spec (demo_tool s3_get_meta) \<in>
     set (list_visible (\<lparr>rg_tools = [(''s3.get_object'', demo_tool s3_get_meta)], rg_discovered = True\<rparr>)
            ''acme'' [''tool:s3:read''])"
  using visible_iff_scoped [of "demo_tool s3_get_meta" "''s3.get_object''"
      "\<lparr>rg_tools = [(''s3.get_object'', demo_tool s3_get_meta)], rg_discovered = True\<rparr>"
      "dev_context ''acme'' ''dev'' [''tool:s3:read'']"]
  by (simp add: demo_tool_def s3_get_meta_def metadata_def dev_context_def has_scope_def scope_held_def
      startswith_def)

end
