(* ===== verification/Server.thy ===== *)
theory Server
  imports Policy Allowlist Rate_Limit Retry Cache Approval Observability Tools
begin

text \<open>
  The dispatch pipeline (\<^verbatim>\<open>server.py\<close>): the guards a call passes in order, the observed run
  through the cache, the budget, the breaker and the retries, and the protocol handlers. The
  server has the in-memory backends it is built with unless Redis is configured.

  A call is modelled from its start to its end, with every change it makes to the server's
  state. The outside world, in which tools run and time passes, is a parameter \<open>'w\<close> with the
  functions of \<open>server_env\<close>; what other tasks do while this one sleeps is part of the sleeps.
\<close>

section \<open>The environment\<close>

text \<open>
  The state behind the cache: the breakers, the budget allocator, the reliability counters and
  the world.
\<close>

record 'w backend_state =
  bk_breakers :: breakers
  bk_atba :: atba
  bk_rel :: rel_metrics
  bk_world :: 'w

text \<open>
  The monotonic and the wall clock, the time stamp, the sleep between retries (which a deadline
  cancels), the random draws, the sleep of a caller that waits for another's computation, and
  what the URL parser accepts between brackets.
\<close>

record 'w server_env =
  se_runtime :: runtime
  se_clock :: "'w \<Rightarrow> rat"
  se_wall :: "'w \<Rightarrow> rat"
  se_stamp :: "'w \<Rightarrow> string"
  se_sleep :: "rat \<Rightarrow> ('w, unit) coro"
  se_random :: "int \<Rightarrow> rat"
  se_pause :: "rat \<Rightarrow> (mem_l2, 'w backend_state) cache_world
    \<Rightarrow> unit outcome \<times> (mem_l2, 'w backend_state) cache_world"
  se_bracket_ok :: "string \<Rightarrow> bool"

record 'w server =
  sv_settings :: settings
  sv_registry :: "'w registry"
  sv_policy :: policy_engine
  sv_allowlist :: allowlist
  sv_buckets :: mem_buckets
  sv_approvals :: ttl_dict
  sv_metrics :: metrics
  sv_audit :: string
  sv_cache :: "mem_l2 cache_manager"
  sv_breakers :: breakers
  sv_atba :: atba
  sv_rel :: rel_metrics

text \<open>The constructor, on the parsed policy and allowlist files and the text of the audit file.\<close>

definition new_server ::
    "settings \<Rightarrow> raw_rule list option \<Rightarrow> allowlist option \<Rightarrow> string \<Rightarrow> 'w server" where
  "new_server cfg rules domains audit_file =
     \<lparr>sv_settings = cfg, sv_registry = new_registry,
      sv_policy = policy_from_file rules (policy_default_deny cfg),
      sv_allowlist = allowlist_from_file domains, sv_buckets = Map.empty, sv_approvals = [],
      sv_metrics = new_metrics, sv_audit = audit_file, sv_cache = new_cache cfg new_mem_l2,
      sv_breakers = [], sv_atba = new_atba (atba_total_budget_ms cfg), sv_rel = new_rel_metrics\<rparr>"

definition startup :: "'w tool list \<Rightarrow> 'w server \<Rightarrow> unit outcome \<times> 'w server" where
  "startup builtin sv =
     (case discover builtin (sv_registry sv) of (r, rg) \<Rightarrow> (r, sv\<lparr>sv_registry := rg\<rparr>))"

definition server_snapshot :: "'w server \<Rightarrow> (string \<times> json) list" where
  "server_snapshot sv = reliability_snapshot (sv_rel sv) (sv_breakers sv)"

section \<open>Guards\<close>

definition insufficient_scope :: "string \<Rightarrow> exc" where
  "insufficient_scope required = Tool_Exc (mk_error PolicyError ''insufficient_scope'' False
     (Some (''missing required scope '' @ py_repr required)) None)"

fun scope_guard :: "request_context \<Rightarrow> string list \<Rightarrow> unit outcome" where
  "scope_guard ctx [] = Inr ()"
| "scope_guard ctx (required # rest) =
     (if \<not> has_scope ctx required then Inl (insufficient_scope required) else scope_guard ctx rest)"

definition policy_action :: "'w tool \<Rightarrow> string" where
  "policy_action t = tm_name (tl_meta t)"

definition policy_resource :: "'w tool \<Rightarrow> args \<Rightarrow> string" where
  "policy_resource t vargs = tm_name (tl_meta t)"

text \<open>
  The schemas type \<^verbatim>\<open>sql\<close> and \<^verbatim>\<open>url\<close> as strings and \<^verbatim>\<open>columns\<close> as a list of strings; a null is
  as good as absent to the conditions and the allowlist.
\<close>

definition policy_context_of :: "args \<Rightarrow> policy_context" where
  "policy_context_of vargs =
     \<lparr>pc_sql = (case map_of vargs ''sql'' of Some (JStr s) \<Rightarrow> Some s | _ \<Rightarrow> None),
      pc_columns = (case map_of vargs ''columns'' of
         Some (JList xs) \<Rightarrow> Some (concat (map (\<lambda>x. case x of JStr s \<Rightarrow> [s] | _ \<Rightarrow> []) xs))
       | _ \<Rightarrow> None)\<rparr>"

definition http_guard :: "(string \<Rightarrow> bool) \<Rightarrow> allowlist \<Rightarrow> string \<Rightarrow> args \<Rightarrow> unit outcome" where
  "http_guard bracket_ok al tenant vargs =
     (case map_of vargs ''url'' of
        Some (JStr url) \<Rightarrow>
          if url = '''' then Inr ()
          else (case url_hostname bracket_ok url of
                  Inl x \<Rightarrow> Inl x
                | Inr h \<Rightarrow> allowlist_check al tenant (or_str h ''''))
      | _ \<Rightarrow> Inr ())"

section \<open>The reliable run\<close>

definition run_tool :: "'w tool \<Rightarrow> string \<Rightarrow> string \<Rightarrow> args \<Rightarrow> ('w, args) coro" where
  "run_tool t name tenant vargs deadline w =
     (case execute t tenant vargs deadline w of
        (Inl (Py_Exc ty msg), w1) \<Rightarrow>
          (Inl (Tool_Exc (normalise_exception (Py_Exc ty msg) (Some name))), w1)
      | (r, w1) \<Rightarrow> (r, w1))"

definition retry_settings :: "settings \<Rightarrow> retry_config" where
  "retry_settings cfg = default_retry
     \<lparr>rt_max_attempts := retry_max_attempts cfg, rt_base_delay_ms := retry_base_delay_ms cfg\<rparr>"

text \<open>\<^verbatim>\<open>_on_retry_sleep\<close> counts the retry, then sleeps.\<close>

definition retry_env_of :: "'w server_env \<Rightarrow> rat \<Rightarrow> (rel_metrics \<times> 'w) retry_env" where
  "retry_env_of ev deadline =
     \<lparr>loop_time = (\<lambda>(m, w). se_clock ev w),
      sleep_for = (\<lambda>d (m, w). case se_sleep ev d deadline w of (r, w1) \<Rightarrow> (r, record_retry m, w1)),
      random_draw = se_random ev\<rparr>"

definition lift_run :: "('w, 'a) coro \<Rightarrow> rat \<Rightarrow> rel_metrics \<times> 'w \<Rightarrow> 'a outcome \<times> rel_metrics \<times> 'w" where
  "lift_run f deadline mw = (case mw of (m, w) \<Rightarrow> case f deadline w of (r, w1) \<Rightarrow> (r, m, w1))"

definition guarded ::
    "'w server_env \<Rightarrow> settings \<Rightarrow> 'w tool \<Rightarrow> string \<Rightarrow> string \<Rightarrow> args \<Rightarrow> (rel_metrics \<times> 'w, args) coro" where
  "guarded ev cfg t name tenant vargs deadline mw =
     (if tm_destructive (tl_meta t) then lift_run (run_tool t name tenant vargs) deadline mw
      else case with_retry (retry_env_of ev deadline) (retry_settings cfg)
                  (lift_run (run_tool t name tenant vargs) deadline) mw of
             (Inl (Tool_Exc e), m, w) \<Rightarrow> (Inl (Tool_Exc e), record_retry_exhausted m, w)
           | (r, m, w) \<Rightarrow> (r, m, w))"

definition with_breaker ::
    "('w \<Rightarrow> rat) \<Rightarrow> (rel_metrics \<times> 'w, args) coro \<Rightarrow> (breaker \<times> rel_metrics \<times> 'w, args) coro" where
  "with_breaker clock f deadline bmw =
     (case bmw of (b, mw) \<Rightarrow>
        case breaker_call (\<lambda>(m, w). clock w) (f deadline) b mw of (r, b1, mw1) \<Rightarrow> (r, b1, mw1))"

definition is_circuit_open :: "'a outcome \<Rightarrow> bool" where
  "is_circuit_open r =
     (case r of Inl (Tool_Exc e) \<Rightarrow> is_instance e CircuitOpenError | _ \<Rightarrow> False)"

definition execute_reliably ::
    "'w server_env \<Rightarrow> settings \<Rightarrow> 'w tool \<Rightarrow> tool_call_envelope \<Rightarrow> args \<Rightarrow> 'w backend_state
       \<Rightarrow> args outcome \<times> 'w backend_state" where
  "execute_reliably ev cfg t envelope vargs st =
     (let name = tm_name (tl_meta t);
          (b, bs) = for_tool cfg name (bk_breakers st);
          m = record_call name (bk_rel st)
      in case call_with_budget (\<lambda>(b, m, w). se_clock ev w) name
                (with_breaker (se_clock ev)
                   (guarded ev cfg t (env_tool envelope) (env_tenant envelope) vargs))
                (bk_atba st) None (b, m, bk_world st) of
           (r, at1, bv1, b1, m1, w1) \<Rightarrow>
             (r, \<lparr>bk_breakers = AList.update name b1 bs, bk_atba = at1,
                  bk_rel = (if is_circuit_open r then record_short_circuit m1 else m1),
                  bk_world = w1\<rparr>))"

section \<open>The observed run\<close>

definition json_result :: "args outcome \<Rightarrow> json outcome" where
  "json_result r = (case r of Inl x \<Rightarrow> Inl x | Inr v \<Rightarrow> Inr (JObj v))"

definition compute_for ::
    "'w server_env \<Rightarrow> settings \<Rightarrow> 'w tool \<Rightarrow> tool_call_envelope \<Rightarrow> args
       \<Rightarrow> (mem_l2, 'w backend_state) cache_world \<Rightarrow> json outcome \<times> (mem_l2, 'w backend_state) cache_world" where
  "compute_for ev cfg t envelope vargs cw =
     (case execute_reliably ev cfg t envelope vargs (cw_rest cw) of
        (r, st) \<Rightarrow> (json_result r, cw\<lparr>cw_rest := st\<rparr>))"

definition backend_of :: "'w server \<Rightarrow> 'w \<Rightarrow> 'w backend_state" where
  "backend_of sv w = \<lparr>bk_breakers = sv_breakers sv, bk_atba = sv_atba sv, bk_rel = sv_rel sv, bk_world = w\<rparr>"

definition put_backend :: "'w backend_state \<Rightarrow> 'w server \<Rightarrow> 'w server" where
  "put_backend st sv =
     sv\<lparr>sv_breakers := bk_breakers st, sv_atba := bk_atba st, sv_rel := bk_rel st\<rparr>"

text \<open>The body of the \<^verbatim>\<open>try\<close>: through the cache if the tool allows it, else directly.\<close>

definition run_cached ::
    "'w server_env \<Rightarrow> 'w tool \<Rightarrow> tool_call_envelope \<Rightarrow> args \<Rightarrow> 'w server \<Rightarrow> 'w
       \<Rightarrow> json outcome \<times> 'w server \<times> 'w" where
  "run_cached ev t envelope vargs sv w =
     (let cfg = sv_settings sv; rt = se_runtime ev
      in if cache_enabled cfg \<and> cacheable t then
           (let key = cache_key rt t (env_tenant envelope) vargs;
                hits_before = cm_hits (sv_cache sv)
            in case get_or_compute in_memory_l2 rt cfg (\<lambda>st. se_clock ev (bk_world st)) (se_pause ev)
                      (compute_for ev cfg t envelope vargs) key (Some (cache_ttl_seconds t))
                      \<lparr>cw_cache = sv_cache sv, cw_rest = backend_of sv w\<rparr> of
                 (r, cw) \<Rightarrow>
                   let sv1 = put_backend (cw_rest cw) (sv\<lparr>sv_cache := cw_cache cw\<rparr>);
                       hit = (hits_before < cm_hits (cw_cache cw))
                   in (r,
                       (case r of
                          Inl x \<Rightarrow> sv1
                        | Inr v \<Rightarrow> sv1\<lparr>sv_metrics := observe_cache (tm_name (tl_meta t)) hit (sv_metrics sv1)\<rparr>),
                       bk_world (cw_rest cw)))
         else
           (case execute_reliably ev cfg t envelope vargs (backend_of sv w) of
              (r, st) \<Rightarrow> (json_result r, put_backend st sv, bk_world st)))"

definition call_status :: "'a outcome \<Rightarrow> string" where
  "call_status r = (case r of Inl (Tool_Exc e) \<Rightarrow> ''error'' | _ \<Rightarrow> ''ok'')"

definition call_error_code :: "'a outcome \<Rightarrow> string option" where
  "call_error_code r = (case r of Inl (Tool_Exc e) \<Rightarrow> Some (err_code e) | _ \<Rightarrow> None)"

text \<open>The \<^verbatim>\<open>finally\<close>: the call's metrics, the breaker's gauge, the audit record.\<close>

definition observe ::
    "'w server_env \<Rightarrow> 'w tool \<Rightarrow> tool_call_envelope \<Rightarrow> rat \<Rightarrow> 'a outcome \<Rightarrow> 'w \<Rightarrow> 'w server \<Rightarrow> 'w server" where
  "observe ev t envelope started r w sv =
     (let name = tm_name (tl_meta t);
          duration_ms = (se_clock ev w - started) * 1000;
          (b, bs) = for_tool (sv_settings sv) name (sv_breakers sv);
          m = set_circuit_state name (cb_state b)
                (observe_call name (call_status r) (duration_ms / 1000) (sv_metrics sv));
          sv1 = sv\<lparr>sv_breakers := bs, sv_metrics := m\<rparr>
      in if audit_enabled (sv_settings sv)
         then sv1\<lparr>sv_audit := audit_record (se_runtime ev)
                (make_event (se_runtime ev) (se_stamp ev w) (env_trace_id envelope) (env_tenant envelope)
                   (env_caller envelope) (env_delegator envelope) name (env_arguments envelope)
                   duration_ms (call_status r) (call_error_code r)) (sv_audit sv1)\<rparr>
         else sv1)"

definition run_observed ::
    "'w server_env \<Rightarrow> 'w tool \<Rightarrow> tool_call_envelope \<Rightarrow> args \<Rightarrow> 'w server \<Rightarrow> 'w
       \<Rightarrow> json outcome \<times> 'w server \<times> 'w" where
  "run_observed ev t envelope vargs sv w =
     (let started = se_clock ev w
      in case run_cached ev t envelope vargs sv w of
           (r, sv1, w1) \<Rightarrow> (r, observe ev t envelope started r w1 sv1, w1))"

section \<open>Dispatch\<close>

definition rate_guard ::
    "'w server_env \<Rightarrow> 'w tool \<Rightarrow> tool_call_envelope \<Rightarrow> 'w server \<Rightarrow> 'w \<Rightarrow> unit outcome \<times> 'w server" where
  "rate_guard ev t envelope sv w =
     (if rate_limit_enabled (sv_settings sv) then
        (case acquire mem_consume (sv_settings sv) (sv_buckets sv) (env_tenant envelope)
                (tm_name (tl_meta t)) 1 (se_wall ev w) of
           (Inl x, bks) \<Rightarrow>
             (Inl x,
              (let sv1 = sv\<lparr>sv_buckets := bks\<rparr> in
               case x of
                 Tool_Exc e \<Rightarrow>
                   if is_instance e RateLimitError
                   then sv1\<lparr>sv_metrics := observe_rate_limited (tm_name (tl_meta t)) (sv_metrics sv1)\<rparr>
                   else sv1
               | _ \<Rightarrow> sv1))
         | (Inr u, bks) \<Rightarrow> (Inr (), sv\<lparr>sv_buckets := bks\<rparr>))
      else (Inr (), sv))"

definition approval_request_of :: "'w tool \<Rightarrow> tool_call_envelope \<Rightarrow> approval_request" where
  "approval_request_of t envelope =
     \<lparr>ar_tenant = env_tenant envelope, ar_caller = env_caller envelope,
      ar_delegator = env_delegator envelope, ar_tool = tm_name (tl_meta t),
      ar_arguments = env_arguments envelope\<rparr>"

definition approval_guard ::
    "'w server_env \<Rightarrow> 'w tool \<Rightarrow> tool_call_envelope \<Rightarrow> 'w server \<Rightarrow> 'w \<Rightarrow> unit outcome \<times> 'w server" where
  "approval_guard ev t envelope sv w =
     (if tm_destructive (tl_meta t) \<and> destructive_tool_requires_approval (sv_settings sv) then
        (case enforce (se_runtime ev) (se_clock ev w) (se_stamp ev w) (approval_request_of t envelope)
                (sv_approvals sv) of
           (r, st) \<Rightarrow> (r, sv\<lparr>sv_approvals := st\<rparr>))
      else (Inr (), sv))"

definition dispatch ::
    "'w server_env \<Rightarrow> request_context \<Rightarrow> tool_call_envelope \<Rightarrow> 'w server \<Rightarrow> 'w
       \<Rightarrow> json outcome \<times> 'w server \<times> 'w" where
  "dispatch ev ctx envelope sv w =
     (case get_tool (sv_registry sv) (env_tool envelope) of
        Inl x \<Rightarrow> (Inl x, sv, w)
      | Inr t \<Rightarrow>
     (case validate (se_runtime ev) t (env_arguments envelope) of
        Inl x \<Rightarrow> (Inl x, sv, w)
      | Inr vargs \<Rightarrow>
     (case scope_guard ctx (tm_scopes_required (tl_meta t)) of
        Inl x \<Rightarrow> (Inl x, sv, w)
      | Inr _ \<Rightarrow>
     (case policy_check (sv_policy sv) (env_caller envelope) (env_tenant envelope)
             (policy_action t) (policy_resource t vargs) (policy_context_of vargs) of
        Inl x \<Rightarrow> (Inl x, sv, w)
      | Inr _ \<Rightarrow>
     (case http_guard (se_bracket_ok ev) (sv_allowlist sv) (env_tenant envelope) vargs of
        Inl x \<Rightarrow> (Inl x, sv, w)
      | Inr _ \<Rightarrow>
     (case rate_guard ev t envelope sv w of
        (Inl x, sv1) \<Rightarrow> (Inl x, sv1, w)
      | (Inr _, sv1) \<Rightarrow>
     (case approval_guard ev t envelope sv1 w of
        (Inl x, sv2) \<Rightarrow> (Inl x, sv2, w)
      | (Inr _, sv2) \<Rightarrow> run_observed ev t envelope vargs sv2 w)))))))"

section \<open>The protocol handlers\<close>

datatype handler_result = Structured json | Tool_Result call_tool_result

text \<open>\<^verbatim>\<open>except Exception\<close> does not catch a cancellation.\<close>

definition call_tool ::
    "'w server_env \<Rightarrow> context_var \<Rightarrow> string \<Rightarrow> args \<Rightarrow> 'w server \<Rightarrow> 'w
       \<Rightarrow> handler_result outcome \<times> 'w server \<times> 'w" where
  "call_tool ev cv name arguments sv w =
     (let ctx = current_context cv;
          envelope = build_envelope ctx name arguments
      in case dispatch ev ctx envelope sv w of
           (Inr v, sv1, w1) \<Rightarrow> (Inr (Structured v), sv1, w1)
         | (Inl Cancelled, sv1, w1) \<Rightarrow> (Inl Cancelled, sv1, w1)
         | (Inl x, sv1, w1) \<Rightarrow> (Inr (Tool_Result (as_call_tool_result x (Some name))), sv1, w1))"

definition list_tools :: "context_var \<Rightarrow> 'w server \<Rightarrow> mcp_tool_spec list" where
  "list_tools cv sv =
     (let ctx = current_context cv
      in list_visible (sv_registry sv) (rc_tenant ctx) (rc_scopes ctx))"

end
