(* ===== verification/Cache_Correct.thy ===== *)
theory Cache_Correct
  imports Cache Json_Roundtrip
begin

text \<open>
  The two-tier cache against its specification, a map from each key to its last write. The
  locale \<open>l2_tier\<close> is the contract of the second tier; under it every history of reads, writes
  and invalidations of the manager refines that map. The contract is discharged for the
  in-memory tier.
\<close>

section \<open>The LRU tier\<close>

abbreviation l1_map :: "l1_cache \<Rightarrow> string \<Rightarrow> (json \<times> rat) option" where
  "l1_map c \<equiv> map_of (l1_store c)"

definition l1_wf :: "l1_cache \<Rightarrow> bool" where
  "l1_wf c \<longleftrightarrow> 0 \<le> l1_max_items c \<and> wf_odict (l1_store c) \<and> int (length (l1_store c)) \<le> l1_max_items c"

lemma l1_wf_new: "0 \<le> m \<Longrightarrow> l1_wf (new_l1 m)"
  by (simp add: l1_wf_def new_l1_def)

lemma evict_drop: "0 \<le> m \<Longrightarrow> evict m d = (Inr (), drop (length d - nat m) d)"
proof (induction d)
  case Nil
  then show ?case by simp
next
  case (Cons e d)
  show ?case
  proof (cases "m < int (length (e # d))")
    case True
    then have "length (e # d) - nat m = Suc (length d - nat m)" by simp
    with True Cons show ?thesis by simp
  next
    case False
    then have "length (e # d) - nat m = 0" by simp
    with False show ?thesis by (simp del: length_Cons)
  qed
qed

lemma delete_update_same: "AList.delete k (AList.update k v d) = AList.delete k d"
  by (induction d) (auto simp: AList.delete_eq)

lemma move_update: "move_to_end k (AList.update k v d) = AList.delete k d @ [(k, v)]"
  by (simp add: move_to_end_def delete_update_same)

lemma wf_delete_snoc: "wf_odict d \<Longrightarrow> wf_odict (AList.delete k d @ [(k, v)])"
  by (metis move_update wf_odict_move_to_end wf_odict_update)

lemma map_of_delete_snoc: "map_of (AList.delete k d @ [(k, v)]) = (map_of d)(k \<mapsto> v)"
  by (metis move_update map_of_move_to_end map_of_update)

lemma map_of_drop_le: "wf_odict d \<Longrightarrow> map_of (drop n d) \<subseteq>\<^sub>m map_of d"
proof (unfold map_le_def, rule ballI)
  fix a
  assume "wf_odict d" and "a \<in> dom (map_of (drop n d))"
  then show "map_of (drop n d) a = map_of d a"
    using map_of_drop_SomeD [of d n a] by (auto simp del: map_of_eq_None_iff)
qed

text \<open>A write puts its entry last and keeps the most recently used of the others.\<close>

lemma l1_set_store:
  assumes "0 \<le> l1_max_items c"
  shows "l1_set now k v ttl c =
    (Inr (), c\<lparr>l1_store := (let st = AList.delete k (l1_store c) @ [(k, v, now + of_int ttl)]
                in drop (length st - nat (l1_max_items c)) st)\<rparr>)"
  using assms by (simp add: l1_set_def move_update evict_drop Let_def)

lemma l1_set_cases:
  assumes "l1_wf c"
  obtains st where "wf_odict st" "map_of st = (l1_map c)(k \<mapsto> (v, now + of_int ttl))"
    "l1_set now k v ttl c = (Inr (), c\<lparr>l1_store := drop (length st - nat (l1_max_items c)) st\<rparr>)"
proof -
  define st where "st = AList.delete k (l1_store c) @ [(k, v, now + of_int ttl)]"
  have "wf_odict st" using assms unfolding st_def by (simp only: l1_wf_def wf_delete_snoc)
  moreover have "map_of st = (l1_map c)(k \<mapsto> (v, now + of_int ttl))"
    unfolding st_def by (rule map_of_delete_snoc)
  moreover have "l1_set now k v ttl c =
      (Inr (), c\<lparr>l1_store := drop (length st - nat (l1_max_items c)) st\<rparr>)"
    using assms by (simp only: l1_wf_def l1_set_store st_def Let_def)
  ultimately show thesis by (rule that)
qed

lemma l1_set_ok: "l1_wf c \<Longrightarrow> fst (l1_set now k v ttl c) = Inr ()"
  by (rule l1_set_cases [of c k v now ttl]) simp_all

lemma l1_set_wf: "l1_wf c \<Longrightarrow> l1_wf (snd (l1_set now k v ttl c))"
proof -
  assume wf: "l1_wf c"
  then obtain st where st: "wf_odict st" "snd (l1_set now k v ttl c) =
      c\<lparr>l1_store := drop (length st - nat (l1_max_items c)) st\<rparr>"
    by (rule l1_set_cases [of c k v now ttl]) simp
  have "length (drop (length st - nat (l1_max_items c)) st) \<le> nat (l1_max_items c)" by simp
  then have "int (length (drop (length st - nat (l1_max_items c)) st)) \<le> l1_max_items c"
    using wf unfolding l1_wf_def by linarith
  with wf st show ?thesis by (simp add: l1_wf_def del: length_drop)
qed

lemma l1_set_map:
  assumes "l1_wf c"
  shows "l1_map (snd (l1_set now k v ttl c)) \<subseteq>\<^sub>m (l1_map c)(k \<mapsto> (v, now + of_int ttl))"
  using assms
proof (rule l1_set_cases [of c k v now ttl])
  fix st
  assume "wf_odict st" "map_of st = (l1_map c)(k \<mapsto> (v, now + of_int ttl))"
    "l1_set now k v ttl c = (Inr (), c\<lparr>l1_store := drop (length st - nat (l1_max_items c)) st\<rparr>)"
  then show ?thesis using map_of_drop_le [of st] by simp
qed

lemma l1_set_mapD:
  assumes "l1_wf c" and "l1_map (snd (l1_set now k v ttl c)) k' = Some p"
  shows "k' = k \<and> p = (v, now + of_int ttl) \<or> k' \<noteq> k \<and> l1_map c k' = Some p"
proof -
  have "((l1_map c)(k \<mapsto> (v, now + of_int ttl))) k' = Some p"
    using l1_set_map [OF assms(1), of now k v ttl] assms(2) by (metis domI map_le_def)
  then show ?thesis by (auto split: if_splits)
qed

lemma l1_set_max [simp]: "l1_max_items (snd (l1_set now k v ttl c)) = l1_max_items c"
  by (simp add: l1_set_def Let_def case_prod_beta)

lemma l1_get_result:
  "fst (l1_get now k c) = (case unexpired now (l1_map c k) of None \<Rightarrow> None | Some v \<Rightarrow> not_none v)"
  by (auto simp: l1_get_def split: option.split)

lemma l1_get_map:
  "l1_map (snd (l1_get now k c)) =
     (if unexpired now (l1_map c k) = None then (l1_map c)(k := None) else l1_map c)"
  by (auto simp: l1_get_def fun_eq_iff split: option.split)

lemma length_delete_le': "length (AList.delete k d) \<le> length d"
  by (simp add: length_delete_le)

lemma l1_get_wf: "l1_wf c \<Longrightarrow> l1_wf (snd (l1_get now k c))"
  using length_delete_le' [of k "l1_store c"]
  by (auto simp: l1_wf_def l1_get_def split: option.split)

lemma l1_delete_wf: "l1_wf c \<Longrightarrow> l1_wf (l1_delete k c)"
  using length_delete_le' [of k "l1_store c"] by (auto simp: l1_wf_def l1_delete_def)

lemma drop_prefix_map:
  "map_of (snd (drop_prefix p d)) k = (if startswith k p then None else map_of d k)"
  using map_of_filter_key [of "\<lambda>k. \<not> startswith k p" d k] by (simp add: drop_prefix_def)

lemma l1_delete_prefix_wf: "l1_wf c \<Longrightarrow> l1_wf (snd (l1_delete_prefix p c))"
proof -
  have "length (snd (drop_prefix p (l1_store c))) \<le> length (l1_store c)"
    by (simp add: drop_prefix_def)
  then show "l1_wf c \<Longrightarrow> ?thesis"
    by (simp add: l1_wf_def l1_delete_prefix_def case_prod_beta) (simp add: drop_prefix_def)
qed

lemma l1_delete_map: "l1_map (l1_delete k c) = (l1_map c)(k := None)"
  by (simp add: l1_delete_def)

lemma l1_delete_prefix_map:
  "l1_map (snd (l1_delete_prefix p c)) k = (if startswith k p then None else l1_map c k)"
  by (simp add: l1_delete_prefix_def drop_prefix_map case_prod_beta)

section \<open>The contract of the second tier\<close>

locale l2_tier = ttl_store "l2_get ops" "l2_set ops" lookup
  for ops :: "'b l2_backend" and lookup :: "'b \<Rightarrow> string \<Rightarrow> (string \<times> rat) option" +
  assumes delete_state: "lookup (l2_delete ops k b) = (lookup b)(k := None)"
    and prefix_state: "lookup (snd (l2_delete_prefix ops p b)) k =
      (if startswith k p then None else lookup b k)"
    and lock_state: "lookup (snd (l2_acquire_lock ops now k ms b)) = lookup b"
    and unlock_state: "lookup (l2_release_lock ops k b) = lookup b"
begin

lemma get_text: "fst (l2_get ops now k b) = Some raw \<longleftrightarrow> (\<exists>e. lookup b k = Some (raw, e) \<and> now \<le> e)"
  by (auto simp: get_result unexpired_Some)

end

lemma mem_l2_store_simps [simp]:
  "m2_store (mem_l2_set now k v ttl b) = ttl_dict_set now k v ttl (m2_store b)"
  "m2_store (snd (mem_l2_get now k b)) = snd (ttl_dict_get now k (m2_store b))"
  "fst (mem_l2_get now k b) = fst (ttl_dict_get now k (m2_store b))"
  "m2_store (snd (mem_l2_acquire_lock now k ms b)) = m2_store b"
  "m2_store (mem_l2_release_lock k b) = m2_store b"
  "m2_store (mem_l2_delete k b) = AList.delete k (m2_store b)"
  by (simp_all add: mem_l2_set_def mem_l2_get_def mem_l2_acquire_lock_def mem_l2_release_lock_def
      mem_l2_delete_def case_prod_beta)

interpretation mem: l2_tier in_memory_l2 "\<lambda>b. map_of (m2_store b)"
proof (unfold_locales)
  fix now k b
  show "fst (l2_get in_memory_l2 now k b) = unexpired now (map_of (m2_store b) k)"
    by (simp add: ttl_dict.get_result)
  show "map_of (m2_store (snd (l2_get in_memory_l2 now k b))) =
      (if unexpired now (map_of (m2_store b) k) = None then (map_of (m2_store b))(k := None)
       else map_of (m2_store b))"
    by (simp add: ttl_dict.get_state)
next
  fix now k v ttl b
  show "map_of (m2_store (l2_set in_memory_l2 now k v ttl b)) =
      (map_of (m2_store b))(k \<mapsto> (v, now + of_int ttl))"
    by (simp add: ttl_dict.put_state)
next
  fix k b
  show "map_of (m2_store (l2_delete in_memory_l2 k b)) = (map_of (m2_store b))(k := None)"
    by simp
next
  fix p b k
  show "map_of (m2_store (snd (l2_delete_prefix in_memory_l2 p b))) k =
      (if startswith k p then None else map_of (m2_store b) k)"
    by (simp add: mem_l2_delete_prefix_def drop_prefix_map case_prod_beta)
next
  fix now k ms b
  show "map_of (m2_store (snd (l2_acquire_lock in_memory_l2 now k ms b))) = map_of (m2_store b)"
    by simp
next
  fix k b
  show "map_of (m2_store (l2_release_lock in_memory_l2 k b)) = map_of (m2_store b)"
    by simp
qed

section \<open>Histories of the manager\<close>

datatype cache_op =
    Read_Key string
  | Write_Key string json "int option"
  | Delete_Key string
  | Drop_Prefix string

definition apply_op ::
    "'b l2_backend \<Rightarrow> runtime \<Rightarrow> settings \<Rightarrow> rat \<times> cache_op \<Rightarrow> 'b cache_manager \<Rightarrow> 'b cache_manager" where
  "apply_op ops rt cfg tm_op cm =
     (case tm_op of (now, op) \<Rightarrow> case op of
        Read_Key k \<Rightarrow> snd (cache_get ops rt cfg now k cm)
      | Write_Key k v ttl \<Rightarrow> snd (cache_set ops rt cfg now k v ttl cm)
      | Delete_Key k \<Rightarrow> cache_delete ops k cm
      | Drop_Prefix p \<Rightarrow> snd (invalidate_prefix ops p cm))"

text \<open>The specification: what was last written to each key, when, and for how long.\<close>

type_synonym writes = "string \<Rightarrow> (json \<times> rat \<times> int) option"

fun track :: "settings \<Rightarrow> rat \<times> cache_op \<Rightarrow> writes \<Rightarrow> writes" where
  "track cfg (now, Read_Key k) w = w"
| "track cfg (now, Write_Key k v ttl) w = w(k \<mapsto> (v, now, effective_ttl cfg ttl))"
| "track cfg (now, Delete_Key k) w = w(k := None)"
| "track cfg (now, Drop_Prefix p) w = (\<lambda>k. if startswith k p then None else w k)"

fun op_value_ok :: "runtime \<Rightarrow> rat \<times> cache_op \<Rightarrow> bool" where
  "op_value_ok rt (now, Write_Key k v ttl) = wf_json rt v"
| "op_value_ok rt _ = True"

context l2_tier
begin

definition cache_inv :: "runtime \<Rightarrow> settings \<Rightarrow> rat \<Rightarrow> writes \<Rightarrow> 'b cache_manager \<Rightarrow> bool" where
  "cache_inv rt cfg now w cm \<longleftrightarrow>
     l1_wf (cm_l1 cm) \<and>
     (\<forall>k v e. l1_map (cm_l1 cm) k = Some (v, e) \<longrightarrow>
        (\<exists>t ttl. w k = Some (v, t, ttl) \<and> e \<le> t + of_int ttl + of_int (cache_l1_ttl_seconds cfg))) \<and>
     (\<forall>k raw e. lookup (cm_l2 cm) k = Some (raw, e) \<longrightarrow>
        (\<exists>v t ttl. w k = Some (v, t, ttl) \<and> raw = dumps rt v \<and> e = t + of_int ttl)) \<and>
     (\<forall>k v t ttl. w k = Some (v, t, ttl) \<longrightarrow> now \<le> t + of_int ttl \<longrightarrow>
        lookup (cm_l2 cm) k = Some (dumps rt v, t + of_int ttl)) \<and>
     (\<forall>k v t ttl. w k = Some (v, t, ttl) \<longrightarrow> wf_json rt v)"

lemma cache_inv_later: "cache_inv rt cfg now w cm \<Longrightarrow> now \<le> now' \<Longrightarrow> cache_inv rt cfg now' w cm"
  unfolding cache_inv_def by (meson order_trans)

text \<open>The invariant talks about the two tiers only.\<close>

lemma cache_invI:
  assumes "cache_inv rt cfg now w cm" and "l1_wf l1"
    and "\<And>k v e. l1_map l1 k = Some (v, e) \<Longrightarrow>
      l1_map (cm_l1 cm) k = Some (v, e) \<or>
      (\<exists>t ttl. w k = Some (v, t, ttl) \<and> e \<le> t + of_int ttl + of_int (cache_l1_ttl_seconds cfg))"
    and "\<And>k. lookup l2 k = lookup (cm_l2 cm) k \<or> lookup l2 k = None \<and>
      unexpired now (lookup (cm_l2 cm) k) = None"
    and "cm_l1 cm' = l1" and "cm_l2 cm' = l2"
  shows "cache_inv rt cfg now w cm'"
proof -
  have "lookup l2 k = Some (raw, e) \<Longrightarrow> lookup (cm_l2 cm) k = Some (raw, e)" for k raw e
    using assms(4) [of k] by auto
  moreover have "w k = Some (v, t, ttl) \<Longrightarrow> now \<le> t + of_int ttl \<Longrightarrow>
      lookup l2 k = Some (dumps rt v, t + of_int ttl)" for k v t ttl
    using assms(1) assms(4) [of k] by (force simp: cache_inv_def)
  moreover have "l1_map l1 k = Some (v, e) \<Longrightarrow>
      \<exists>t ttl. w k = Some (v, t, ttl) \<and> e \<le> t + of_int ttl + of_int (cache_l1_ttl_seconds cfg)" for k v e
    using assms(1) assms(3) [of k v e] unfolding cache_inv_def by blast
  ultimately show ?thesis
    using assms(1,2) unfolding cache_inv_def assms(5,6) by blast
qed

text \<open>What a read does.\<close>

lemma cache_get_cases:
  assumes "cache_inv rt cfg now w cm"
  obtains (l1_hit) v where "unexpired now (l1_map (cm_l1 cm) k) = Some v" "v \<noteq> JNull"
      "cache_get ops rt cfg now k cm =
         (Inr (Some v), cm\<lparr>cm_l1 := snd (l1_get now k (cm_l1 cm)), cm_hits := cm_hits cm + 1\<rparr>)"
  | (miss) "unexpired now (lookup (cm_l2 cm) k) = None"
      "cache_get ops rt cfg now k cm =
         (Inr None, cm\<lparr>cm_l1 := snd (l1_get now k (cm_l1 cm)),
            cm_l2 := snd (l2_get ops now k (cm_l2 cm)), cm_misses := cm_misses cm + 1\<rparr>)"
  | (l2_hit) v t ttl where "w k = Some (v, t, ttl)" "now \<le> t + of_int ttl"
      "cache_get ops rt cfg now k cm =
         (Inr (not_none v),
          cm\<lparr>cm_l1 := snd (l1_set now k v (cache_l1_ttl_seconds cfg) (snd (l1_get now k (cm_l1 cm)))),
             cm_l2 := snd (l2_get ops now k (cm_l2 cm)), cm_hits := cm_hits cm + 1\<rparr>)"
proof -
  obtain r1 l1 where g1: "l1_get now k (cm_l1 cm) = (r1, l1)" by (cases "l1_get now k (cm_l1 cm)")
  obtain r2 l2 where g2: "l2_get ops now k (cm_l2 cm) = (r2, l2)"
    by (cases "l2_get ops now k (cm_l2 cm)")
  have wf1: "l1_wf l1" using l1_get_wf [of "cm_l1 cm" now k] assms g1 by (simp add: cache_inv_def)
  show thesis
  proof (cases r1)
    case (Some v)
    with g1 l1_get_result [of now k "cm_l1 cm"]
    have "unexpired now (l1_map (cm_l1 cm) k) = Some v" "v \<noteq> JNull"
      by (auto simp: not_none_def split: option.splits if_splits)
    moreover have "cache_get ops rt cfg now k cm =
        (Inr (Some v), cm\<lparr>cm_l1 := snd (l1_get now k (cm_l1 cm)), cm_hits := cm_hits cm + 1\<rparr>)"
      using Some g1 by (simp add: cache_get_def)
    ultimately show thesis by (rule l1_hit)
  next
    case None
    show thesis
    proof (cases r2)
      case none2: None
      with get_result [of now k "cm_l2 cm"] g2
      have "unexpired now (lookup (cm_l2 cm) k) = None" by simp
      moreover have "cache_get ops rt cfg now k cm =
         (Inr None, cm\<lparr>cm_l1 := snd (l1_get now k (cm_l1 cm)),
            cm_l2 := snd (l2_get ops now k (cm_l2 cm)), cm_misses := cm_misses cm + 1\<rparr>)"
        using None none2 g1 g2 by (simp add: cache_get_def)
      ultimately show thesis by (rule miss)
    next
      case (Some raw)
      then obtain e where e: "lookup (cm_l2 cm) k = Some (raw, e)" "now \<le> e"
        using get_text [of now k "cm_l2 cm" raw] g2 by auto
      with assms obtain v t ttl where
        v: "w k = Some (v, t, ttl)" "raw = dumps rt v" "e = t + of_int ttl" "wf_json rt v"
        unfolding cache_inv_def by metis
      have "cache_get ops rt cfg now k cm =
         (Inr (not_none v),
          cm\<lparr>cm_l1 := snd (l1_set now k v (cache_l1_ttl_seconds cfg) (snd (l1_get now k (cm_l1 cm)))),
             cm_l2 := snd (l2_get ops now k (cm_l2 cm)), cm_hits := cm_hits cm + 1\<rparr>)"
        using None Some g1 g2 v(2) loads_dumps [OF v(4)]
          l1_set_ok [OF wf1, of now k v "cache_l1_ttl_seconds cfg"]
        by (cases "l1_set now k v (cache_l1_ttl_seconds cfg) l1") (simp add: cache_get_def)
      with v e show thesis by (auto intro: l2_hit)
    qed
  qed
qed

lemma l2_get_drops:
  "lookup (snd (l2_get ops now k b)) k' = lookup b k' \<or>
     lookup (snd (l2_get ops now k b)) k' = None \<and> unexpired now (lookup b k') = None"
  by (simp add: get_state)

lemma l1_get_mapD: "l1_map (snd (l1_get now k c)) k' = Some p \<Longrightarrow> l1_map c k' = Some p"
  by (auto simp: l1_get_map split: if_splits)

lemma cache_get_inv:
  assumes "cache_inv rt cfg now w cm"
  shows "cache_inv rt cfg now w (snd (cache_get ops rt cfg now k cm))"
proof -
  have wf: "l1_wf (snd (l1_get now k (cm_l1 cm)))"
    using assms by (simp add: cache_inv_def l1_get_wf)
  show ?thesis
  proof (rule cache_get_cases [OF assms, of k])
    fix v assume "cache_get ops rt cfg now k cm =
         (Inr (Some v), cm\<lparr>cm_l1 := snd (l1_get now k (cm_l1 cm)), cm_hits := cm_hits cm + 1\<rparr>)"
    then show ?thesis
      by (intro cache_invI [OF assms wf]) (auto dest: l1_get_mapD)
  next
    assume "cache_get ops rt cfg now k cm =
         (Inr None, cm\<lparr>cm_l1 := snd (l1_get now k (cm_l1 cm)),
            cm_l2 := snd (l2_get ops now k (cm_l2 cm)), cm_misses := cm_misses cm + 1\<rparr>)"
    then show ?thesis
      by (intro cache_invI [OF assms wf _ l2_get_drops]) (auto dest: l1_get_mapD)
  next
    fix v t ttl
    assume v: "w k = Some (v, t, ttl)" "now \<le> t + of_int ttl"
      and eq: "cache_get ops rt cfg now k cm =
         (Inr (not_none v),
          cm\<lparr>cm_l1 := snd (l1_set now k v (cache_l1_ttl_seconds cfg) (snd (l1_get now k (cm_l1 cm)))),
             cm_l2 := snd (l2_get ops now k (cm_l2 cm)), cm_hits := cm_hits cm + 1\<rparr>)"
    show ?thesis
    proof (rule cache_invI [OF assms l1_set_wf [OF wf] _ l2_get_drops])
      fix k' v' e
      assume "l1_map (snd (l1_set now k v (cache_l1_ttl_seconds cfg)
          (snd (l1_get now k (cm_l1 cm))))) k' = Some (v', e)"
      from l1_set_mapD [OF wf this]
      show "l1_map (cm_l1 cm) k' = Some (v', e) \<or> (\<exists>t ttl. w k' = Some (v', t, ttl) \<and>
          e \<le> t + of_int ttl + of_int (cache_l1_ttl_seconds cfg))"
        using v l1_get_mapD [of now k "cm_l1 cm"] by auto
    qed (simp_all add: eq)
  qed
qed

lemma cache_set_eq:
  assumes "l1_wf (cm_l1 cm)"
  shows "cache_set ops rt cfg now k v ttl cm =
    (Inr (), cm\<lparr>cm_l1 := snd (l1_set now k v (min (effective_ttl cfg ttl) (cache_l1_ttl_seconds cfg)) (cm_l1 cm)),
       cm_l2 := l2_set ops now k (dumps rt v) (effective_ttl cfg ttl) (cm_l2 cm)\<rparr>)"
  using l1_set_ok [OF assms, of now k v "min (effective_ttl cfg ttl) (cache_l1_ttl_seconds cfg)"]
  by (cases "l1_set now k v (min (effective_ttl cfg ttl) (cache_l1_ttl_seconds cfg)) (cm_l1 cm)")
     (simp add: cache_set_def Let_def)

lemma cache_set_inv:
  assumes inv: "cache_inv rt cfg now w cm" and "wf_json rt v" and "0 \<le> cache_l1_ttl_seconds cfg"
  shows "cache_inv rt cfg now (w(k \<mapsto> (v, now, effective_ttl cfg ttl))) (snd (cache_set ops rt cfg now k v ttl cm))"
proof -
  let ?n = "min (effective_ttl cfg ttl) (cache_l1_ttl_seconds cfg)"
  have wf: "l1_wf (cm_l1 cm)" using inv by (simp add: cache_inv_def)
  have "?n \<le> effective_ttl cfg ttl + cache_l1_ttl_seconds cfg" using assms(3) by simp
  then have n: "now + of_int ?n \<le> now + of_int (effective_ttl cfg ttl) + of_int (cache_l1_ttl_seconds cfg)"
    by (metis add.assoc add_left_mono of_int_add of_int_le_iff)
  have "\<exists>t ttl'. (w(k \<mapsto> (v, now, effective_ttl cfg ttl))) k' = Some (v', t, ttl') \<and>
      e \<le> t + of_int ttl' + of_int (cache_l1_ttl_seconds cfg)"
    if "l1_map (snd (l1_set now k v ?n (cm_l1 cm))) k' = Some (v', e)" for k' v' e
    using l1_set_mapD [OF wf that] inv n unfolding cache_inv_def by auto
  then show ?thesis
    using inv assms(2) l1_set_wf [OF wf]
    unfolding cache_inv_def cache_set_eq [OF wf] by (auto simp: put_state)
qed

lemma cache_delete_inv:
  "cache_inv rt cfg now w cm \<Longrightarrow> cache_inv rt cfg now (w(k := None)) (cache_delete ops k cm)"
  unfolding cache_inv_def cache_delete_def by (auto simp: delete_state l1_delete_map l1_delete_wf)

lemma invalidate_prefix_eq:
  "snd (invalidate_prefix ops p cm) =
     cm\<lparr>cm_l1 := snd (l1_delete_prefix p (cm_l1 cm)), cm_l2 := snd (l2_delete_prefix ops p (cm_l2 cm))\<rparr>"
  by (simp add: invalidate_prefix_def case_prod_beta)

lemma invalidate_prefix_inv:
  "cache_inv rt cfg now w cm \<Longrightarrow>
     cache_inv rt cfg now (\<lambda>k. if startswith k p then None else w k) (snd (invalidate_prefix ops p cm))"
  unfolding cache_inv_def invalidate_prefix_eq
  by (auto simp: prefix_state l1_delete_prefix_map l1_delete_prefix_wf split: if_splits)

lemma apply_op_inv:
  assumes "cache_inv rt cfg t w cm" and "t \<le> now" and "op_value_ok rt (now, op)"
    and "0 \<le> cache_l1_ttl_seconds cfg"
  shows "cache_inv rt cfg now (track cfg (now, op) w) (apply_op ops rt cfg (now, op) cm)"
  using cache_inv_later [OF assms(1,2)] assms(3,4)
  by (cases op) (simp_all add: apply_op_def cache_get_inv cache_set_inv cache_delete_inv
      invalidate_prefix_inv)

lemma history_inv:
  assumes "sorted (map fst h)" and "\<forall>op \<in> set h. op_value_ok rt op \<and> fst op \<le> now"
    and "0 \<le> cache_l1_ttl_seconds cfg" and "0 \<le> cache_l1_max_items cfg"
    and "lookup b0 = Map.empty"
  shows "cache_inv rt cfg now (fold (track cfg) h Map.empty)
    (fold (apply_op ops rt cfg) h (new_cache cfg b0))"
  using assms(1,2)
proof (induction h arbitrary: now rule: rev_induct)
  case Nil
  show ?case
    using assms(4,5) by (simp add: cache_inv_def new_cache_def new_l1_def l1_wf_def)
next
  case (snoc op h)
  obtain t o' where op: "op = (t, o')" by (cases op)
  have "cache_inv rt cfg t (fold (track cfg) h Map.empty)
      (fold (apply_op ops rt cfg) h (new_cache cfg b0))"
    using snoc.prems op by (intro snoc.IH) (auto simp: sorted_append)
  from apply_op_inv [OF this order_refl, of o'] snoc.prems op assms(3)
  have "cache_inv rt cfg t (fold (track cfg) (h @ [op]) Map.empty)
      (fold (apply_op ops rt cfg) (h @ [op]) (new_cache cfg b0))" by simp
  with snoc.prems op show ?case by (auto intro: cache_inv_later)
qed

text \<open>What a read returns, against the specification.\<close>

lemma cache_get_spec:
  assumes "cache_inv rt cfg now w cm"
  shows "case w k of
      None \<Rightarrow> fst (cache_get ops rt cfg now k cm) = Inr None
    | Some (v, t, ttl) \<Rightarrow>
        if now \<le> t + of_int ttl then fst (cache_get ops rt cfg now k cm) = Inr (not_none v)
        else if now \<le> t + of_int ttl + of_int (cache_l1_ttl_seconds cfg)
        then fst (cache_get ops rt cfg now k cm) \<in> {Inr None, Inr (not_none v)}
        else fst (cache_get ops rt cfg now k cm) = Inr None"
proof (rule cache_get_cases [OF assms, of k])
  fix v
  assume v: "unexpired now (l1_map (cm_l1 cm) k) = Some v" "v \<noteq> JNull"
    and eq: "cache_get ops rt cfg now k cm =
         (Inr (Some v), cm\<lparr>cm_l1 := snd (l1_get now k (cm_l1 cm)), cm_hits := cm_hits cm + 1\<rparr>)"
  from v(1) obtain e where "l1_map (cm_l1 cm) k = Some (v, e)" "now \<le> e"
    by (auto simp: unexpired_Some)
  moreover from this assms obtain t ttl where "w k = Some (v, t, ttl)"
      "e \<le> t + of_int ttl + of_int (cache_l1_ttl_seconds cfg)"
    unfolding cache_inv_def by blast
  ultimately show ?thesis using eq v(2) by (auto simp: not_none_def)
next
  assume m: "unexpired now (lookup (cm_l2 cm) k) = None"
    and eq: "cache_get ops rt cfg now k cm =
         (Inr None, cm\<lparr>cm_l1 := snd (l1_get now k (cm_l1 cm)),
            cm_l2 := snd (l2_get ops now k (cm_l2 cm)), cm_misses := cm_misses cm + 1\<rparr>)"
  have "\<not> now \<le> t + of_int ttl" if "w k = Some (v, t, ttl)" for v t ttl
  proof
    assume "now \<le> t + of_int ttl"
    with that assms have "lookup (cm_l2 cm) k = Some (dumps rt v, t + of_int ttl)"
      unfolding cache_inv_def by blast
    with m \<open>now \<le> t + of_int ttl\<close> show False by simp
  qed
  with eq show ?thesis by (auto split: option.split)
next
  fix v t ttl
  assume "w k = Some (v, t, ttl)" "now \<le> t + of_int ttl"
    and "cache_get ops rt cfg now k cm =
         (Inr (not_none v),
          cm\<lparr>cm_l1 := snd (l1_set now k v (cache_l1_ttl_seconds cfg) (snd (l1_get now k (cm_l1 cm)))),
             cm_l2 := snd (l2_get ops now k (cm_l2 cm)), cm_hits := cm_hits cm + 1\<rparr>)"
  then show ?thesis by simp
qed

lemma cache_inv_l1: "cache_inv rt cfg now w cm \<Longrightarrow> l1_wf (cm_l1 cm)"
  by (simp add: cache_inv_def)

end

section \<open>Properties\<close>

text \<open>C10: The two tiers refine a map of last writes. After any history of reads, writes, deletions
  and prefix invalidations at non-decreasing times, reading a key that was never written, or was
  deleted or invalidated since, finds nothing; reading a key within the time to live of its last
  write returns that value, whatever the LRU has evicted; after the time to live a read may
  return the stale value for at most one further L1 time to live, and finds nothing from then
  on. The L1 tier never holds more than its maximal number of items.\<close>

theorem cache_refines_last_write:
  assumes "sorted (map fst h)" and "\<forall>op \<in> set h. op_value_ok rt op \<and> fst op \<le> now"
    and "0 \<le> cache_l1_ttl_seconds cfg" and "0 \<le> cache_l1_max_items cfg"
  shows "let cm = fold (apply_op in_memory_l2 rt cfg) h (new_cache cfg new_mem_l2);
      r = fst (cache_get in_memory_l2 rt cfg now k cm)
    in int (length (l1_store (cm_l1 cm))) \<le> l1_max_items (cm_l1 cm) \<and>
       (case fold (track cfg) h Map.empty k of
          None \<Rightarrow> r = Inr None
        | Some (v, t, ttl) \<Rightarrow>
            if now \<le> t + of_int ttl then r = Inr (not_none v)
            else if now \<le> t + of_int ttl + of_int (cache_l1_ttl_seconds cfg)
            then r \<in> {Inr None, Inr (not_none v)} else r = Inr None)"
proof -
  have "map_of (m2_store new_mem_l2) = Map.empty" by (simp add: new_mem_l2_def)
  from mem.history_inv [OF assms this]
  have inv: "mem.cache_inv rt cfg now (fold (track cfg) h Map.empty)
      (fold (apply_op in_memory_l2 rt cfg) h (new_cache cfg new_mem_l2))" .
  from mem.cache_inv_l1 [OF inv] mem.cache_get_spec [OF inv, of k] show ?thesis
    unfolding Let_def l1_wf_def by blast
qed

definition demo_history :: "(rat \<times> cache_op) list" where
  "demo_history = [(0, Write_Key ''a'' (JInt 1) (Some 30)), (1, Read_Key ''b''),
     (2, Write_Key ''b'' (JInt 2) None), (3, Drop_Prefix ''b'')]"

theorem cache_refines_last_write_witness:
  "let cm = fold (apply_op in_memory_l2 plain_runtime default_settings) demo_history
       (new_cache default_settings new_mem_l2)
   in fst (cache_get in_memory_l2 plain_runtime default_settings 30 ''a'' cm) = Inr (Some (JInt 1)) \<and>
      fst (cache_get in_memory_l2 plain_runtime default_settings 30 ''b'' cm) = Inr None"
  using cache_refines_last_write [of demo_history plain_runtime 30 default_settings "''a''"]
    cache_refines_last_write [of demo_history plain_runtime 30 default_settings "''b''"]
  by (simp add: demo_history_def effective_ttl_def not_none_def Let_def startswith_def)

text \<open>C36: What a write evicts. Writing a key makes its entry the most recently used one and drops,
  of the other entries in order of their last use, exactly as many of the oldest as the bound
  requires; a read of a live key makes it the most recently used and drops nothing.\<close>

theorem l1_is_lru:
  assumes "l1_wf c"
  shows "snd (l1_set now k v ttl c) = c\<lparr>l1_store :=
      (let others = filter (\<lambda>e. fst e \<noteq> k) (l1_store c); room = nat (l1_max_items c) - 1
       in if l1_max_items c = 0 then []
          else drop (length others - room) others @ [(k, v, now + of_int ttl)])\<rparr> \<and>
    (\<forall>u e. l1_map c k = Some (u, e) \<and> now \<le> e \<longrightarrow>
       snd (l1_get now k c) = c\<lparr>l1_store := filter (\<lambda>e. fst e \<noteq> k) (l1_store c) @ [(k, u, e)]\<rparr>)"
proof -
  have max0: "0 \<le> l1_max_items c" using assms by (simp add: l1_wf_def)
  have del: "AList.delete k d = filter (\<lambda>e. fst e \<noteq> k) d" for d :: l1_store
    by (induction d) (auto simp: AList.delete_eq)
  let ?o = "filter (\<lambda>e. fst e \<noteq> k) (l1_store c)" and ?e = "(k, v, now + of_int ttl)"
  have "drop (length (?o @ [?e]) - nat (l1_max_items c)) (?o @ [?e]) =
      (if l1_max_items c = 0 then [] else drop (length ?o - (nat (l1_max_items c) - 1)) ?o @ [?e])"
  proof (cases "nat (l1_max_items c)")
    case 0
    with max0 show ?thesis by simp
  next
    case (Suc n)
    then show ?thesis by auto
  qed
  then show ?thesis
    using l1_set_store [OF max0, of now k v ttl]
    by (auto simp: Let_def del l1_get_def move_to_end_def simp del: drop_append)
qed

theorem l1_is_lru_witness:
  "l1_store (snd (l1_set 5 ''c'' (JInt 3) 60
      \<lparr>l1_max_items = 2, l1_store = [(''a'', JInt 1, 9), (''b'', JInt 2, 9)]\<rparr>)) =
   [(''b'', JInt 2, 9), (''c'', JInt 3, 65)]"
  using l1_is_lru [of "\<lparr>l1_max_items = 2, l1_store = [(''a'', JInt 1, 9), (''b'', JInt 2, 9)]\<rparr>"
      5 "''c''" "JInt 3" 60]
  by (simp add: l1_wf_def wf_odict_def)

text \<open>What a read returns depends on the key's own entries only.\<close>

context l2_tier
begin

lemma cache_get_read:
  assumes "l1_wf (cm_l1 cm)"
  shows "fst (cache_get ops rt cfg now k cm) =
    (case (case unexpired now (l1_map (cm_l1 cm) k) of None \<Rightarrow> None | Some v \<Rightarrow> not_none v) of
       Some v \<Rightarrow> Inr (Some v)
     | None \<Rightarrow>
         (case unexpired now (lookup (cm_l2 cm) k) of
            None \<Rightarrow> Inr None
          | Some raw \<Rightarrow>
              (case loads rt raw of None \<Rightarrow> Inl (Py_Exc ''JSONDecodeError'' '''') | Some v \<Rightarrow> Inr (not_none v))))"
proof -
  obtain r1 l1 where g1: "l1_get now k (cm_l1 cm) = (r1, l1)" by (cases "l1_get now k (cm_l1 cm)")
  obtain r2 l2 where g2: "l2_get ops now k (cm_l2 cm) = (r2, l2)"
    by (cases "l2_get ops now k (cm_l2 cm)")
  have wf1: "l1_wf l1" using l1_get_wf [OF assms, of now k] g1 by simp
  have r1: "r1 = (case unexpired now (l1_map (cm_l1 cm) k) of None \<Rightarrow> None | Some v \<Rightarrow> not_none v)"
    using l1_get_result [of now k "cm_l1 cm"] g1 by simp
  have r2: "r2 = unexpired now (lookup (cm_l2 cm) k)" using get_result [of now k "cm_l2 cm"] g2 by simp
  have set: "\<exists>l. l1_set now k v ttl l1 = (Inr (), l)" for v ttl
    using l1_set_ok [OF wf1, of now k v ttl] by (cases "l1_set now k v ttl l1") simp
  show ?thesis
    unfolding r1 [symmetric] r2 [symmetric]
    using set [of "the (loads rt (the r2))" "cache_l1_ttl_seconds cfg"]
    by (auto simp: cache_get_def g1 g2 split: option.split)
qed

end

lemma tenant_prefix_inj:
  assumes "CHR '':'' \<notin> set a" and "CHR '':'' \<notin> set b" and "a \<noteq> b"
  shows "\<not> startswith (tenant_prefix b @ rest) (tenant_prefix a)"
proof
  assume "startswith (tenant_prefix b @ rest) (tenant_prefix a)"
  then obtain r where "b @ CHR '':'' # rest = a @ CHR '':'' # r"
    by (auto simp: startswith_iff tenant_prefix_def)
  from append_sep_eq_left [OF this assms(2,1)] assms(3) show False by simp
qed

text \<open>C37: Invalidating a tenant drops everything cached for it and nothing of any other tenant:
  afterwards no key of the tenant is found in either tier, while reading a key of another tenant
  gives what it gave before. Tenant names hold no colon.\<close>

theorem invalidate_tenant_exact:
  assumes "CHR '':'' \<notin> set tenant" and "CHR '':'' \<notin> set other" and "other \<noteq> tenant"
    and "l1_wf (cm_l1 cm)"
  shows "let cm' = snd (invalidate_tenant in_memory_l2 tenant cm) in
    fst (cache_get in_memory_l2 rt cfg now (tenant_prefix tenant @ rest) cm') = Inr None \<and>
    fst (cache_get in_memory_l2 rt cfg now (tenant_prefix other @ rest) cm') =
      fst (cache_get in_memory_l2 rt cfg now (tenant_prefix other @ rest) cm)"
proof -
  let ?cm' = "snd (invalidate_tenant in_memory_l2 tenant cm)"
  have cm': "?cm' = cm\<lparr>cm_l1 := snd (l1_delete_prefix (tenant_prefix tenant) (cm_l1 cm)),
      cm_l2 := snd (mem_l2_delete_prefix (tenant_prefix tenant) (cm_l2 cm))\<rparr>"
    by (simp add: invalidate_tenant_def mem.invalidate_prefix_eq)
  have wf: "l1_wf (cm_l1 ?cm')" using assms(4) by (simp add: cm' l1_delete_prefix_wf)
  have own: "startswith (tenant_prefix tenant @ rest) (tenant_prefix tenant)"
    by (simp add: startswith_def)
  have other: "\<not> startswith (tenant_prefix other @ rest) (tenant_prefix tenant)"
    by (rule tenant_prefix_inj [OF assms(1,2)]) (use assms(3) in simp)
  have l2: "map_of (m2_store (cm_l2 ?cm')) k =
      (if startswith k (tenant_prefix tenant) then None else map_of (m2_store (cm_l2 cm)) k)" for k
    using mem.prefix_state [of "tenant_prefix tenant" "cm_l2 cm" k] by (simp add: cm')
  have l1: "l1_map (cm_l1 ?cm') k =
      (if startswith k (tenant_prefix tenant) then None else l1_map (cm_l1 cm) k)" for k
    by (simp add: cm' l1_delete_prefix_map)
  show ?thesis
    unfolding Let_def mem.cache_get_read [OF wf] mem.cache_get_read [OF assms(4)] l1 l2
    using own other by simp
qed

theorem invalidate_tenant_exact_witness:
  "fst (cache_get in_memory_l2 plain_runtime default_settings 1 (tenant_prefix ''acme'' @ ''x'')
     (snd (invalidate_tenant in_memory_l2 ''acme'' (new_cache default_settings new_mem_l2)))) = Inr None"
  using invalidate_tenant_exact [of "''acme''" "''globex''" "new_cache default_settings new_mem_l2"
      plain_runtime default_settings 1 "''x''"]
  by (simp add: new_cache_def l1_wf_new Let_def)

text \<open>
  A tenant name that holds a colon defeats the prefix: invalidating the tenant \<^verbatim>\<open>a\<close> also drops
  what is cached for a tenant \<^verbatim>\<open>a:b\<close>.
\<close>

lemma colon_tenant_shares_prefix: "startswith (tenant_prefix ''a:b'' @ k) (tenant_prefix ''a'')"
  by (simp add: startswith_def tenant_prefix_def)

end
