(* ===== verification/Server_Correct.thy ===== *)
theory Server_Correct
  imports Server Cache_Correct
begin

text \<open>
  What the dispatch pipeline guarantees: complete mediation, approval of destructive calls, the
  bounds on executions and on time, the audit record, the behaviour in an outage, and what the
  protocol handler lets out.
\<close>

section \<open>Guards\<close>

lemma scope_guard_ok: "scope_guard ctx rs = Inr () \<longleftrightarrow> (\<forall>s \<in> set rs. has_scope ctx s)"
  by (induction ctx rs rule: scope_guard.induct) auto

lemma validate_ok: "validate rt t a = Inr v \<longleftrightarrow> bound_argument_tree rt a = Inr a \<and> tl_schema t a = Valid v"
proof -
  have "bound_argument_tree rt a = Inr b \<Longrightarrow> b = a" for b
    by (simp add: bound_argument_tree_def Let_def split: if_splits sum.splits)
  then show ?thesis
    by (auto simp: validate_def split: sum.splits schema_result.splits exc.splits)
qed

text \<open>A call is admitted when it passes the guards that keep no state.\<close>

definition admitted ::
    "'w server_env \<Rightarrow> request_context \<Rightarrow> tool_call_envelope \<Rightarrow> 'w server \<Rightarrow> 'w tool \<Rightarrow> args \<Rightarrow> bool" where
  "admitted ev ctx envelope sv t vargs \<longleftrightarrow>
     get_tool (sv_registry sv) (env_tool envelope) = Inr t \<and>
     validate (se_runtime ev) t (env_arguments envelope) = Inr vargs \<and>
     scope_guard ctx (tm_scopes_required (tl_meta t)) = Inr () \<and>
     policy_check (sv_policy sv) (env_caller envelope) (env_tenant envelope)
       (policy_action t) (policy_resource t vargs) (policy_context_of vargs) = Inr () \<and>
     http_guard (se_bracket_ok ev) (sv_allowlist sv) (env_tenant envelope) vargs = Inr ()"

lemma dispatch_cases:
  obtains (refused) x where "dispatch ev ctx envelope sv w = (Inl x, sv, w)"
      "\<And>t vargs. \<not> admitted ev ctx envelope sv t vargs"
  | (admitted) t vargs where "admitted ev ctx envelope sv t vargs"
      "dispatch ev ctx envelope sv w =
         (case rate_guard ev t envelope sv w of
            (Inl x, sv1) \<Rightarrow> (Inl x, sv1, w)
          | (Inr _, sv1) \<Rightarrow>
              (case approval_guard ev t envelope sv1 w of
                 (Inl x, sv2) \<Rightarrow> (Inl x, sv2, w)
               | (Inr _, sv2) \<Rightarrow> run_observed ev t envelope vargs sv2 w))"
proof (cases "\<exists>t vargs. admitted ev ctx envelope sv t vargs")
  case True
  then obtain t vargs where "admitted ev ctx envelope sv t vargs" by blast
  then show thesis by (intro admitted) (auto simp: admitted_def dispatch_def)
next
  case False
  have "\<exists>x. dispatch ev ctx envelope sv w = (Inl x, sv, w)"
  proof (cases "get_tool (sv_registry sv) (env_tool envelope)")
    case (Inl x)
    then show ?thesis by (simp add: dispatch_def)
  next
    case t: (Inr t)
    show ?thesis
    proof (cases "validate (se_runtime ev) t (env_arguments envelope)")
      case (Inl x)
      with t show ?thesis by (simp add: dispatch_def)
    next
      case v: (Inr vargs)
      from False have "\<not> admitted ev ctx envelope sv t vargs" by blast
      with t v show ?thesis
        by (auto simp: dispatch_def admitted_def split: sum.split)
    qed
  qed
  with False show thesis by (auto intro: refused)
qed

text \<open>The guards that keep state change their own and, when refused, one counter.\<close>

definition same_core :: "'w server \<Rightarrow> 'w server \<Rightarrow> bool" where
  "same_core a b \<longleftrightarrow>
     sv_settings a = sv_settings b \<and> sv_registry a = sv_registry b \<and> sv_policy a = sv_policy b \<and>
     sv_allowlist a = sv_allowlist b \<and> sv_audit a = sv_audit b \<and> sv_cache a = sv_cache b \<and>
     sv_breakers a = sv_breakers b \<and> sv_atba a = sv_atba b \<and> sv_rel a = sv_rel b"

lemma same_core_refl [simp]: "same_core a a"
  by (simp add: same_core_def)

lemma same_core_trans: "same_core a b \<Longrightarrow> same_core b c \<Longrightarrow> same_core a c"
  by (simp add: same_core_def)

lemma rate_guard_core:
  "same_core (snd (rate_guard ev t envelope sv w)) sv"
  "sv_approvals (snd (rate_guard ev t envelope sv w)) = sv_approvals sv"
  by (simp_all add: rate_guard_def same_core_def Let_def split: prod.split sum.split exc.split)

lemma approval_guard_core: "same_core (snd (approval_guard ev t envelope sv w)) sv"
  by (simp add: approval_guard_def same_core_def split: prod.split)

section \<open>The run behind the cache\<close>

text \<open>
  What one execution for a tenant may add to a measure of the world, when no sleep changes it.
\<close>

definition runs_add_one :: "('w \<Rightarrow> nat) \<Rightarrow> string \<Rightarrow> 'w tool \<Rightarrow> bool" where
  "runs_add_one cnt tenant t \<longleftrightarrow> (\<forall>a d w. cnt (snd (tl_run t tenant a d w)) \<le> Suc (cnt w))"

definition sleeps_keep :: "('w \<Rightarrow> nat) \<Rightarrow> 'w server_env \<Rightarrow> bool" where
  "sleeps_keep cnt ev \<longleftrightarrow>
     (\<forall>d dl w. cnt (snd (se_sleep ev d dl w)) = cnt w) \<and>
     (\<forall>d cw. cnt (bk_world (cw_rest (snd (se_pause ev d cw)))) = cnt (bk_world (cw_rest cw)))"

definition attempts :: "settings \<Rightarrow> 'w tool \<Rightarrow> nat" where
  "attempts cfg t = (if tm_destructive (tl_meta t) then 1 else nat (retry_max_attempts cfg))"

lemma run_tool_world: "snd (run_tool t n tenant a d w) = snd (execute t tenant a d w)"
  by (simp add: run_tool_def split: prod.split sum.split exc.split)

lemma lift_run_world: "snd (snd (lift_run f d mw)) = snd (f d (snd mw))"
  by (simp add: lift_run_def split: prod.split)

lemma guarded_world:
  "snd (snd (guarded ev cfg t n tenant a d mw)) =
     snd (snd (if tm_destructive (tl_meta t) then lift_run (run_tool t n tenant a) d mw
               else with_retry (retry_env_of ev d) (retry_settings cfg)
                      (lift_run (run_tool t n tenant a) d) mw))"
  by (simp add: guarded_def split: prod.split sum.split exc.split)

lemma guarded_count:
  assumes "runs_add_one cnt tenant t" and "sleeps_keep cnt ev"
  shows "cnt (snd (snd (guarded ev cfg t n tenant a d mw))) \<le> cnt (snd mw) + attempts cfg t"
proof -
  have run: "cnt (snd (snd (lift_run (run_tool t n tenant a) d s))) \<le> Suc (cnt (snd s))" for s
    using assms(1) by (simp add: lift_run_world run_tool_world execute_def runs_add_one_def)
  have sleep: "cnt (snd (snd (sleep_for (retry_env_of ev d) dl s))) = cnt (snd s)" for dl s
    using assms(2) by (simp add: retry_env_of_def sleeps_keep_def case_prod_beta)
  show ?thesis
  proof (cases "tm_destructive (tl_meta t)")
    case True
    with run [of mw] show ?thesis by (simp add: guarded_world attempts_def)
  next
    case False
    have "rt_max_attempts (retry_settings cfg) = retry_max_attempts cfg"
      by (simp add: retry_settings_def)
    with retry_count [of "\<lambda>s. cnt (snd s)" "lift_run (run_tool t n tenant a) d"
        "retry_env_of ev d" "retry_settings cfg" None 1 mw, OF run sleep] False
    show ?thesis by (simp add: guarded_world attempts_def with_retry_def)
  qed
qed

lemma breaker_call_state:
  "snd (snd (breaker_call clock fn b s)) = s \<or> snd (snd (breaker_call clock fn b s)) = snd (fn s)"
  by (cases "begin_call (clock s) b") (auto simp: breaker_call_def split: admission.split prod.split)

lemma with_breaker_world:
  "snd (snd (snd (with_breaker clock f d (b, m, w)))) = w \<or>
   snd (snd (snd (with_breaker clock f d (b, m, w)))) = snd (snd (f d (m, w)))"
  using breaker_call_state [of "\<lambda>(m, w). clock w" "f d" b "(m, w)"]
  by (auto simp: with_breaker_def split: prod.split)

lemma wait_for_state: "snd (wait_for clock tmo coro s) = snd (coro (clock s + tmo) s)"
  by (simp add: wait_for_def Let_def split: prod.split sum.split exc.split)

lemma call_with_budget_state:
  "snd (snd (snd (call_with_budget clock tool coro a bv s))) =
     snd (coro (clock s + timeout_for (clock s) tool a bv) s)"
  using wait_for_state [of clock "timeout_for (clock s) tool a bv" coro s]
  by (simp add: call_with_budget_def Let_def case_prod_beta)

lemma execute_reliably_world:
  "bk_world (snd (execute_reliably ev cfg t envelope a st)) = bk_world st \<or>
   (\<exists>d m. bk_world (snd (execute_reliably ev cfg t envelope a st)) =
      snd (snd (guarded ev cfg t (env_tool envelope) (env_tenant envelope) a d (m, bk_world st))))"
proof -
  let ?n = "tm_name (tl_meta t)"
  obtain b bs where b: "for_tool cfg ?n (bk_breakers st) = (b, bs)" by force
  let ?f = "guarded ev cfg t (env_tool envelope) (env_tenant envelope) a"
  let ?s = "(b, record_call ?n (bk_rel st), bk_world st)"
  let ?d = "se_clock ev (bk_world st) + timeout_for (se_clock ev (bk_world st)) ?n (bk_atba st) None"
  have "bk_world (snd (execute_reliably ev cfg t envelope a st)) =
      snd (snd (snd (with_breaker (se_clock ev) ?f ?d ?s)))"
    using call_with_budget_state [of "\<lambda>(b, m, w). se_clock ev w" ?n "with_breaker (se_clock ev) ?f"
        "bk_atba st" None ?s]
    by (simp add: execute_reliably_def b Let_def case_prod_beta)
  then show ?thesis
    using with_breaker_world [of "se_clock ev" ?f ?d b "record_call ?n (bk_rel st)" "bk_world st"] by auto
qed

lemma execute_reliably_count:
  assumes "runs_add_one cnt (env_tenant envelope) t" and "sleeps_keep cnt ev"
  shows "cnt (bk_world (snd (execute_reliably ev cfg t envelope a st))) \<le> cnt (bk_world st) + attempts cfg t"
  using execute_reliably_world [of ev cfg t envelope a st] guarded_count [OF assms] by fastforce

text \<open>A caller of the cache computes at most once.\<close>

lemma on_cache_rest [simp]: "cw_rest (snd (on_cache clock f w)) = cw_rest w"
  by (simp add: on_cache_def split: prod.split)

lemma compute_and_store_rest:
  "cw_rest (snd (compute_and_store ops rt cfg clock key ttl compute w)) = cw_rest (snd (compute w))"
  by (cases "compute w") (simp add: compute_and_store_def)

lemma await_other_count:
  assumes "\<And>w. c (cw_rest (snd (compute w))) \<le> c (cw_rest w) + (k :: nat)"
    and "\<And>d w. c (cw_rest (snd (pause d w))) = c (cw_rest w)"
  shows "c (cw_rest (snd (await_other ops rt cfg clock key ttl pause compute n w))) \<le> c (cw_rest w) + k"
proof (induction n arbitrary: w)
  case 0
  then show ?case using assms(1) by (simp add: compute_and_store_rest)
next
  case (Suc n)
  obtain r1 w1 where p: "pause (of_int stampede_wait_ms / 1000) w = (r1, w1)" by force
  obtain r2 w2 where g: "on_cache clock (\<lambda>now. cache_get ops rt cfg now key) w1 = (r2, w2)" by force
  have w1: "c (cw_rest w1) = c (cw_rest w)" using assms(2) [of "of_int stampede_wait_ms / 1000" w] p by simp
  have w2: "cw_rest w2 = cw_rest w1"
    using on_cache_rest [of clock "\<lambda>now. cache_get ops rt cfg now key" w1] g by simp
  from Suc [of w2] w1 w2 show ?case by (simp add: p g split: sum.split option.split)
qed

lemma get_or_compute_count:
  assumes "\<And>w. c (cw_rest (snd (compute w))) \<le> c (cw_rest w) + (k :: nat)"
    and "\<And>d w. c (cw_rest (snd (pause d w))) = c (cw_rest w)"
  shows "c (cw_rest (snd (get_or_compute ops rt cfg clock pause compute key ttl w))) \<le> c (cw_rest w) + k"
proof -
  obtain r w1 where e: "on_cache clock (\<lambda>now. enter_flight ops rt cfg now key) w = (r, w1)" by force
  have w1: "cw_rest w1 = cw_rest w"
    using on_cache_rest [of clock "\<lambda>now. enter_flight ops rt cfg now key" w] e by simp
  show ?thesis
  proof (cases r)
    case Lead
    have "cw_rest (snd (compute_and_store ops rt cfg clock key ttl compute w1)) = cw_rest (snd (compute w1))"
      by (rule compute_and_store_rest)
    with Lead assms(1) [of w1] w1 show ?thesis
      by (simp add: get_or_compute_def e case_prod_beta)
  next
    case Wait
    with await_other_count [of c compute k pause, OF assms] w1 show ?thesis
      by (simp add: get_or_compute_def e) metis
  qed (simp_all add: get_or_compute_def e w1)
qed

lemma run_cached_count:
  assumes "runs_add_one cnt (env_tenant envelope) t" and "sleeps_keep cnt ev"
  shows "cnt (snd (snd (run_cached ev t envelope a sv w))) \<le> cnt w + attempts (sv_settings sv) t"
proof (cases "cache_enabled (sv_settings sv) \<and> cacheable t")
  case True
  let ?g = "get_or_compute in_memory_l2 (se_runtime ev) (sv_settings sv) (\<lambda>st. se_clock ev (bk_world st))
      (se_pause ev) (compute_for ev (sv_settings sv) t envelope a)
      (cache_key (se_runtime ev) t (env_tenant envelope) a) (Some (cache_ttl_seconds t))
      \<lparr>cw_cache = sv_cache sv, cw_rest = backend_of sv w\<rparr>"
  have "cnt (bk_world (cw_rest (snd ?g))) \<le> cnt (bk_world (backend_of sv w)) + attempts (sv_settings sv) t"
    using get_or_compute_count [of "\<lambda>st. cnt (bk_world st)" "compute_for ev (sv_settings sv) t envelope a"
        "attempts (sv_settings sv) t" "se_pause ev" in_memory_l2 "se_runtime ev" "sv_settings sv"
        "\<lambda>st. se_clock ev (bk_world st)" "cache_key (se_runtime ev) t (env_tenant envelope) a"
        "Some (cache_ttl_seconds t)" "\<lparr>cw_cache = sv_cache sv, cw_rest = backend_of sv w\<rparr>"]
      execute_reliably_count [OF assms] assms(2)
    by (simp add: compute_for_def sleeps_keep_def case_prod_beta)
  moreover have "snd (snd (run_cached ev t envelope a sv w)) = bk_world (cw_rest (snd ?g))"
    using True by (simp add: run_cached_def Let_def case_prod_beta)
  ultimately show ?thesis by (simp add: backend_of_def)
next
  case False
  then have "snd (snd (run_cached ev t envelope a sv w)) =
      bk_world (snd (execute_reliably ev (sv_settings sv) t envelope a (backend_of sv w)))"
    by (auto simp: run_cached_def Let_def case_prod_beta)
  with execute_reliably_count [OF assms, of "sv_settings sv" a "backend_of sv w"]
  show ?thesis by (simp add: backend_of_def)
qed

text \<open>The run behind the guards writes the audit file in one place only.\<close>

lemma run_cached_frame:
  "sv_audit (fst (snd (run_cached ev t envelope a sv w))) = sv_audit sv \<and>
   sv_settings (fst (snd (run_cached ev t envelope a sv w))) = sv_settings sv \<and>
   sv_registry (fst (snd (run_cached ev t envelope a sv w))) = sv_registry sv \<and>
   sv_approvals (fst (snd (run_cached ev t envelope a sv w))) = sv_approvals sv"
  by (simp add: run_cached_def Let_def put_backend_def case_prod_beta split: sum.split)

definition audit_event_for ::
    "'w server_env \<Rightarrow> 'w tool \<Rightarrow> tool_call_envelope \<Rightarrow> 'a outcome \<Rightarrow> 'w \<Rightarrow> rat \<Rightarrow> audit_event" where
  "audit_event_for ev t envelope r w duration_ms =
     \<lparr>ae_ts = se_stamp ev w, ae_trace_id = env_trace_id envelope, ae_tenant = env_tenant envelope,
      ae_caller = env_caller envelope, ae_delegator = env_delegator envelope,
      ae_tool = tm_name (tl_meta t), ae_args_hash = hash_args (se_runtime ev) (env_arguments envelope),
      ae_duration_ms = round3 duration_ms,
      ae_status = (case r of Inl (Tool_Exc e) \<Rightarrow> ''error'' | _ \<Rightarrow> ''ok''),
      ae_error_code = (case r of Inl (Tool_Exc e) \<Rightarrow> Some (err_code e) | _ \<Rightarrow> None)\<rparr>"

lemma observe_audit:
  "sv_audit (observe ev t envelope started r w sv) =
     (if audit_enabled (sv_settings sv)
      then audit_record (se_runtime ev)
             (audit_event_for ev t envelope r w ((se_clock ev w - started) * 1000)) (sv_audit sv)
      else sv_audit sv)"
  by (simp add: observe_def Let_def audit_event_for_def make_event_def call_status_def call_error_code_def
      case_prod_beta)

lemma run_observed_split:
  "run_observed ev t envelope a sv w =
     (fst (run_cached ev t envelope a sv w),
      observe ev t envelope (se_clock ev w) (fst (run_cached ev t envelope a sv w))
        (snd (snd (run_cached ev t envelope a sv w))) (fst (snd (run_cached ev t envelope a sv w))),
      snd (snd (run_cached ev t envelope a sv w)))"
  by (simp add: run_observed_def Let_def case_prod_beta)

text \<open>A call that passes every guard runs.\<close>

lemma dispatch_run:
  assumes "admitted ev ctx envelope sv t vargs" and "fst (rate_guard ev t envelope sv w) = Inr ()"
    and "fst (approval_guard ev t envelope (snd (rate_guard ev t envelope sv w)) w) = Inr ()"
  shows "dispatch ev ctx envelope sv w =
    run_observed ev t envelope vargs (snd (approval_guard ev t envelope (snd (rate_guard ev t envelope sv w)) w)) w"
proof (rule dispatch_cases [of ev ctx envelope sv w])
  assume "\<And>t vargs. \<not> admitted ev ctx envelope sv t vargs"
  with assms(1) show ?thesis by blast
next
  fix t' vargs'
  assume a: "admitted ev ctx envelope sv t' vargs'"
    and d: "dispatch ev ctx envelope sv w =
         (case rate_guard ev t' envelope sv w of
            (Inl x, sv1) \<Rightarrow> (Inl x, sv1, w)
          | (Inr _, sv1) \<Rightarrow>
              (case approval_guard ev t' envelope sv1 w of
                 (Inl x, sv2) \<Rightarrow> (Inl x, sv2, w)
               | (Inr _, sv2) \<Rightarrow> run_observed ev t' envelope vargs' sv2 w))"
  have "t' = t" "vargs' = vargs" using a assms(1) by (auto simp: admitted_def)
  with d assms(2,3) show ?thesis by (simp add: case_prod_beta)
qed

text \<open>A fresh server: no bucket, no breaker and no latency is on record.\<close>

definition fresh_server :: "settings \<Rightarrow> 'w server \<Rightarrow> bool" where
  "fresh_server cfg sv \<longleftrightarrow>
     sv_settings sv = cfg \<and> sv_buckets sv = Map.empty \<and> sv_breakers sv = [] \<and>
     at_tracker (sv_atba sv) = new_tracker \<and> 1 \<le> rate_limit_burst cfg \<and> 0 \<le> rate_limit_default_rpm cfg \<and> 1 \<le> retry_max_attempts cfg"

lemma guarded_first:
  assumes "1 \<le> retry_max_attempts cfg" and "tl_run t tenant a d w = (Inr v, w1)"
  shows "guarded ev cfg t name tenant a d (m, w) = (Inr v, m, w1)"
proof -
  have run: "lift_run (run_tool t name tenant a) d (m, w) = (Inr v, m, w1)"
    using assms(2) by (simp add: lift_run_def run_tool_def execute_def)
  moreover have "1 \<le> rt_max_attempts (retry_settings cfg)"
    using assms(1) by (simp add: retry_settings_def)
  ultimately show ?thesis
    by (simp add: guarded_def with_retry_def retry_from_stop)
qed

lemma fresh_run:
  assumes "fresh_server cfg sv" and "\<And>d. se_clock ev w + 7 < d \<Longrightarrow> tl_run t (env_tenant e) a d w = (Inr v, w1)"
  shows "fst (execute_reliably ev cfg t e a (backend_of sv w)) = Inr v"
    and "bk_world (snd (execute_reliably ev cfg t e a (backend_of sv w))) = w1"
  using assms
  by (simp_all add: fresh_server_def execute_reliably_def Let_def call_with_budget_def wait_for_def timeout_for_def
      p95_def safety_factor_def min_call_timeout_s_def with_breaker_def breaker_call_def begin_call_def
      check_transitions_def guarded_first for_tool_def backend_of_def new_tracker_def new_breaker_def
      budget_error_def end_call_def)

lemma fresh_rate:
  assumes "fresh_server cfg sv"
  shows "fst (rate_guard ev t e sv w) = Inr ()"
proof -
  have "1 \<le> quota_capacity (quota_for cfg tool)" "0 \<le> refill_rate (quota_for cfg tool)" for tool
    using quota_for_cases [of cfg tool] assms
    by (auto simp: fresh_server_def default_quota_def refill_rate_def)
  then show ?thesis
    using assms by (simp add: fresh_server_def rate_guard_def acquire_def mem_consume_def refilled_def Let_def case_prod_beta)
qed

lemma fresh_dispatch:
  assumes adm: "admitted ev ctx e sv t a" and fresh: "fresh_server cfg sv"
    and ag: "fst (approval_guard ev t e (snd (rate_guard ev t e sv w)) w) = Inr ()"
    and nc: "\<not> cacheable t \<or> \<not> cache_enabled cfg"
    and run: "\<And>d. se_clock ev w + 7 < d \<Longrightarrow> tl_run t (env_tenant e) a d w = (Inr v, w1)"
  shows "fst (dispatch ev ctx e sv w) = Inr (JObj v)" and "snd (snd (dispatch ev ctx e sv w)) = w1"
proof -
  let ?sv = "snd (approval_guard ev t e (snd (rate_guard ev t e sv w)) w)"
  have "dispatch ev ctx e sv w = run_observed ev t e a ?sv w"
    by (rule dispatch_run [OF adm fresh_rate [OF fresh] ag])
  moreover have "same_core ?sv sv"
    using approval_guard_core [of ev t e "snd (rate_guard ev t e sv w)" w] rate_guard_core(1) [of ev t e sv w]
    by (simp add: same_core_def)
  ultimately show "fst (dispatch ev ctx e sv w) = Inr (JObj v)" and "snd (snd (dispatch ev ctx e sv w)) = w1"
    using nc fresh fresh_run [OF fresh run]
    by (auto simp: run_observed_split run_cached_def same_core_def backend_of_def Let_def case_prod_beta
        json_result_def fresh_server_def)
qed

section \<open>A server to evaluate\<close>

type_synonym demo_world = "rat \<times> nat"

definition demo_env :: "demo_world server_env" where
  "demo_env = \<lparr>se_runtime = plain_runtime, se_clock = fst, se_wall = fst, se_stamp = (\<lambda>_. ''now''),
     se_sleep = (\<lambda>d dl w. if fst w + max 0 d < dl then (Inr (), fst w + max 0 d, snd w)
                         else (Inl Cancelled, max (fst w) dl, snd w)),
     se_random = (\<lambda>_. 1/2), se_pause = (\<lambda>d cw. (Inr (), cw)), se_bracket_ok = (\<lambda>_. True)\<rparr>"

definition counting_tool :: "tool_metadata \<Rightarrow> demo_world tool" where
  "counting_tool m = \<lparr>tl_meta = m, tl_schema = Valid, tl_json_schema = JObj [],
     tl_run = (\<lambda>tenant a d w. if fst w + 1 < d then (Inr [(''done'', JBool True)], fst w + 1, Suc (snd w))
                             else (Inl Cancelled, max (fst w) d, Suc (snd w)))\<rparr>"

definition demo_settings :: settings where
  "demo_settings = default_settings\<lparr>policy_default_deny := False\<rparr>"

definition demo_server :: "demo_world server" where
  "demo_server = (new_server demo_settings None None '''')\<lparr>sv_registry :=
     snd (register_all [counting_tool ping_meta, counting_tool vector_meta, counting_tool s3_put_meta] new_registry)\<rparr>"

definition demo_context :: request_context where
  "demo_context = dev_context ''acme'' ''agent'' [''tool:vector:read'', ''tool:s3:write'']"

definition demo_call :: "string \<Rightarrow> tool_call_envelope" where
  "demo_call name = build_envelope demo_context name []"


definition approved_server :: "demo_world server" where
  "approved_server = demo_server\<lparr>sv_approvals := fold (gate_step plain_runtime) gate_demo []\<rparr>"

definition put_call :: tool_call_envelope where
  "put_call = build_envelope demo_context ''s3.put_object'' [(''key'', JStr ''a'')]"


lemma demo_fresh: "fresh_server demo_settings (demo_server\<lparr>sv_approvals := st\<rparr>)"
  by (simp add: fresh_server_def demo_server_def new_server_def new_atba_def demo_settings_def default_settings_def)

lemma counting_run:
  "se_clock demo_env w + 7 < d \<Longrightarrow>
     tl_run (counting_tool m) tenant a d w = (Inr [(''done'', JBool True)], fst w + 1, Suc (snd w))"
  by (simp add: counting_tool_def demo_env_def)

lemma put_admitted: "admitted demo_env demo_context put_call approved_server (counting_tool s3_put_meta) [(''key'', JStr ''a'')]"
proof -
  have "get_tool (sv_registry approved_server) (env_tool put_call) = Inr (counting_tool s3_put_meta)"
    by (simp add: approved_server_def demo_server_def put_call_def get_tool_def register_tool_def new_registry_def
       counting_tool_def Let_def builtin_defs)
  moreover have "length (json_str ''key'') = 5" "length (json_str ''a'') = 3" by code_simp+
  then have "bound_argument_tree plain_runtime [(''key'', JStr ''a'')] = Inr [(''key'', JStr ''a'')]"
    by (simp add: bound_argument_tree_def check_depth.simps [of 0] check_depth.simps [of "Suc 0"]
        max_argument_bytes_def max_object_keys_def max_nesting_depth_def)
  moreover have "scope_guard demo_context (tm_scopes_required s3_put_meta) = Inr ()" by code_simp
  ultimately show ?thesis
    by (simp add: admitted_def validate_ok put_call_def demo_env_def counting_tool_def http_guard_def
       policy_check_ok_iff approved_server_def demo_server_def new_server_def policy_from_file_def or_default_def demo_settings_def
      )
qed

lemma put_dispatched: "is_ok (fst (dispatch demo_env demo_context put_call approved_server (3610, 0)))"
proof -
  let ?t = "counting_tool s3_put_meta" and ?st = "fold (gate_step plain_runtime) gate_demo []"
  have req: "approval_request_of ?t put_call = put_request"
    by (simp add: approval_request_of_def put_request_def put_call_def demo_context_def dev_context_def
        build_envelope_def counting_tool_def s3_put_meta_def metadata_def)
  have "fst (enforce plain_runtime 3610 ''now'' put_request ?st) = Inr ()"
    using gate_demo_view
    by (elim conjE exE, rule_tac enforce_cases [of plain_runtime ?st 3610 put_request "''now''"]) auto
  then have "fst (approval_guard demo_env ?t put_call (snd (rate_guard demo_env ?t put_call approved_server (3610, 0)))
      (3610, 0)) = Inr ()"
    using req rate_guard_core(2) [of demo_env ?t put_call approved_server "(3610, 0)"]
    by (simp add: approval_guard_def demo_env_def case_prod_beta approved_server_def)
  with fresh_dispatch(1) [OF put_admitted demo_fresh [of ?st, folded approved_server_def] _ _ counting_run] show ?thesis
    by (simp add: cacheable_def counting_tool_def s3_put_meta_def demo_env_def)
qed

lemma demo_tools:
  "map_of (rg_tools (sv_registry demo_server)) ''server.ping'' = Some (counting_tool ping_meta)"
  "map_of (rg_tools (sv_registry approved_server)) ''s3.put_object'' = Some (counting_tool s3_put_meta)"
  by (simp_all add: approved_server_def demo_server_def register_tool_def new_registry_def
      counting_tool_def Let_def builtin_defs)

lemma ping_admitted:
  assumes "env_tool e = ''server.ping''" "env_arguments e = []"
  shows "admitted demo_env ctx e demo_server (counting_tool ping_meta) []"
proof -
  have "bound_argument_tree plain_runtime [] = Inr []" by (simp add: bound_argument_tree_def check_depth.simps [of 0] max_argument_bytes_def max_object_keys_def)
  with assms demo_tools show ?thesis
    by (simp add: admitted_def validate_ok demo_env_def counting_tool_def http_guard_def get_tool_def builtin_defs
       policy_check_ok_iff demo_server_def new_server_def policy_from_file_def or_default_def demo_settings_def)
qed

lemma ping_dispatch:
  assumes "env_tool e = ''server.ping''" and "env_arguments e = []"
  shows "fst (dispatch demo_env ctx e demo_server (0, 0)) = Inr (JObj [(''done'', JBool True)])"
    and "snd (snd (dispatch demo_env ctx e demo_server (0, 0))) = (1, 1)"
proof -
  have "fresh_server demo_settings demo_server"
    using demo_fresh [of "sv_approvals demo_server"] by simp
  note ping = fresh_dispatch [OF ping_admitted [OF assms, of ctx] this _ _ counting_run, of "(0, 0)"]
  from ping show "fst (dispatch demo_env ctx e demo_server (0, 0)) = Inr (JObj [(''done'', JBool True)])"
    and "snd (snd (dispatch demo_env ctx e demo_server (0, 0))) = (1, 1)"
    by (simp_all add: approval_guard_def cacheable_def counting_tool_def ping_meta_def metadata_def demo_env_def)
qed

lemma ping_dispatched: "is_ok (fst (dispatch demo_env demo_context (demo_call ''server.ping'') demo_server (0, 0)))"
  by (simp add: ping_dispatch demo_call_def build_envelope_def)

lemma demo_counts: "runs_add_one snd tenant (counting_tool m)" "sleeps_keep snd demo_env"
  by (simp_all add: runs_add_one_def counting_tool_def sleeps_keep_def demo_env_def)

section \<open>Properties of admission\<close>



text \<open>A call that succeeds, touches the world or is audited has passed every guard.\<close>

lemma ran_through:
  assumes "dispatch ev ctx envelope sv w = (r, sv', w')" and "is_ok r \<or> w' \<noteq> w \<or> sv_audit sv' \<noteq> sv_audit sv"
  obtains t vargs where "admitted ev ctx envelope sv t vargs" "fst (rate_guard ev t envelope sv w) = Inr ()"
    "fst (approval_guard ev t envelope (snd (rate_guard ev t envelope sv w)) w) = Inr ()"
proof (rule dispatch_cases [of ev ctx envelope sv w])
  fix x assume "dispatch ev ctx envelope sv w = (Inl x, sv, w)"
  with assms show thesis by auto
next
  fix t vargs
  assume adm: "admitted ev ctx envelope sv t vargs"
    and d: "dispatch ev ctx envelope sv w =
         (case rate_guard ev t envelope sv w of
            (Inl x, sv1) \<Rightarrow> (Inl x, sv1, w)
          | (Inr _, sv1) \<Rightarrow>
              (case approval_guard ev t envelope sv1 w of
                 (Inl x, sv2) \<Rightarrow> (Inl x, sv2, w)
               | (Inr _, sv2) \<Rightarrow> run_observed ev t envelope vargs sv2 w))"
  obtain r1 sv1 where rg: "rate_guard ev t envelope sv w = (r1, sv1)" by force
  obtain r2 sv2 where ag: "approval_guard ev t envelope sv1 w = (r2, sv2)" by force
  from rate_guard_core(1) [of ev t envelope sv w] approval_guard_core [of ev t envelope sv1 w] rg ag
  have "same_core sv1 sv" "same_core sv2 sv1" by simp_all
  then have "r1 = Inr ()" "r2 = Inr ()"
    using d assms rg ag by (auto simp: same_core_def split: sum.splits)
  with that [OF adm] rg ag show thesis by simp
qed

lemma approved_gate:
  assumes "fst (approval_guard ev t envelope (snd (rate_guard ev t envelope sv w)) w) = Inr ()"
    and "tm_destructive (tl_meta t)" and "destructive_tool_requires_approval (sv_settings sv)"
    and "gate_wf (se_runtime ev) (sv_approvals sv)"
  shows "\<exists>a. gate_view (se_runtime ev) (sv_approvals sv) (se_clock ev w)
      (approval_id (se_runtime ev) (env_tenant envelope) (tm_name (tl_meta t)) (env_arguments envelope)) = Some a \<and>
    pa_state a = ''approved''"
proof -
  have "fst (enforce (se_runtime ev) (se_clock ev w) (se_stamp ev w) (approval_request_of t envelope)
      (sv_approvals sv)) = Inr ()"
    using assms(1-3) rate_guard_core [of ev t envelope sv w]
    by (simp add: approval_guard_def same_core_def case_prod_beta)
  then show ?thesis
    by (rule_tac enforce_cases [OF assms(4), of "se_clock ev w" "approval_request_of t envelope" "se_stamp ev w"])
       (auto simp: request_id_def approval_request_of_def split: if_splits)
qed

text \<open>C3: A destructive call runs only with a human's approval. When approvals are required, a call
  of a destructive tool succeeds, touches the world or is written to the audit file only if the
  record the approval store holds for exactly this tenant, tool and arguments is live and
  approved when the call comes in.\<close>

theorem destructive_needs_approval:
  assumes "dispatch ev ctx envelope sv w = (r, sv', w')"
    and "map_of (rg_tools (sv_registry sv)) (env_tool envelope) = Some t"
    and "tm_destructive (tl_meta t)" and "destructive_tool_requires_approval (sv_settings sv)"
    and "gate_wf (se_runtime ev) (sv_approvals sv)"
    and "is_ok r \<or> w' \<noteq> w \<or> sv_audit sv' \<noteq> sv_audit sv"
  shows "\<exists>a. gate_view (se_runtime ev) (sv_approvals sv) (se_clock ev w)
      (approval_id (se_runtime ev) (env_tenant envelope) (tm_name (tl_meta t)) (env_arguments envelope)) = Some a \<and>
    pa_state a = ''approved''"
proof (rule ran_through [OF assms(1,6)])
  fix t' vargs
  assume adm: "admitted ev ctx envelope sv t' vargs"
    and ag: "fst (approval_guard ev t' envelope (snd (rate_guard ev t' envelope sv w)) w) = Inr ()"
  have "t' = t" using adm assms(2) by (simp add: admitted_def get_tool_def)
  with approved_gate [OF _ assms(3-5)] ag show ?thesis by blast
qed

theorem destructive_needs_approval_witness:
  "\<exists>a. gate_view plain_runtime (sv_approvals approved_server) 3610 put_id = Some a \<and> pa_state a = ''approved''"
proof -
  obtain r sv' w' where d: "dispatch demo_env demo_context put_call approved_server (3610, 0) = (r, sv', w')"
    by (metis prod_cases3)
  have ok: "is_ok r" using put_dispatched d by simp
  have id: "approval_id plain_runtime (env_tenant put_call) (tm_name (tl_meta (counting_tool s3_put_meta)))
      (env_arguments put_call) = put_id"
    by (simp add: request_id_def put_request_def put_call_def demo_context_def dev_context_def
        counting_tool_def s3_put_meta_def metadata_def)
  have t: "map_of (rg_tools (sv_registry approved_server)) (env_tool put_call) = Some (counting_tool s3_put_meta)"
    using demo_tools(2) by (simp add: put_call_def)
  have "destructive_tool_requires_approval (sv_settings approved_server)"
    "gate_wf (se_runtime demo_env) (sv_approvals approved_server)"
    "tm_destructive (tl_meta (counting_tool s3_put_meta))"
    using gate_demo_view by (simp_all add: approved_server_def demo_server_def new_server_def demo_settings_def
        demo_env_def counting_tool_def s3_put_meta_def)
  from destructive_needs_approval [OF d t this(3) this(1) this(2)] ok id show ?thesis
    by (simp add: demo_env_def)
qed

lemma dispatch_count:
  assumes "dispatch ev ctx envelope sv w = (r, sv', w')"
    and "map_of (rg_tools (sv_registry sv)) (env_tool envelope) = Some t"
    and "runs_add_one cnt (env_tenant envelope) t" and "sleeps_keep cnt ev"
  shows "cnt w' \<le> cnt w + attempts (sv_settings sv) t"
proof (rule dispatch_cases [of ev ctx envelope sv w])
  fix x assume "dispatch ev ctx envelope sv w = (Inl x, sv, w)"
  with assms(1) show ?thesis by auto
next
  fix t' vargs
  assume adm: "admitted ev ctx envelope sv t' vargs"
    and d: "dispatch ev ctx envelope sv w =
         (case rate_guard ev t' envelope sv w of
            (Inl x, sv1) \<Rightarrow> (Inl x, sv1, w)
          | (Inr _, sv1) \<Rightarrow>
              (case approval_guard ev t' envelope sv1 w of
                 (Inl x, sv2) \<Rightarrow> (Inl x, sv2, w)
               | (Inr _, sv2) \<Rightarrow> run_observed ev t' envelope vargs sv2 w))"
  have [simp]: "t' = t" using adm assms(2) by (simp add: admitted_def get_tool_def)
  obtain r1 sv1 where rg: "rate_guard ev t envelope sv w = (r1, sv1)" by force
  obtain r2 sv2 where ag: "approval_guard ev t envelope sv1 w = (r2, sv2)" by force
  from rate_guard_core(1) [of ev t envelope sv w] approval_guard_core [of ev t envelope sv1 w] rg ag
  have st: "sv_settings sv2 = sv_settings sv" by (simp add: same_core_def)
  from run_cached_count [OF assms(3,4), of vargs sv2 w] st
  have "cnt (snd (snd (run_observed ev t envelope vargs sv2 w))) \<le> cnt w + attempts (sv_settings sv) t"
    by (simp add: run_observed_split)
  moreover have "w' = snd (snd (dispatch ev ctx envelope sv w))" using assms(1) by simp
  ultimately show ?thesis
    unfolding d by (simp add: rg ag split: sum.split)
qed

text \<open>
  What no run of the tool for the caller's tenant breaks and no sleep changes, a call keeps: it
  counts for nothing while it holds and for more than all attempts once it is broken.
\<close>

lemma dispatch_keeps:
  assumes d: "dispatch ev ctx envelope sv w = (r, sv', w')" and "P w"
    and run: "\<And>t a d w. map_of (rg_tools (sv_registry sv)) (env_tool envelope) = Some t \<Longrightarrow> P w \<Longrightarrow>
      P (snd (tl_run t (env_tenant envelope) a d w))"
    and sleep: "\<And>d dl w. P (snd (se_sleep ev d dl w)) \<longleftrightarrow> P w"
    and pause: "\<And>d cw. P (bk_world (cw_rest (snd (se_pause ev d cw)))) \<longleftrightarrow> P (bk_world (cw_rest cw))"
  shows "P w'"
proof (cases "map_of (rg_tools (sv_registry sv)) (env_tool envelope)")
  case None
  then have "dispatch ev ctx envelope sv w = (Inl (Tool_Exc (tool_not_found_error (env_tool envelope))), sv, w)"
    by (simp add: dispatch_def get_tool_def)
  with d \<open>P w\<close> show ?thesis by simp
next
  case (Some t)
  define cnt where "cnt = (\<lambda>w. if P w then 0 else Suc (attempts (sv_settings sv) t))"
  have "runs_add_one cnt (env_tenant envelope) t"
    using run [OF Some] by (simp add: runs_add_one_def cnt_def)
  moreover have "sleeps_keep cnt ev"
    using sleep pause by (simp add: sleeps_keep_def cnt_def)
  ultimately have "cnt w' \<le> cnt w + attempts (sv_settings sv) t"
    by (rule dispatch_count [OF d Some])
  with \<open>P w\<close> show ?thesis by (simp add: cnt_def split: if_splits)
qed

text \<open>C11: How often a tool runs. However a call ends, a destructive tool is executed at most once
  by it and any other tool at most \<^verbatim>\<open>retry_max_attempts\<close> times, through the cache and the wait
  for another caller's computation as well: any measure of the world that an execution raises by
  at most one and a sleep leaves alone is raised by no more than that.\<close>

theorem execution_bound:
  assumes "dispatch ev ctx envelope sv w = (r, sv', w')"
    and "map_of (rg_tools (sv_registry sv)) (env_tool envelope) = Some t"
    and "runs_add_one cnt (env_tenant envelope) t" and "sleeps_keep cnt ev"
  shows "cnt w' \<le> cnt w + (if tm_destructive (tl_meta t) then 1 else nat (retry_max_attempts (sv_settings sv)))"
  using dispatch_count [OF assms] by (simp add: attempts_def split: if_splits)

theorem execution_bound_witness:
  "snd (snd (snd (dispatch demo_env demo_context put_call approved_server (3610, 0)))) \<le> 1"
proof -
  obtain r sv' w' where d: "dispatch demo_env demo_context put_call approved_server (3610, 0) = (r, sv', w')"
    by (metis prod_cases3)
  have t: "map_of (rg_tools (sv_registry approved_server)) (env_tool put_call) = Some (counting_tool s3_put_meta)"
    using demo_tools(2) by (simp add: put_call_def)
  from execution_bound [OF d t demo_counts] d show ?thesis
    by (simp add: counting_tool_def s3_put_meta_def)
qed



section \<open>Outages, warm caches and time\<close>

lemma cache_get_hit_count:
  "fst (cache_get ops rt cfg now k cm) = Inr (Some v) \<Longrightarrow>
     cm_hits (snd (cache_get ops rt cfg now k cm)) = cm_hits cm + 1"
  by (auto simp: cache_get_def split: prod.splits option.splits sum.splits)

lemma get_or_compute_warm:
  assumes "fst (cache_get ops rt cfg (clock (cw_rest w)) key (cw_cache w)) = Inr (Some v)"
  shows "get_or_compute ops rt cfg clock pause compute key ttl w =
    (Inr v, w\<lparr>cw_cache := snd (cache_get ops rt cfg (clock (cw_rest w)) key (cw_cache w))\<rparr>)"
  using assms
  by (cases "cache_get ops rt cfg (clock (cw_rest w)) key (cw_cache w)")
     (simp add: get_or_compute_def on_cache_def enter_flight_def)

lemma for_tool_known: "map_of bs n = Some b \<Longrightarrow> for_tool cfg n bs = (b, bs)"
  by (simp add: for_tool_def)

text \<open>C33: A warm cache serves through an outage. When the answer to a call is in the cache, the call
  returns it without touching the world, the breaker, the budget or the reliability counters,
  whatever state the tool's breaker is in, and the call is counted as a cache hit.\<close>

theorem warm_cache_survives_outage:
  assumes "run_observed ev t envelope vargs sv w = (r, sv', w')"
    and "cache_enabled (sv_settings sv)" and "cacheable t"
    and "fst (cache_get in_memory_l2 (se_runtime ev) (sv_settings sv) (se_clock ev w)
           (cache_key (se_runtime ev) t (env_tenant envelope) vargs) (sv_cache sv)) = Inr (Some v)"
    and "map_of (sv_breakers sv) (tm_name (tl_meta t)) = Some b"
  shows "r = Inr v \<and> w' = w \<and> sv_breakers sv' = sv_breakers sv \<and> sv_atba sv' = sv_atba sv \<and>
    sv_rel sv' = sv_rel sv \<and>
    mt_cache_hits (sv_metrics sv') (tm_name (tl_meta t)) =
      mt_cache_hits (sv_metrics sv) (tm_name (tl_meta t)) + 1 \<and>
    mt_cache_misses (sv_metrics sv') = mt_cache_misses (sv_metrics sv)"
proof -
  let ?key = "cache_key (se_runtime ev) t (env_tenant envelope) vargs"
  let ?cw = "\<lparr>cw_cache = sv_cache sv, cw_rest = backend_of sv w\<rparr>"
  let ?g = "cache_get in_memory_l2 (se_runtime ev) (sv_settings sv) (se_clock ev w) ?key (sv_cache sv)"
  have "get_or_compute in_memory_l2 (se_runtime ev) (sv_settings sv) (\<lambda>st. se_clock ev (bk_world st))
      (se_pause ev) (compute_for ev (sv_settings sv) t envelope vargs) ?key (Some (cache_ttl_seconds t)) ?cw =
      (Inr v, ?cw\<lparr>cw_cache := snd ?g\<rparr>)"
    using get_or_compute_warm [of in_memory_l2 "se_runtime ev" "sv_settings sv"
        "\<lambda>st. se_clock ev (bk_world st)" ?cw ?key v] assms(4)
    by (simp add: backend_of_def)
  moreover have "cm_hits (sv_cache sv) < cm_hits (snd ?g)" using cache_get_hit_count [OF assms(4)] by simp
  ultimately have "run_cached ev t envelope vargs sv w =
      (Inr v, (put_backend (backend_of sv w) (sv\<lparr>sv_cache := snd ?g\<rparr>))
         \<lparr>sv_metrics := observe_cache (tm_name (tl_meta t)) True (sv_metrics sv)\<rparr>, w)"
    using assms(2,3) by (simp add: run_cached_def Let_def backend_of_def put_backend_def)
  with assms(1,5) show ?thesis
    by (auto simp: run_observed_split observe_def Let_def put_backend_def backend_of_def for_tool_known
        observe_cache_def observe_call_def set_circuit_state_def increment_def)
qed

definition warm_server :: "demo_world server" where
  "warm_server = demo_server
     \<lparr>sv_cache := snd (cache_set in_memory_l2 plain_runtime demo_settings 0
        (cache_key plain_runtime (counting_tool vector_meta) ''acme'' []) (JStr ''hit'') (Some 300)
        (sv_cache demo_server)),
      sv_breakers := [(''vector.search'', new_breaker ''vector.search'' 5 30)]\<rparr>"

theorem warm_cache_survives_outage_witness:
  "fst (run_observed demo_env (counting_tool vector_meta) (demo_call ''vector.search'') [] warm_server (10, 0)) =
     Inr (JStr ''hit'')"
proof -
  obtain r sv' w' where d: "run_observed demo_env (counting_tool vector_meta) (demo_call ''vector.search'') []
      warm_server (10, 0) = (r, sv', w')" by (metis prod_cases3)
  have "cache_enabled (sv_settings warm_server)" "cacheable (counting_tool vector_meta)"
    by (simp_all add: warm_server_def demo_server_def new_server_def demo_settings_def cacheable_def
        counting_tool_def vector_meta_def metadata_def)
  moreover have
    "fst (cache_get in_memory_l2 (se_runtime demo_env) (sv_settings warm_server) (se_clock demo_env (10, 0))
      (cache_key (se_runtime demo_env) (counting_tool vector_meta) (env_tenant (demo_call ''vector.search'')) [])
      (sv_cache warm_server)) = Inr (Some (JStr ''hit''))"
    by (simp add: warm_server_def demo_server_def new_server_def demo_settings_def demo_env_def demo_call_def
        demo_context_def dev_context_def cache_get_def cache_set_def l1_get_def l1_set_def new_cache_def
        new_l1_def Let_def effective_ttl_def move_to_end_def not_none_def)
  moreover have "map_of (sv_breakers warm_server) (tm_name (tl_meta (counting_tool vector_meta))) =
      Some (new_breaker ''vector.search'' 5 30)"
    by (simp add: warm_server_def counting_tool_def vector_meta_def metadata_def)
  ultimately show ?thesis
    using warm_cache_survives_outage [OF d] d by simp
qed

lemma breaker_call_open:
  assumes "cb_state b = OPEN" and "clock s - cb_opened_at b < of_int (cb_recovery_seconds b)"
  shows "breaker_call clock fn b s = (Inl (circuit_open b), check_transitions (clock s) b, s)"
proof -
  have "begin_call (clock s) b = (Rejected, check_transitions (clock s) b)"
    using assms by (simp add: begin_call_def Let_def)
  moreover have "circuit_open (check_transitions (clock s) b) = circuit_open b"
    using check_transitions_config [of "clock s" b] by (simp add: circuit_open_def same_config_def)
  ultimately show ?thesis by (simp add: breaker_call_def)
qed

text \<open>C32: An outage fails fast. While the tool's breaker is open and recovering, an execution, be it
  a direct one or one the cache computes, does not reach the tool: the world is untouched, the
  answer is \<^verbatim>\<open>circuit_open\<close>, the breaker stays open with its trips and its opening time, the
  breakers of other tools are untouched, and the short circuit is counted.\<close>

theorem outage_fails_fast:
  assumes "execute_reliably ev cfg t envelope vargs st = (r, st')"
    and "map_of (bk_breakers st) (tm_name (tl_meta t)) = Some b" and "cb_state b = OPEN"
    and "se_clock ev (bk_world st) - cb_opened_at b < of_int (cb_recovery_seconds b)"
  shows "r = Inl (circuit_open b) \<and> bk_world st' = bk_world st \<and>
    rm_breaker_short_circuits (bk_rel st') = rm_breaker_short_circuits (bk_rel st) + 1 \<and>
    rm_retries_attempted (bk_rel st') = rm_retries_attempted (bk_rel st) \<and>
    (\<exists>b'. map_of (bk_breakers st') (tm_name (tl_meta t)) = Some b' \<and> cb_state b' = OPEN \<and>
       cb_opened_at b' = cb_opened_at b \<and> cb_trips b' = cb_trips b) \<and>
    (\<forall>n. n \<noteq> tm_name (tl_meta t) \<longrightarrow> map_of (bk_breakers st') n = map_of (bk_breakers st) n)"
proof -
  let ?n = "tm_name (tl_meta t)"
  let ?m = "record_call ?n (bk_rel st)"
  let ?f = "with_breaker (se_clock ev) (guarded ev cfg t (env_tool envelope) (env_tenant envelope) vargs)"
  let ?b' = "check_transitions (se_clock ev (bk_world st)) b"
  have "?f d (b, ?m, bk_world st) = (Inl (circuit_open b), ?b', ?m, bk_world st)" for d
    using assms(3,4) by (simp add: with_breaker_def breaker_call_open)
  then have "call_with_budget (\<lambda>(b, m, w). se_clock ev w) ?n ?f (bk_atba st) None (b, ?m, bk_world st) =
      (Inl (circuit_open b), (bk_atba st)\<lparr>at_tracker := record_latency ?n 0 (at_tracker (bk_atba st))\<rparr>,
       None, ?b', ?m, bk_world st)"
    by (simp add: call_with_budget_def Let_def wait_for_def circuit_open_def budget_error_def)
  then have "execute_reliably ev cfg t envelope vargs st =
      (Inl (circuit_open b),
       \<lparr>bk_breakers = AList.update ?n ?b' (bk_breakers st),
        bk_atba = (bk_atba st)\<lparr>at_tracker := record_latency ?n 0 (at_tracker (bk_atba st))\<rparr>,
        bk_rel = record_short_circuit ?m, bk_world = bk_world st\<rparr>)"
    using assms(2) by (simp add: execute_reliably_def Let_def for_tool_known is_circuit_open_def
        circuit_open_def circuit_open_error_def is_instance_def)
  with assms(1,3,4) show ?thesis
    by (auto simp: record_short_circuit_def record_call_def Let_def)
qed

definition down_breaker :: breaker where
  "down_breaker = (new_breaker ''vector.search'' 5 30)\<lparr>cb_state := OPEN, cb_opened_at := 100\<rparr>"

theorem outage_fails_fast_witness:
  "fst (execute_reliably demo_env demo_settings (counting_tool vector_meta) (demo_call ''vector.search'') []
     \<lparr>bk_breakers = [(''vector.search'', down_breaker)], bk_atba = new_atba 30000,
      bk_rel = new_rel_metrics, bk_world = (110, 0)\<rparr>) = Inl (circuit_open down_breaker)"
proof -
  let ?st = "\<lparr>bk_breakers = [(''vector.search'', down_breaker)], bk_atba = new_atba 30000,
      bk_rel = new_rel_metrics, bk_world = (110, 0)\<rparr> :: demo_world backend_state"
  obtain r st' where d: "execute_reliably demo_env demo_settings (counting_tool vector_meta)
      (demo_call ''vector.search'') [] ?st = (r, st')" by force
  have "map_of (bk_breakers ?st) (tm_name (tl_meta (counting_tool vector_meta))) = Some down_breaker"
    by (simp add: counting_tool_def vector_meta_def metadata_def)
  moreover have "cb_state down_breaker = OPEN"
    "se_clock demo_env (bk_world ?st) - cb_opened_at down_breaker < of_int (cb_recovery_seconds down_breaker)"
    by (simp_all add: down_breaker_def new_breaker_def demo_env_def)
  ultimately show ?thesis
    using outage_fails_fast [OF d] d by simp
qed

lemma obeysD: "obeys_deadline c f \<Longrightarrow> c s \<le> d \<Longrightarrow> c s \<le> c (snd (f d s)) \<and> c (snd (f d s)) \<le> d"
  by (simp add: obeys_deadline_def)

lemma guarded_time:
  assumes "\<And>tenant a. obeys_deadline (se_clock ev) (tl_run t tenant a)"
    and "\<And>d. obeys_deadline (se_clock ev) (se_sleep ev d)" and "se_clock ev (snd mw) \<le> d"
  shows "se_clock ev (snd mw) \<le> se_clock ev (snd (snd (guarded ev cfg t n tenant a d mw))) \<and>
    se_clock ev (snd (snd (guarded ev cfg t n tenant a d mw))) \<le> d"
proof -
  have run: "se_clock ev (snd s) \<le> se_clock ev (snd (snd (lift_run (run_tool t n tenant a) d s))) \<and>
      se_clock ev (snd (snd (lift_run (run_tool t n tenant a) d s))) \<le> d" if "se_clock ev (snd s) \<le> d" for s
    using obeysD [OF assms(1) that, of tenant a] by (simp add: lift_run_world run_tool_world execute_def)
  have sleep: "se_clock ev (snd s) \<le> se_clock ev (snd (snd (sleep_for (retry_env_of ev d) dl s))) \<and>
      se_clock ev (snd (snd (sleep_for (retry_env_of ev d) dl s))) \<le> d" if "se_clock ev (snd s) \<le> d" for dl s
    using obeysD [OF assms(2) that, of dl] by (simp add: retry_env_of_def case_prod_beta)
  show ?thesis
    using run [OF assms(3)] retry_time [of "\<lambda>s. se_clock ev (snd s)" d "lift_run (run_tool t n tenant a) d"
        "retry_env_of ev d" mw "retry_settings cfg" None 1, OF run sleep assms(3)]
    by (simp add: guarded_world with_retry_def)
qed

text \<open>C34: An execution is bounded in time. If the tool and the sleeps end when their deadline
  cancels them, then an execution, with all its retries and the sleeps between them, ends within
  one and a half times the latency estimated for the tool, or half a second if that is more; and
  what it took is what the tracker records.\<close>

theorem execution_time_bounded:
  assumes "execute_reliably ev cfg t envelope vargs st = (r, st')"
    and "\<And>tenant a. obeys_deadline (se_clock ev) (tl_run t tenant a)"
    and "\<And>d. obeys_deadline (se_clock ev) (se_sleep ev d)"
  shows "let took = se_clock ev (bk_world st') - se_clock ev (bk_world st) in
    0 \<le> took \<and> took \<le> max (1/2) (p95 (at_tracker (bk_atba st)) (tm_name (tl_meta t)) 5 * (3/2)) \<and>
    at_tracker (bk_atba st') = record_latency (tm_name (tl_meta t)) took (at_tracker (bk_atba st))"
proof -
  let ?n = "tm_name (tl_meta t)"
  let ?g = "guarded ev cfg t (env_tool envelope) (env_tenant envelope) vargs"
  obtain b bs where b: "for_tool cfg ?n (bk_breakers st) = (b, bs)" by force
  let ?s = "(b, record_call ?n (bk_rel st), bk_world st)"
  let ?clock = "\<lambda>(b, m, w). se_clock ev w"
  let ?d = "se_clock ev (bk_world st) + timeout_for (se_clock ev (bk_world st)) ?n (bk_atba st) None"
  obtain r1 at1 bv1 b1 m1 w1 where c: "call_with_budget ?clock ?n (with_breaker (se_clock ev) ?g)
      (bk_atba st) None ?s = (r1, at1, bv1, b1, m1, w1)" by (metis prod_cases6)
  have "(b1, m1, w1) = snd (with_breaker (se_clock ev) ?g ?d ?s)"
    using call_with_budget_state [of ?clock ?n "with_breaker (se_clock ev) ?g" "bk_atba st" None ?s]
    unfolding c by simp
  then have w1: "w1 = snd (snd (snd (with_breaker (se_clock ev) ?g ?d ?s)))" by (metis snd_conv)
  have at1: "at_tracker at1 = record_latency ?n (se_clock ev w1 - se_clock ev (bk_world st)) (at_tracker (bk_atba st))"
    using c by (auto simp: call_with_budget_def Let_def case_prod_beta)
  have le: "se_clock ev (bk_world st) \<le> ?d"
    using timeout_no_budget_pos [of "se_clock ev (bk_world st)" ?n "bk_atba st"] by simp
  have "se_clock ev (bk_world st) \<le> se_clock ev w1 \<and> se_clock ev w1 \<le> ?d"
    using with_breaker_world [of "se_clock ev" ?g ?d b "record_call ?n (bk_rel st)" "bk_world st"] le
      guarded_time [OF assms(2,3), of "(record_call ?n (bk_rel st), bk_world st)" ?d cfg]
    unfolding w1 by auto
  moreover have "bk_world st' = w1" "at_tracker (bk_atba st') = at_tracker at1"
    using assms(1) c b by (auto simp: execute_reliably_def Let_def)
  ultimately show ?thesis
    using at1 timeout_no_budget [of "se_clock ev (bk_world st)" ?n "bk_atba st"] by (simp add: Let_def)
qed

lemma demo_obeys:
  "obeys_deadline (se_clock demo_env) (tl_run (counting_tool m) tenant a)"
  "obeys_deadline (se_clock demo_env) (se_sleep demo_env d)"
  by (auto simp: obeys_deadline_def demo_env_def counting_tool_def)

theorem execution_time_bounded_witness:
  "se_clock demo_env (bk_world (snd (execute_reliably demo_env demo_settings (counting_tool vector_meta)
     (demo_call ''vector.search'') [] (backend_of demo_server (10, 0))))) \<le> 10 + 15/2"
proof -
  obtain r st' where d: "execute_reliably demo_env demo_settings (counting_tool vector_meta)
      (demo_call ''vector.search'') [] (backend_of demo_server (10, 0)) = (r, st')" by force
  have "p95 (at_tracker (bk_atba (backend_of demo_server (10, 0)))) n 5 = 5" for n
    by (simp add: backend_of_def demo_server_def new_server_def new_atba_def p95_few)
  with execution_time_bounded [OF d demo_obeys] d show ?thesis
    by (simp add: Let_def backend_of_def demo_env_def)
qed

end
