(* ===== verification/Task_Steps.thy ===== *)
theory Task_Steps
  imports Server_Correct
begin

text \<open>
  What tasks do to the state they share. While one call awaits, others run: between two awaits a
  task takes an atomic step on the cache, a lock, a breaker, the latency window or a counter, or
  time passes. The relation \<open>task_step\<close> has one rule per such step. Its invariant \<open>shared_wf\<close> is
  kept by every step, and the run of a call, from the cache to the tool, is a sequence of steps:
  so the calls of one server may assume of the others what each of them guarantees.
\<close>

section \<open>The steps\<close>

type_synonym 'w shared = "(mem_l2, 'w backend_state) cache_world"

abbreviation time_of :: "'w server_env \<Rightarrow> 'w shared \<Rightarrow> rat" where
  "time_of ev s \<equiv> se_clock ev (bk_world (cw_rest s))"

definition set_cache :: "mem_l2 cache_manager \<Rightarrow> 'w shared \<Rightarrow> 'w shared" where
  "set_cache cm s = s\<lparr>cw_cache := cm\<rparr>"

definition set_locks :: "mem_l2 \<Rightarrow> 'w shared \<Rightarrow> 'w shared" where
  "set_locks l2 s = s\<lparr>cw_cache := (cw_cache s)\<lparr>cm_l2 := l2\<rparr>\<rparr>"

definition set_breakers :: "breakers \<Rightarrow> 'w shared \<Rightarrow> 'w shared" where
  "set_breakers bs s = s\<lparr>cw_rest := (cw_rest s)\<lparr>bk_breakers := bs\<rparr>\<rparr>"

definition set_atba :: "atba \<Rightarrow> 'w shared \<Rightarrow> 'w shared" where
  "set_atba a s = s\<lparr>cw_rest := (cw_rest s)\<lparr>bk_atba := a\<rparr>\<rparr>"

definition set_rel :: "rel_metrics \<Rightarrow> 'w shared \<Rightarrow> 'w shared" where
  "set_rel m s = s\<lparr>cw_rest := (cw_rest s)\<lparr>bk_rel := m\<rparr>\<rparr>"

definition set_world :: "'w \<Rightarrow> 'w shared \<Rightarrow> 'w shared" where
  "set_world w s = s\<lparr>cw_rest := (cw_rest s)\<lparr>bk_world := w\<rparr>\<rparr>"

lemmas set_defs = set_cache_def set_locks_def set_breakers_def set_atba_def set_rel_def set_world_def

text \<open>
  The provenance of what is cached: which values a task may write under which key. A server fixes
  it to what its tools computed; the steps and their invariant hold for any.
\<close>

type_synonym provenance = "string \<Rightarrow> json \<Rightarrow> bool"

fun op_made :: "provenance \<Rightarrow> cache_op \<Rightarrow> bool" where
  "op_made mk (Write_Key k v ttl) = mk k v"
| "op_made mk _ = True"

inductive task_step :: "'w server_env \<Rightarrow> settings \<Rightarrow> provenance \<Rightarrow> 'w shared \<Rightarrow> 'w shared \<Rightarrow> bool"
  for ev cfg mk where
  passes: "time_of ev s \<le> se_clock ev w \<Longrightarrow> task_step ev cfg mk s (set_world w s)"
| on_key: "op_value_ok (se_runtime ev) (time_of ev s, op) \<Longrightarrow> op_made mk op \<Longrightarrow>
    task_step ev cfg mk s
      (set_cache (apply_op in_memory_l2 (se_runtime ev) cfg (time_of ev s, op) (cw_cache s)) s)"
| locks: "task_step ev cfg mk s
    (set_locks (snd (mem_l2_acquire_lock (time_of ev s) k ms (cm_l2 (cw_cache s)))) s)"
| unlocks: "task_step ev cfg mk s (set_locks (mem_l2_release_lock k (cm_l2 (cw_cache s))) s)"
| finds: "task_step ev cfg mk s (set_breakers (snd (for_tool cfg n (bk_breakers (cw_rest s)))) s)"
| begins: "map_of (bk_breakers (cw_rest s)) n = Some b \<Longrightarrow>
    task_step ev cfg mk s
      (set_breakers (AList.update n (snd (begin_call (time_of ev s) b)) (bk_breakers (cw_rest s))) s)"
| ends: "map_of (bk_breakers (cw_rest s)) n = Some b \<Longrightarrow>
    task_step ev cfg mk s
      (set_breakers (AList.update n (end_call adm (time_of ev s) (r :: args outcome) b)
         (bk_breakers (cw_rest s))) s)"
| times: "0 \<le> d \<Longrightarrow> task_step ev cfg mk s
    (set_atba ((bk_atba (cw_rest s))\<lparr>at_tracker := record_latency n d (at_tracker (bk_atba (cw_rest s)))\<rparr>) s)"
| counts_call: "task_step ev cfg mk s (set_rel (record_call n (bk_rel (cw_rest s))) s)"
| counts_retry: "task_step ev cfg mk s (set_rel (record_retry (bk_rel (cw_rest s))) s)"
| counts_exhausted: "task_step ev cfg mk s (set_rel (record_retry_exhausted (bk_rel (cw_rest s))) s)"
| counts_open: "task_step ev cfg mk s (set_rel (record_short_circuit (bk_rel (cw_rest s))) s)"

abbreviation task_steps :: "'w server_env \<Rightarrow> settings \<Rightarrow> provenance \<Rightarrow> 'w shared \<Rightarrow> 'w shared \<Rightarrow> bool" where
  "task_steps ev cfg mk \<equiv> (task_step ev cfg mk)\<^sup>*\<^sup>*"

section \<open>The invariant\<close>

definition cache_wf :: "runtime \<Rightarrow> settings \<Rightarrow> provenance \<Rightarrow> rat \<Rightarrow> mem_l2 cache_manager \<Rightarrow> bool" where
  "cache_wf rt cfg mk now cm \<longleftrightarrow>
     (\<exists>ws. mem.cache_inv rt cfg now ws cm \<and> (\<forall>k v t ttl. ws k = Some (v, t, ttl) \<longrightarrow> mk k v)) \<and>
     0 \<le> cm_hits cm \<and> 0 \<le> cm_misses cm"

definition breaker_wf :: "settings \<Rightarrow> rat \<Rightarrow> string \<Rightarrow> breaker \<Rightarrow> bool" where
  "breaker_wf cfg now n b \<longleftrightarrow>
     same_config b (new_breaker n (circuit_breaker_failure_threshold cfg) (circuit_breaker_recovery_seconds cfg)) \<and>
     cb_inv b now \<and> 0 \<le> cb_trips b"

definition breakers_wf :: "settings \<Rightarrow> rat \<Rightarrow> breakers \<Rightarrow> bool" where
  "breakers_wf cfg now bs \<longleftrightarrow>
     wf_odict bs \<and> (\<forall>n b. map_of bs n = Some b \<longrightarrow> breaker_wf cfg now n b)"

definition tracker_wf :: "latency_tracker \<Rightarrow> bool" where
  "tracker_wf lt \<longleftrightarrow> lt_window lt = 500 \<and>
     (\<forall>n. length (samples_of lt n) \<le> 500 \<and> (\<forall>x \<in> set (samples_of lt n). 0 \<le> x))"

definition counters_wf :: "rel_metrics \<Rightarrow> bool" where
  "counters_wf m \<longleftrightarrow> 0 \<le> rm_retries_attempted m \<and> 0 \<le> rm_retries_exhausted m \<and>
     0 \<le> rm_breaker_short_circuits m \<and> wf_odict (rm_per_tool_calls m) \<and>
     (\<forall>n c. map_of (rm_per_tool_calls m) n = Some c \<longrightarrow> 0 < c)"

definition shared_wf :: "'w server_env \<Rightarrow> settings \<Rightarrow> provenance \<Rightarrow> 'w shared \<Rightarrow> bool" where
  "shared_wf ev cfg mk s \<longleftrightarrow>
     cache_wf (se_runtime ev) cfg mk (time_of ev s) (cw_cache s) \<and>
     breakers_wf cfg (time_of ev s) (bk_breakers (cw_rest s)) \<and>
     tracker_wf (at_tracker (bk_atba (cw_rest s))) \<and> counters_wf (bk_rel (cw_rest s))"

text \<open>The settings under which the cache tiers work.\<close>

definition sane_cache :: "settings \<Rightarrow> bool" where
  "sane_cache cfg \<longleftrightarrow> 0 \<le> cache_l1_max_items cfg \<and> 0 \<le> cache_l1_ttl_seconds cfg"

subsection \<open>Each part under its steps\<close>

lemma cache_wf_later: "cache_wf rt cfg mk now cm \<Longrightarrow> now \<le> now' \<Longrightarrow> cache_wf rt cfg mk now' cm"
  unfolding cache_wf_def using mem.cache_inv_later by blast

lemma cache_get_counts:
  "cm_hits cm \<le> cm_hits (snd (cache_get ops rt cfg now k cm))"
  "cm_misses cm \<le> cm_misses (snd (cache_get ops rt cfg now k cm))"
  by (simp_all add: cache_get_def split: prod.split option.split sum.split)

lemma apply_op_counts:
  "cm_hits cm \<le> cm_hits (apply_op ops rt cfg tmop cm)"
  "cm_misses cm \<le> cm_misses (apply_op ops rt cfg tmop cm)"
  by (simp_all add: apply_op_def cache_get_counts cache_set_def cache_delete_def invalidate_prefix_def
      Let_def split: prod.split cache_op.split sum.split)

lemma cache_wf_op:
  assumes "cache_wf rt cfg mk now cm" and "op_value_ok rt (now, op)" and "op_made mk op"
    and "sane_cache cfg"
  shows "cache_wf rt cfg mk now (apply_op in_memory_l2 rt cfg (now, op) cm)"
proof -
  from assms(1) obtain ws where inv: "mem.cache_inv rt cfg now ws cm"
    and made: "\<And>k v t ttl. ws k = Some (v, t, ttl) \<Longrightarrow> mk k v"
    by (auto simp: cache_wf_def)
  have "track cfg (now, op) ws k = Some (v, t, ttl) \<Longrightarrow> mk k v" for k v t ttl
    using assms(3) made by (cases op) (auto split: if_splits)
  moreover from mem.apply_op_inv [OF inv order_refl assms(2)] assms(4)
  have "mem.cache_inv rt cfg now (track cfg (now, op) ws) (apply_op in_memory_l2 rt cfg (now, op) cm)"
    by (simp add: sane_cache_def)
  moreover from assms(1) have "0 \<le> cm_hits cm" "0 \<le> cm_misses cm" by (simp_all add: cache_wf_def)
  ultimately show ?thesis
    unfolding cache_wf_def using apply_op_counts order_trans by blast
qed

lemma cache_wf_locks:
  assumes "cache_wf rt cfg mk now cm" and "m2_store l2 = m2_store (cm_l2 cm)"
  shows "cache_wf rt cfg mk now (cm\<lparr>cm_l2 := l2\<rparr>)"
  using assms by (simp add: cache_wf_def mem.cache_inv_def)

lemma same_config_new [simp]: "same_config b b' \<Longrightarrow> cb_name b = cb_name b'"
  by (simp add: same_config_def)

lemma trips_keep:
  "cb_trips (check_transitions now b) = cb_trips b"
  "cb_trips (snd (begin_call now b)) = cb_trips b"
  "cb_trips b \<le> cb_trips (end_call adm now r b)"
  by (simp_all add: check_transitions_def begin_call_def end_call_def on_failure_def trip_def
      on_success_def Let_def split: sum.split exc.split)

lemma breaker_wf_new:
  "breaker_wf cfg now n (new_breaker n (circuit_breaker_failure_threshold cfg) (circuit_breaker_recovery_seconds cfg))"
  by (simp add: breaker_wf_def cb_inv_new) (simp add: new_breaker_def)

lemma breaker_wf_begin: "breaker_wf cfg now n b \<Longrightarrow> breaker_wf cfg now n (snd (begin_call now b))"
  unfolding breaker_wf_def using same_config_trans [OF begin_call_config]
  by (simp add: cb_inv_begin trips_keep)

lemma breaker_wf_end: "breaker_wf cfg now n b \<Longrightarrow> breaker_wf cfg now n (end_call adm now r b)"
  unfolding breaker_wf_def using same_config_trans [OF end_call_config] trips_keep(3) order_trans
  by (fastforce simp: cb_inv_end)

lemma breakers_wf_update:
  "breakers_wf cfg now bs \<Longrightarrow> breaker_wf cfg now n b \<Longrightarrow> breakers_wf cfg now (AList.update n b bs)"
  by (simp add: breakers_wf_def)

lemma breakers_wf_later: "breakers_wf cfg now bs \<Longrightarrow> now \<le> now' \<Longrightarrow> breakers_wf cfg now' bs"
  by (auto simp: breakers_wf_def breaker_wf_def intro: cb_inv_later)

lemma for_tool_wf:
  assumes "breakers_wf cfg now bs"
  shows "breakers_wf cfg now (snd (for_tool cfg n bs))"
    and "map_of (snd (for_tool cfg n bs)) n = Some (fst (for_tool cfg n bs))"
    and "breaker_wf cfg now n (fst (for_tool cfg n bs))"
  using assms breakers_wf_update [OF assms breaker_wf_new]
  by (auto simp: for_tool_def breakers_wf_def breaker_wf_new Let_def split: option.split)

lemma tracker_wf_record:
  assumes "tracker_wf lt" and "0 \<le> d"
  shows "tracker_wf (record_latency n d lt)"
proof -
  have "set (bounded_append 500 xs d) \<subseteq> insert d (set xs)" for xs
    using set_drop_subset [of "length (xs @ [d]) - 500" "xs @ [d]"] by (simp add: bounded_append_def)
  with assms show ?thesis
    by (fastforce simp: tracker_wf_def samples_record length_bounded_append)
qed

lemma counters_wf_steps:
  assumes "counters_wf m"
  shows "counters_wf (record_call n m)" "counters_wf (record_retry m)"
    "counters_wf (record_retry_exhausted m)" "counters_wf (record_short_circuit m)"
  using assms
  by (auto simp: counters_wf_def record_call_def record_retry_def record_retry_exhausted_def
      record_short_circuit_def Let_def split: option.split if_splits intro: less_imp_le)

subsection \<open>Every step keeps it\<close>

lemma task_step_wf:
  assumes "task_step ev cfg mk s t" and "sane_cache cfg"
  shows "shared_wf ev cfg mk s \<Longrightarrow> shared_wf ev cfg mk t \<and> time_of ev s \<le> time_of ev t"
  using assms(1)
proof (induction rule: task_step.induct)
  case (passes s w)
  then show ?case
    by (auto simp: shared_wf_def set_world_def intro: cache_wf_later breakers_wf_later)
next
  case (on_key s op)
  then show ?case
    using cache_wf_op [OF _ on_key(1,2) assms(2)] by (simp add: shared_wf_def set_cache_def)
next
  case (locks s k ms)
  then show ?case by (simp add: shared_wf_def set_locks_def cache_wf_locks)
next
  case (unlocks s k)
  then show ?case by (simp add: shared_wf_def set_locks_def cache_wf_locks)
next
  case (finds s n)
  then show ?case by (simp add: shared_wf_def set_breakers_def for_tool_wf)
next
  case (begins s n b)
  then show ?case
    by (auto simp: shared_wf_def set_breakers_def breakers_wf_def intro: breaker_wf_begin)
next
  case (ends s n b adm r)
  then show ?case
    by (auto simp: shared_wf_def set_breakers_def breakers_wf_def intro: breaker_wf_end)
next
  case (times d s n)
  then show ?case by (simp add: shared_wf_def set_atba_def tracker_wf_record)
qed (simp_all add: shared_wf_def set_rel_def counters_wf_steps)

lemma task_steps_wf:
  assumes "task_steps ev cfg mk s t" and "sane_cache cfg" and "shared_wf ev cfg mk s"
  shows "shared_wf ev cfg mk t \<and> time_of ev s \<le> time_of ev t"
  using assms(1)
proof (induction rule: rtranclp_induct)
  case base
  then show ?case using assms(3) by simp
next
  case (step t u)
  from task_step_wf [OF step(2) assms(2)] step(3) show ?case by fastforce
qed

section \<open>A call takes these steps only\<close>

text \<open>
  What is relied on. The monotonic clock does not run backwards, whatever is awaited; a sleep ends
  or is cancelled; a tool returns a value that can be written as JSON; and what happens while a
  caller waits for another's computation is steps of other tasks.
\<close>

definition interruptible :: "unit outcome \<Rightarrow> bool" where
  "interruptible r \<longleftrightarrow> r = Inr () \<or> r = Inl Cancelled"

definition sound_sleeps :: "'w server_env \<Rightarrow> bool" where
  "sound_sleeps ev \<longleftrightarrow>
     (\<forall>d dl w. interruptible (fst (se_sleep ev d dl w)) \<and> se_clock ev w \<le> se_clock ev (snd (se_sleep ev d dl w)))"

definition sound_pauses :: "'w server_env \<Rightarrow> settings \<Rightarrow> provenance \<Rightarrow> bool" where
  "sound_pauses ev cfg mk \<longleftrightarrow>
     (\<forall>d s. interruptible (fst (se_pause ev d s)) \<and> task_steps ev cfg mk s (snd (se_pause ev d s)))"

definition sound_tool :: "'w server_env \<Rightarrow> 'w tool \<Rightarrow> bool" where
  "sound_tool ev t \<longleftrightarrow>
     (\<forall>tenant a d w. se_clock ev w \<le> se_clock ev (snd (tl_run t tenant a d w)) \<and>
        (\<forall>v. fst (tl_run t tenant a d w) = Inr v \<longrightarrow> wf_json (se_runtime ev) (JObj v)))"

text \<open>The typing of an outcome: a value of which something holds, a \<^verbatim>\<open>ToolError\<close> or a cancellation.\<close>

fun typed :: "(json \<Rightarrow> bool) \<Rightarrow> json outcome \<Rightarrow> bool" where
  "typed ok (Inr v) = ok v"
| "typed ok (Inl (Tool_Exc e)) = True"
| "typed ok (Inl Cancelled) = True"
| "typed ok (Inl (Py_Exc ty msg)) = False"

abbreviation typed_args :: "(json \<Rightarrow> bool) \<Rightarrow> args outcome \<Rightarrow> bool" where
  "typed_args ok r \<equiv> typed ok (json_result r)"

text \<open>What some run of a tool for a tenant on given arguments returned.\<close>

definition ran :: "'w tool \<Rightarrow> string \<Rightarrow> args \<Rightarrow> json \<Rightarrow> bool" where
  "ran t tenant a v \<longleftrightarrow> (\<exists>d w v'. fst (tl_run t tenant a d w) = Inr v' \<and> v = JObj v')"

lemma json_result_simps [simp]: "json_result (Inl x) = Inl x" "json_result (Inr v) = Inr (JObj v)"
  by (simp_all add: json_result_def)

lemma sound_tool_ran: "sound_tool ev t \<Longrightarrow> ran t tenant a v \<Longrightarrow> wf_json (se_runtime ev) v"
  by (auto simp: sound_tool_def ran_def)

lemma run_tool_typed:
  shows "typed_args (ran t tenant a) (fst (run_tool t name tenant a d w))"
    and "sound_tool ev t \<Longrightarrow> se_clock ev w \<le> se_clock ev (snd (run_tool t name tenant a d w))"
proof -
  obtain r w1 where r: "tl_run t tenant a d w = (r, w1)" by fastforce
  then have "r = Inr v \<Longrightarrow> ran t tenant a (JObj v)" for v
    unfolding ran_def by (metis fst_conv)
  then show "typed_args (ran t tenant a) (fst (run_tool t name tenant a d w))"
    by (simp add: run_tool_def execute_def r split: sum.split exc.split)
  assume "sound_tool ev t"
  with r have "se_clock ev w \<le> se_clock ev w1"
    unfolding sound_tool_def by (metis snd_conv)
  then show "se_clock ev w \<le> se_clock ev (snd (run_tool t name tenant a d w))"
    by (simp add: run_tool_def execute_def r split: sum.split exc.split)
qed

end
