(* ===== verification/Task_Runs.thy ===== *)
theory Task_Runs
  imports Task_Steps
begin

text \<open>
  The run of a call as steps: the attempts behind the breaker and the budget, the reliable run,
  and the cache around it, each a sequence of \<open>task_step\<close> and each with a typed outcome.
\<close>

section \<open>The run behind the breaker\<close>

definition at_run :: "'w shared \<Rightarrow> rel_metrics \<times> 'w \<Rightarrow> 'w shared" where
  "at_run s mw = set_rel (fst mw) (set_world (snd mw) s)"

lemma at_run_simps [simp]:
  "bk_world (cw_rest (at_run s mw)) = snd mw" "bk_rel (cw_rest (at_run s mw)) = fst mw"
  "bk_breakers (cw_rest (at_run s mw)) = bk_breakers (cw_rest s)"
  "bk_atba (cw_rest (at_run s mw)) = bk_atba (cw_rest s)"
  "set_world w (at_run s mw) = at_run s (fst mw, w)"
  "set_rel m (at_run s mw) = at_run s (m, snd mw)"
  "set_breakers bs (at_run s mw) = at_run (set_breakers bs s) mw"
  "at_run s (bk_rel (cw_rest s), bk_world (cw_rest s)) = s"
  by (simp_all add: at_run_def set_defs)

lemma task_step_time: "task_step ev cfg mk s t \<Longrightarrow> time_of ev s \<le> time_of ev t"
  by (induction rule: task_step.induct) (simp_all add: set_defs)

lemma task_steps_time: "task_steps ev cfg mk s t \<Longrightarrow> time_of ev s \<le> time_of ev t"
  by (induction rule: rtranclp_induct) (auto dest: task_step_time)

lemma world_passes:
  "se_clock ev (snd mw) \<le> se_clock ev w \<Longrightarrow> task_steps ev cfg mk (at_run s mw) (at_run s (fst mw, w))"
  using task_step.passes [of ev "at_run s mw" w cfg] by auto

lemma lift_run_steps:
  "se_clock ev (snd mw) \<le> se_clock ev (snd (f d (snd mw))) \<Longrightarrow>
     task_steps ev cfg mk (at_run s mw) (at_run s (snd (lift_run f d mw)))"
  using world_passes [of ev mw "snd (f d (snd mw))" cfg mk s]
  by (simp add: lift_run_def case_prod_beta)

lemma sleep_steps:
  assumes "sound_sleeps ev"
  shows "task_steps ev cfg mk (at_run s mw) (at_run s (snd (sleep_for (retry_env_of ev dl) d mw)))"
proof -
  let ?w = "snd (se_sleep ev d dl (snd mw))"
  have "task_steps ev cfg mk (at_run s mw) (at_run s (fst mw, ?w))"
    using assms by (intro world_passes) (simp add: sound_sleeps_def)
  moreover have "task_step ev cfg mk (at_run s (fst mw, ?w)) (at_run s (record_retry (fst mw), ?w))"
    using task_step.counts_retry [of ev cfg mk "at_run s (fst mw, ?w)"] by simp
  ultimately show ?thesis by (simp add: retry_env_of_def case_prod_beta)
qed

lemma guarded_steps:
  assumes "sound_tool ev t" and "sound_sleeps ev"
  shows "task_steps ev cfg mk (at_run s mw) (at_run s (snd (guarded ev cfg t n tenant a d mw)))"
proof -
  let ?f = "lift_run (run_tool t n tenant a) d"
  have run: "task_steps ev cfg mk (at_run s mw) (at_run s (snd (?f mw)))" for mw
    using run_tool_typed(2) [OF assms(1)] by (intro lift_run_steps) simp
  show ?thesis
  proof (cases "tm_destructive (tl_meta t)")
    case True
    with run show ?thesis by (simp add: guarded_def)
  next
    case False
    obtain r m w where r: "with_retry (retry_env_of ev d) (retry_settings cfg) ?f mw = (r, m, w)"
      by (metis prod_cases3)
    have "task_steps ev cfg mk (at_run s mw)
        (at_run s (snd (with_retry (retry_env_of ev d) (retry_settings cfg) ?f mw)))"
      unfolding with_retry_def
      by (rule retry_keeps) (use run sleep_steps [OF assms(2)] in \<open>auto intro: rtranclp_trans\<close>)
    moreover have "task_step ev cfg mk (at_run s (m, w)) (at_run s (record_retry_exhausted m, w))"
      using task_step.counts_exhausted [of ev cfg mk "at_run s (m, w)"] by simp
    ultimately show ?thesis
      using False r by (auto simp: guarded_def split: sum.split exc.split)
  qed
qed

lemma typed_interrupt: "interruptible (r :: unit outcome) \<Longrightarrow> r = Inl x \<Longrightarrow> typed ok (Inl x)"
  by (auto simp: interruptible_def)

lemma guarded_typed:
  assumes "sound_sleeps ev" and "1 \<le> retry_max_attempts cfg"
  shows "typed_args (ran t tenant a) (fst (guarded ev cfg t n tenant a d mw))"
proof -
  let ?f = "lift_run (run_tool t n tenant a) d"
  have run: "typed_args (ran t tenant a) (fst (?f mw))" for mw
    using run_tool_typed(1) by (simp add: lift_run_def case_prod_beta)
  have sleep: "typed_args (ran t tenant a) (Inl x)"
    if "fst (sleep_for (retry_env_of ev d) dl mw) = Inl x" for dl mw x
    using that assms(1) typed_interrupt
    by (fastforce simp: retry_env_of_def sound_sleeps_def case_prod_beta)
  have "typed_args (ran t tenant a) (fst (with_retry (retry_env_of ev d) (retry_settings cfg) ?f mw))"
    unfolding with_retry_def
    by (rule retry_outcome [of "typed_args (ran t tenant a)", OF run sleep])
       (use assms(2) in \<open>simp_all add: retry_settings_def\<close>)
  with run show ?thesis
    by (auto simp: guarded_def split: prod.split sum.split exc.split)
qed

section \<open>The breaker and the budget\<close>

lemma is_circuit_open_typed [simp]: "typed ok (Inl (circuit_open b))"
  by (simp add: circuit_open_def)

lemma breaker_call_steps:
  fixes fn :: "rel_metrics \<times> 'w \<Rightarrow> args outcome \<times> rel_metrics \<times> 'w"
  assumes steps: "\<And>s mw. task_steps ev cfg mk (at_run s mw) (at_run s (snd (fn mw)))"
    and b: "map_of (bk_breakers (cw_rest s)) n = Some b"
    and r: "breaker_call (\<lambda>(m, w). se_clock ev w) fn b mw = (r, b1, mw1)"
  shows "task_steps ev cfg mk (at_run s mw)
    (at_run (set_breakers (AList.update n b1 (bk_breakers (cw_rest s))) s) mw1)"
proof -
  let ?bs = "bk_breakers (cw_rest s)"
  let ?now = "se_clock ev (snd mw)"
  obtain adm b0 where bg: "begin_call ?now b = (adm, b0)" by fastforce
  let ?s0 = "set_breakers (AList.update n b0 ?bs) s"
  have begun: "task_step ev cfg mk (at_run s mw) (at_run ?s0 mw)"
    using task_step.begins [of "at_run s mw" n b ev cfg] b bg by simp
  show ?thesis
  proof (cases "adm = Rejected")
    case True
    with begun r bg show ?thesis by (auto simp: breaker_call_def case_prod_beta)
  next
    case False
    let ?b1 = "end_call adm (se_clock ev (snd (snd (fn mw)))) (fst (fn mw)) b0"
    have m: "map_of (bk_breakers (cw_rest ?s0)) n = Some b0" by (simp add: set_defs)
    have "task_step ev cfg mk (at_run ?s0 (snd (fn mw)))
        (at_run (set_breakers (AList.update n ?b1 (bk_breakers (cw_rest ?s0))) ?s0) (snd (fn mw)))"
      using task_step.ends [of "at_run ?s0 (snd (fn mw))" n b0 ev cfg mk adm "fst (fn mw)"] m by simp
    moreover have "set_breakers (AList.update n ?b1 (bk_breakers (cw_rest ?s0))) ?s0 =
        set_breakers (AList.update n ?b1 ?bs) s"
      by (simp add: set_defs)
    moreover have "b1 = ?b1" "mw1 = snd (fn mw)"
      using r bg False by (auto simp: breaker_call_def case_prod_beta split: admission.splits)
    ultimately show ?thesis
      using begun steps [of ?s0 mw] by (metis converse_rtranclp_into_rtranclp rtranclp.rtrancl_into_rtrancl)
  qed
qed

lemma breaker_call_typed:
  "typed_args ok (fst (fn mw)) \<Longrightarrow> typed_args ok (fst (breaker_call clock fn b mw))"
  by (auto simp: breaker_call_def split: prod.split admission.split)

lemma budget_typed:
  assumes "typed_args ok r"
  shows "typed_args ok (budget_error tool tmo
    (if r = Inl Cancelled \<and> p then Inl (Py_Exc ''TimeoutError'' '''') else r))"
  using assms by (cases r) (auto simp: budget_error_def split: exc.split)

lemma call_with_budget_fst:
  "fst (call_with_budget clock tool coro a bv s) =
     (let tmo = timeout_for (clock s) tool a bv; (r, s1) = coro (clock s + tmo) s
      in budget_error tool tmo
           (if r = Inl Cancelled \<and> clock s + tmo \<le> clock s1 then Inl (Py_Exc ''TimeoutError'' '''') else r))"
  by (auto simp: call_with_budget_def wait_for_def Let_def split: prod.split sum.split exc.split)

lemma call_with_budget_parts:
  assumes "coro (clock s + timeout_for (clock s) tool a None) s = (r, s1)"
  obtains rb where "call_with_budget clock tool coro a None s =
    (rb, a\<lparr>at_tracker := record_latency tool (clock s1 - clock s) (at_tracker a)\<rparr>, None, s1)"
proof -
  have "snd (wait_for clock (timeout_for (clock s) tool a None) coro s) = s1"
    using assms by (simp add: wait_for_state)
  then show thesis
    using that by (simp add: call_with_budget_def Let_def case_prod_beta)
qed

section \<open>The reliable run\<close>

definition with_rest :: "'w backend_state \<Rightarrow> 'w shared \<Rightarrow> 'w shared" where
  "with_rest st s = s\<lparr>cw_rest := st\<rparr>"

lemma execute_reliably_steps:
  assumes "sound_tool ev t" and "sound_sleeps ev" and "breakers_wf cfg now (bk_breakers (cw_rest s))"
  shows "task_steps ev cfg mk s (with_rest (snd (execute_reliably ev cfg t envelope vargs (cw_rest s))) s)"
proof -
  let ?n = "tm_name (tl_meta t)"
  let ?st = "cw_rest s"
  let ?w = "bk_world ?st"
  obtain b bs where f: "for_tool cfg ?n (bk_breakers ?st) = (b, bs)" by fastforce
  let ?m = "record_call ?n (bk_rel ?st)"
  let ?g = "guarded ev cfg t (env_tool envelope) (env_tenant envelope) vargs"
  let ?d = "se_clock ev ?w + timeout_for (se_clock ev ?w) ?n (bk_atba ?st) None"
  obtain r b1 m1 w1 where c: "breaker_call (\<lambda>(m, w). se_clock ev w) (?g ?d) b (?m, ?w) = (r, b1, m1, w1)"
    by (metis prod.exhaust)
  obtain rb where budget: "call_with_budget (\<lambda>(b, m, w). se_clock ev w) ?n (with_breaker (se_clock ev) ?g)
      (bk_atba ?st) None (b, ?m, ?w) =
      (rb, (bk_atba ?st)\<lparr>at_tracker := record_latency ?n (se_clock ev w1 - se_clock ev ?w)
         (at_tracker (bk_atba ?st))\<rparr>, None, b1, m1, w1)"
    by (rule call_with_budget_parts [of "with_breaker (se_clock ev) ?g" "\<lambda>(b, m, w). se_clock ev w"
          "(b, ?m, ?w)" ?n "bk_atba ?st" r "(b1, m1, w1)"])
       (auto simp: with_breaker_def c)
  let ?s1 = "set_rel ?m (set_breakers bs s)"
  have "task_step ev cfg mk s (set_breakers bs s)"
    using task_step.finds [of ev cfg mk s ?n] f by simp
  moreover have "task_step ev cfg mk (set_breakers bs s) ?s1"
    using task_step.counts_call [of ev cfg mk "set_breakers bs s" ?n] by (simp add: set_defs)
  ultimately have s1: "task_steps ev cfg mk s ?s1" by simp
  have at1: "?s1 = at_run (set_breakers bs s) (?m, ?w)" by (simp add: at_run_def set_defs)
  have b: "map_of bs ?n = Some b" using for_tool_wf(2) [OF assms(3), of ?n] f by simp
  have "task_steps ev cfg mk (at_run (set_breakers bs s) (?m, ?w))
      (at_run (set_breakers (AList.update ?n b1 (bk_breakers (cw_rest (set_breakers bs s)))) (set_breakers bs s)) (m1, w1))"
    by (rule breaker_call_steps [OF guarded_steps [OF assms(1,2)] _ c]) (simp add: set_defs b)
  moreover have "set_breakers (AList.update ?n b1 (bk_breakers (cw_rest (set_breakers bs s)))) (set_breakers bs s)
      = set_breakers (AList.update ?n b1 bs) s"
    by (simp add: set_defs)
  ultimately have s2: "task_steps ev cfg mk ?s1 (at_run (set_breakers (AList.update ?n b1 bs) s) (m1, w1))"
    unfolding at1 by simp
  let ?s2 = "at_run (set_breakers (AList.update ?n b1 bs) s) (m1, w1)"
  have dur: "0 \<le> se_clock ev w1 - se_clock ev ?w"
    using task_steps_time [OF rtranclp_trans [OF s1 s2]] by simp
  let ?a = "(bk_atba ?st)\<lparr>at_tracker := record_latency ?n (se_clock ev w1 - se_clock ev ?w) (at_tracker (bk_atba ?st))\<rparr>"
  have s3: "task_step ev cfg mk ?s2 (set_atba ?a ?s2)"
    using task_step.times [OF dur, of ev cfg mk ?s2 ?n] by (simp add: set_defs)
  have s4: "task_step ev cfg mk (set_atba ?a ?s2) (set_rel (record_short_circuit m1) (set_atba ?a ?s2))"
    using task_step.counts_open [of ev cfg mk "set_atba ?a ?s2"] by (simp add: set_defs at_run_def)
  have "with_rest (snd (execute_reliably ev cfg t envelope vargs ?st)) s =
      (if is_circuit_open rb then set_rel (record_short_circuit m1) (set_atba ?a ?s2) else set_atba ?a ?s2)"
    by (simp add: execute_reliably_def f budget with_rest_def set_defs at_run_def Let_def)
  then show ?thesis
    using rtranclp_trans [OF s1 s2] s3 s4 by (auto intro: rtranclp.rtrancl_into_rtrancl)
qed

lemma execute_reliably_typed:
  assumes "sound_sleeps ev" and "1 \<le> retry_max_attempts cfg"
  shows "typed_args (ran t (env_tenant envelope) vargs) (fst (execute_reliably ev cfg t envelope vargs st))"
proof -
  let ?n = "tm_name (tl_meta t)"
  obtain b bs where f: "for_tool cfg ?n (bk_breakers st) = (b, bs)" by fastforce
  let ?g = "guarded ev cfg t (env_tool envelope) (env_tenant envelope) vargs"
  have "typed_args (ran t (env_tenant envelope) vargs) (fst (with_breaker (se_clock ev) ?g d bmw))" for d bmw
    using breaker_call_typed [OF guarded_typed [OF assms]]
    by (simp add: with_breaker_def case_prod_beta)
  then have "typed_args (ran t (env_tenant envelope) vargs) (fst (call_with_budget (\<lambda>(b, m, w). se_clock ev w) ?n
      (with_breaker (se_clock ev) ?g) (bk_atba st) None s))" for s
    using budget_typed by (simp add: call_with_budget_fst Let_def case_prod_beta)
  then show ?thesis
    by (simp add: execute_reliably_def f Let_def case_prod_beta)
qed


section \<open>The cache\<close>

abbreviation cache_now :: "'w server_env \<Rightarrow> 'w backend_state \<Rightarrow> rat" where
  "cache_now ev \<equiv> \<lambda>st. se_clock ev (bk_world st)"

lemma on_cache_set: "snd (on_cache (cache_now ev) f s) = set_cache (snd (f (time_of ev s) (cw_cache s))) s"
  by (simp add: on_cache_def set_defs split: prod.split)

lemma on_cache_fst: "fst (on_cache (cache_now ev) f s) = fst (f (time_of ev s) (cw_cache s))"
  by (simp add: on_cache_def split: prod.split)

lemma read_step:
  "task_step ev cfg mk s (set_cache (snd (cache_get in_memory_l2 (se_runtime ev) cfg (time_of ev s) k (cw_cache s))) s)"
  using task_step.on_key [of ev s "Read_Key k" mk cfg] by (simp add: apply_op_def)

text \<open>What may be answered for a key: a value that can be written and was made for it.\<close>

abbreviation cached_ok :: "'w server_env \<Rightarrow> provenance \<Rightarrow> string \<Rightarrow> json \<Rightarrow> bool" where
  "cached_ok ev mk k v \<equiv> wf_json (se_runtime ev) v \<and> mk k v"

lemma cache_get_typed:
  assumes "cache_wf rt cfg mk now cm"
  obtains (found) v where "fst (cache_get in_memory_l2 rt cfg now k cm) = Inr (Some v)"
      "wf_json rt v \<and> mk k v"
  | (nothing) "fst (cache_get in_memory_l2 rt cfg now k cm) = Inr None"
proof -
  from assms obtain ws where inv: "mem.cache_inv rt cfg now ws cm"
    and made: "\<And>k v t ttl. ws k = Some (v, t, ttl) \<Longrightarrow> mk k v"
    by (auto simp: cache_wf_def)
  then have written: "ws k = Some (v, t, ttl) \<Longrightarrow> wf_json rt v \<and> mk k v" for v t ttl
    unfolding mem.cache_inv_def by blast
  from inv have "l1_map (cm_l1 cm) k = Some (v, e) \<Longrightarrow> \<exists>t ttl. ws k = Some (v, t, ttl)" for v e
    unfolding mem.cache_inv_def by blast
  with written have held: "l1_map (cm_l1 cm) k = Some (v, e) \<Longrightarrow> wf_json rt v \<and> mk k v" for v e
    by blast
  show thesis
  proof (rule mem.cache_get_cases [OF inv, of k])
    fix v
    assume "unexpired now (l1_map (cm_l1 cm) k) = Some v"
      "cache_get in_memory_l2 rt cfg now k cm =
         (Inr (Some v), cm\<lparr>cm_l1 := snd (l1_get now k (cm_l1 cm)), cm_hits := cm_hits cm + 1\<rparr>)"
    then show thesis using held by (intro found [of v]) (auto simp: unexpired_Some)
  next
    fix v t ttl
    assume k: "ws k = Some (v, t, ttl)"
      and eq: "cache_get in_memory_l2 rt cfg now k cm =
         (Inr (not_none v),
          cm\<lparr>cm_l1 := snd (l1_set now k v (cache_l1_ttl_seconds cfg) (snd (l1_get now k (cm_l1 cm)))),
             cm_l2 := snd (l2_get in_memory_l2 now k (cm_l2 cm)), cm_hits := cm_hits cm + 1\<rparr>)"
    show thesis
    proof (cases "v = JNull")
      case True
      show thesis by (rule nothing) (simp add: eq [unfolded True] not_none_def)
    next
      case False
      show thesis
        by (rule found [OF _ written [OF k]]) (simp add: eq False not_none_def)
    qed
  qed (rule nothing, simp)
qed

lemma shared_cache: "shared_wf ev cfg mk s \<Longrightarrow> cache_wf (se_runtime ev) cfg mk (time_of ev s) (cw_cache s)"
  by (simp add: shared_wf_def)

lemma enter_steps:
  "task_steps ev cfg mk s
     (snd (on_cache (cache_now ev) (\<lambda>now. enter_flight in_memory_l2 (se_runtime ev) cfg now k) s))"
proof -
  let ?s1 = "set_cache (snd (cache_get in_memory_l2 (se_runtime ev) cfg (time_of ev s) k (cw_cache s))) s"
  have 1: "task_step ev cfg mk s ?s1" by (rule read_step)
  have 2: "task_step ev cfg mk ?s1 (set_locks (snd (mem_l2_acquire_lock (time_of ev s) (lock_key_of k)
      stampede_lock_ttl_ms (cm_l2 (cw_cache ?s1)))) ?s1)"
    using task_step.locks [of ev cfg mk ?s1 "lock_key_of k" stampede_lock_ttl_ms] by (simp add: set_defs)
  from 1 2 show ?thesis
    by (cases "cache_get in_memory_l2 (se_runtime ev) cfg (time_of ev s) k (cw_cache s)")
       (auto simp: on_cache_set enter_flight_def set_defs split: sum.split option.split prod.split)
qed

lemma enter_typed:
  assumes "shared_wf ev cfg mk s"
    and "fst (on_cache (cache_now ev) (\<lambda>now. enter_flight in_memory_l2 (se_runtime ev) cfg now k) s) = e"
  shows "(\<forall>x. e \<noteq> Failed x) \<and> (\<forall>v. e = Hit v \<longrightarrow> cached_ok ev mk k v)"
proof (rule cache_get_typed [OF shared_cache [OF assms(1)], of k])
  fix v assume "fst (cache_get in_memory_l2 (se_runtime ev) cfg (time_of ev s) k (cw_cache s)) = Inr (Some v)"
    "cached_ok ev mk k v"
  with assms(2) show ?thesis
    by (auto simp: on_cache_fst enter_flight_def case_prod_beta)
next
  assume "fst (cache_get in_memory_l2 (se_runtime ev) cfg (time_of ev s) k (cw_cache s)) = Inr None"
  with assms(2) show ?thesis
    by (auto simp: on_cache_fst enter_flight_def case_prod_beta split: if_splits)
qed

text \<open>What the computation must do, and then what computing and storing does.\<close>

definition sound_compute ::
    "'w server_env \<Rightarrow> settings \<Rightarrow> provenance \<Rightarrow> string \<Rightarrow> ('w shared \<Rightarrow> json outcome \<times> 'w shared) \<Rightarrow> bool" where
  "sound_compute ev cfg mk k compute \<longleftrightarrow>
     (\<forall>s. shared_wf ev cfg mk s \<longrightarrow>
        task_steps ev cfg mk s (snd (compute s)) \<and> typed (cached_ok ev mk k) (fst (compute s)))"

lemma compute_and_store_sound:
  fixes k :: string and ttl :: "int option"
  assumes "sound_compute ev cfg mk k compute" and "shared_wf ev cfg mk s" and "sane_cache cfg"
  defines "res \<equiv> compute_and_store in_memory_l2 (se_runtime ev) cfg (cache_now ev) k ttl compute s"
  shows "task_steps ev cfg mk s (snd res)" and "typed (cached_ok ev mk k) (fst res)"
proof -
  obtain r s1 where c: "compute s = (r, s1)" by fastforce
  with assms(1,2) have s1: "task_steps ev cfg mk s s1" and r: "typed (cached_ok ev mk k) r"
    unfolding sound_compute_def by (metis fst_conv snd_conv)+
  have wf1: "l1_wf (cm_l1 (cw_cache s1))"
    using task_steps_wf [OF s1 assms(3,2)]
    by (auto simp: shared_wf_def cache_wf_def intro: mem.cache_inv_l1)
  show "task_steps ev cfg mk s (snd res)"
  proof (cases r)
    case (Inl x)
    with s1 show ?thesis
      by (simp add: res_def compute_and_store_def c on_cache_set store_computed_def set_defs)
  next
    case (Inr v)
    with r have "task_step ev cfg mk s1
        (set_cache (snd (cache_set in_memory_l2 (se_runtime ev) cfg (time_of ev s1) k v ttl (cw_cache s1))) s1)"
      using task_step.on_key [of ev s1 "Write_Key k v ttl" mk cfg] by (simp add: apply_op_def)
    with s1 Inr show ?thesis
      by (auto simp: res_def compute_and_store_def c on_cache_set store_computed_def mem.cache_set_eq [OF wf1])
  qed
  show "typed (cached_ok ev mk k) (fst res)"
    using r by (cases r) (simp_all add: res_def compute_and_store_def c on_cache_fst store_computed_def
        mem.cache_set_eq [OF wf1])
qed

lemma await_other_sound:
  assumes c: "sound_compute ev cfg mk k compute" and p: "sound_pauses ev cfg mk" and "sane_cache cfg"
  shows "shared_wf ev cfg mk s \<Longrightarrow>
    task_steps ev cfg mk s (snd (await_other in_memory_l2 (se_runtime ev) cfg (cache_now ev) k ttl (se_pause ev) compute n s)) \<and>
    typed (cached_ok ev mk k) (fst (await_other in_memory_l2 (se_runtime ev) cfg (cache_now ev) k ttl (se_pause ev) compute n s))"
proof (induction n arbitrary: s)
  case 0
  with compute_and_store_sound [OF c _ assms(3)] show ?case by simp
next
  case (Suc n)
  obtain r1 s1 where p1: "se_pause ev (of_int stampede_wait_ms / 1000) s = (r1, s1)" by fastforce
  with p have i1: "interruptible r1" and s1: "task_steps ev cfg mk s s1"
    unfolding sound_pauses_def by (metis fst_conv snd_conv)+
  have wf1: "shared_wf ev cfg mk s1" using task_steps_wf [OF s1 assms(3) Suc(2)] by blast
  let ?g = "\<lambda>now. cache_get in_memory_l2 (se_runtime ev) cfg now k"
  obtain r2 s2 where g: "on_cache (cache_now ev) ?g s1 = (r2, s2)" by fastforce
  have "task_step ev cfg mk s1 s2"
    using read_step [of ev cfg mk s1 k] on_cache_set [of ev ?g s1] g by simp
  with s1 have s2: "task_steps ev cfg mk s s2" by simp
  have wf2: "shared_wf ev cfg mk s2" using task_steps_wf [OF s2 assms(3) Suc(2)] by blast
  have r2: "r2 = fst (cache_get in_memory_l2 (se_runtime ev) cfg (time_of ev s1) k (cw_cache s1))"
    using on_cache_fst [of ev ?g s1] g by simp
  show ?case
  proof (cases "r1 = Inr ()")
    case True
    show ?thesis
      by (rule cache_get_typed [OF shared_cache [OF wf1], of k])
         (use True p1 g r2 s2 Suc(1) [OF wf2] in \<open>auto intro: rtranclp_trans\<close>)
  next
    case False
    with i1 p1 s1 show ?thesis by (simp add: interruptible_def)
  qed
qed

lemma get_or_compute_sound:
  fixes k :: string and ttl :: "int option"
  assumes c: "sound_compute ev cfg mk k compute" and p: "sound_pauses ev cfg mk" and "sane_cache cfg"
    and wf: "shared_wf ev cfg mk s"
  defines "res \<equiv> get_or_compute in_memory_l2 (se_runtime ev) cfg (cache_now ev) (se_pause ev) compute k ttl s"
  shows "task_steps ev cfg mk s (snd res) \<and> typed (cached_ok ev mk k) (fst res)"
proof -
  obtain e s1 where en: "on_cache (cache_now ev) (\<lambda>now. enter_flight in_memory_l2 (se_runtime ev) cfg now k) s = (e, s1)"
    by fastforce
  have s1: "task_steps ev cfg mk s s1" using enter_steps [of ev cfg mk s k] en by simp
  have wf1: "shared_wf ev cfg mk s1" using task_steps_wf [OF s1 assms(3) wf] by blast
  have e: "(\<forall>x. e \<noteq> Failed x) \<and> (\<forall>v. e = Hit v \<longrightarrow> cached_ok ev mk k v)"
    using enter_typed [OF wf, of k e] en by simp
  show ?thesis
  proof (cases e)
    case Lead
    obtain r s2 where cs: "compute_and_store in_memory_l2 (se_runtime ev) cfg (cache_now ev) k ttl compute s1 = (r, s2)"
      by fastforce
    have s2: "task_steps ev cfg mk s1 s2" and r: "typed (cached_ok ev mk k) r"
      using compute_and_store_sound [OF c wf1 assms(3), of ttl] cs by simp_all
    have "task_step ev cfg mk s2 (s2\<lparr>cw_cache := release_flight in_memory_l2 k (cw_cache s2)\<rparr>)"
      using task_step.unlocks [of ev cfg mk s2 "lock_key_of k"] by (simp add: set_defs release_flight_def)
    with s1 s2 r Lead show ?thesis
      by (auto simp: res_def get_or_compute_def en cs intro: rtranclp.rtrancl_into_rtrancl rtranclp_trans)
  next
    case Wait
    with await_other_sound [OF c p assms(3) wf1, of ttl stampede_max_waits] s1 show ?thesis
      by (auto simp: res_def get_or_compute_def en intro: rtranclp_trans)
  qed (use e s1 in \<open>simp_all add: res_def get_or_compute_def en\<close>)
qed

end
