(* ===== verification/Server_Invariant.thy ===== *)
theory Server_Invariant
  imports Task_Runs
begin

text \<open>
  The server's invariant and the typing of what it answers: every call, whatever comes of it, is a
  sequence of the steps of \<open>Task_Steps\<close> on the shared state, keeps \<open>server_wf\<close>, and ends with a
  value that can be written as JSON, a \<^verbatim>\<open>ToolError\<close>, a cancellation, or the error of a URL that
  cannot be parsed.
\<close>

section \<open>The observed run\<close>

text \<open>What the server's metrics hold: counts, durations, and the value of a state per breaker.\<close>

definition metrics_wf :: "metrics \<Rightarrow> bool" where
  "metrics_wf m \<longleftrightarrow>
     (\<forall>k. 0 \<le> mt_calls_total m k) \<and> (\<forall>n. \<forall>x \<in> set (mt_latency m n). 0 \<le> x) \<and>
     (\<forall>n. 0 \<le> mt_cache_hits m n) \<and> (\<forall>n. 0 \<le> mt_cache_misses m n) \<and> (\<forall>n. 0 \<le> mt_rate_limited m n) \<and>
     (\<forall>n g. mt_circuit_state m n = Some g \<longrightarrow> (\<exists>st. g = state_value st))"

lemma metrics_wf_steps:
  assumes "metrics_wf m"
  shows "metrics_wf (observe_cache n hit m)" "metrics_wf (observe_rate_limited n m)"
    "metrics_wf (set_circuit_state n st m)" "0 \<le> d \<Longrightarrow> metrics_wf (observe_call n status d m)"
  using assms
  by (auto simp: metrics_wf_def observe_cache_def observe_rate_limited_def set_circuit_state_def
      observe_call_def increment_def)

definition shared_of :: "'w server \<Rightarrow> 'w \<Rightarrow> 'w shared" where
  "shared_of sv w = \<lparr>cw_cache = sv_cache sv, cw_rest = backend_of sv w\<rparr>"

definition put_shared :: "'w shared \<Rightarrow> 'w server \<Rightarrow> 'w server" where
  "put_shared s sv = put_backend (cw_rest s) (sv\<lparr>sv_cache := cw_cache s\<rparr>)"

lemma shared_of_put [simp]: "shared_of (put_shared s sv) (bk_world (cw_rest s)) = s"
  by (simp add: shared_of_def put_shared_def put_backend_def backend_of_def)

lemma put_shared_frame [simp]:
  "sv_settings (put_shared s sv) = sv_settings sv" "sv_registry (put_shared s sv) = sv_registry sv"
  "sv_buckets (put_shared s sv) = sv_buckets sv" "sv_approvals (put_shared s sv) = sv_approvals sv"
  "sv_metrics (put_shared s sv) = sv_metrics sv"
  by (simp_all add: put_shared_def put_backend_def)

lemma time_of_shared [simp]: "time_of ev (shared_of sv w) = se_clock ev w"
  by (simp add: shared_of_def backend_of_def)

text \<open>A tool is covered by a provenance that holds of everything it computes, under its key.\<close>

definition covers :: "'w server_env \<Rightarrow> provenance \<Rightarrow> 'w tool \<Rightarrow> bool" where
  "covers ev mk t \<longleftrightarrow> (\<forall>tenant a v. ran t tenant a v \<longrightarrow> mk (cache_key (se_runtime ev) t tenant a) v)"

definition tools_sound :: "'w server_env \<Rightarrow> provenance \<Rightarrow> 'w registry \<Rightarrow> bool" where
  "tools_sound ev mk rg \<longleftrightarrow> (\<forall>t \<in> snd ` set (rg_tools rg). sound_tool ev t \<and> covers ev mk t)"

definition server_wf :: "'w server_env \<Rightarrow> provenance \<Rightarrow> 'w \<Rightarrow> 'w server \<Rightarrow> bool" where
  "server_wf ev mk w sv \<longleftrightarrow>
     registry_wf (sv_registry sv) \<and> mem_inv (sv_buckets sv) \<and>
     gate_wf (se_runtime ev) (sv_approvals sv) \<and> metrics_wf (sv_metrics sv) \<and>
     shared_wf ev (sv_settings sv) mk (shared_of sv w)"

definition sane_settings :: "settings \<Rightarrow> bool" where
  "sane_settings cfg \<longleftrightarrow> sane_cache cfg \<and> sane_limits cfg \<and> 1 \<le> retry_max_attempts cfg"

definition sound_env :: "'w server_env \<Rightarrow> settings \<Rightarrow> provenance \<Rightarrow> bool" where
  "sound_env ev cfg mk \<longleftrightarrow> sound_sleeps ev \<and> sound_pauses ev cfg mk"

abbreviation key_for :: "'w server_env \<Rightarrow> 'w tool \<Rightarrow> tool_call_envelope \<Rightarrow> args \<Rightarrow> string" where
  "key_for ev t envelope vargs \<equiv> cache_key (se_runtime ev) t (env_tenant envelope) vargs"

lemma typed_mono: "typed p r \<Longrightarrow> (\<And>v. p v \<Longrightarrow> q v) \<Longrightarrow> typed q r"
  by (cases "(p, r)" rule: typed.cases) auto

lemma execute_reliably_answer:
  assumes "sound_tool ev t" and "covers ev mk t" and "sound_env ev cfg' mk" and "sane_settings cfg"
  shows "typed_args (cached_ok ev mk (key_for ev t envelope vargs))
    (fst (execute_reliably ev cfg t envelope vargs st))"
proof (rule typed_mono [OF execute_reliably_typed])
  show "sound_sleeps ev" "1 \<le> retry_max_attempts cfg"
    using assms(3,4) by (simp_all add: sound_env_def sane_settings_def)
  fix v assume "ran t (env_tenant envelope) vargs v"
  with assms(1,2) show "cached_ok ev mk (key_for ev t envelope vargs) v"
    by (auto simp: covers_def intro: sound_tool_ran)
qed

lemma compute_for_sound:
  assumes "sound_tool ev t" and "covers ev mk t" and "sound_env ev cfg mk" and "sane_settings cfg"
  shows "sound_compute ev cfg mk (key_for ev t envelope vargs) (compute_for ev cfg t envelope vargs)"
proof -
  have "task_steps ev cfg mk s (snd (compute_for ev cfg t envelope vargs s))" if "shared_wf ev cfg mk s" for s
    using execute_reliably_steps [OF assms(1), of cfg "time_of ev s" s mk envelope vargs] that assms(3)
    by (simp add: shared_wf_def sound_env_def compute_for_def with_rest_def case_prod_beta)
  then show ?thesis
    using execute_reliably_answer [OF assms]
    by (simp add: sound_compute_def compute_for_def case_prod_beta)
qed

text \<open>The server after the run is the one before it with the shared state moved on by steps.\<close>

lemma run_cached_sound:
  assumes tool: "sound_tool ev t" and cov: "covers ev mk t" and env: "sound_env ev (sv_settings sv) mk"
    and sane: "sane_settings (sv_settings sv)" and wf: "shared_wf ev (sv_settings sv) mk (shared_of sv w)"
  obtains s m where "task_steps ev (sv_settings sv) mk (shared_of sv w) s"
    "snd (run_cached ev t envelope vargs sv w) = (put_shared s sv\<lparr>sv_metrics := m\<rparr>, bk_world (cw_rest s))"
    "metrics_wf (sv_metrics sv) \<longrightarrow> metrics_wf m"
    "typed (cached_ok ev mk (key_for ev t envelope vargs)) (fst (run_cached ev t envelope vargs sv w))"
proof (cases "cache_enabled (sv_settings sv) \<and> cacheable t")
  case True
  let ?cfg = "sv_settings sv"
  let ?res = "get_or_compute in_memory_l2 (se_runtime ev) ?cfg (cache_now ev) (se_pause ev)
      (compute_for ev ?cfg t envelope vargs) (key_for ev t envelope vargs)
      (Some (cache_ttl_seconds t)) (shared_of sv w)"
  have res: "task_steps ev ?cfg mk (shared_of sv w) (snd ?res)
      \<and> typed (cached_ok ev mk (key_for ev t envelope vargs)) (fst ?res)"
    using get_or_compute_sound [OF compute_for_sound [OF tool cov env sane] _ _ wf] env sane
    by (simp add: sound_env_def sane_settings_def)
  obtain r cw where g: "?res = (r, cw)" by fastforce
  let ?hit = "cm_hits (sv_cache sv) < cm_hits (cw_cache cw)"
  let ?m = "case r of Inl x \<Rightarrow> sv_metrics sv | Inr v \<Rightarrow> observe_cache (tm_name (tl_meta t)) ?hit (sv_metrics sv)"
  have "run_cached ev t envelope vargs sv w = (r, put_shared cw sv\<lparr>sv_metrics := ?m\<rparr>, bk_world (cw_rest cw))"
    using True g by (cases r) (simp_all add: run_cached_def Let_def shared_of_def put_shared_def put_backend_def)
  moreover have "metrics_wf (sv_metrics sv) \<longrightarrow> metrics_wf ?m"
    by (simp add: metrics_wf_steps split: sum.split)
  ultimately show thesis using that [of cw ?m] res g by simp
next
  case False
  let ?cfg = "sv_settings sv"
  obtain r st where x: "execute_reliably ev ?cfg t envelope vargs (backend_of sv w) = (r, st)" by fastforce
  have "task_steps ev ?cfg mk (shared_of sv w) (with_rest st (shared_of sv w))"
    using execute_reliably_steps [OF tool, of ?cfg "se_clock ev w" "shared_of sv w" mk envelope vargs] env wf x
    by (simp add: sound_env_def shared_wf_def) (simp add: shared_of_def)
  moreover have "typed_args (cached_ok ev mk (key_for ev t envelope vargs)) r"
    using execute_reliably_answer [OF tool cov env sane, of envelope vargs "backend_of sv w"] x by simp
  moreover have "run_cached ev t envelope vargs sv w =
      (json_result r, put_shared (with_rest st (shared_of sv w)) sv\<lparr>sv_metrics := sv_metrics sv\<rparr>, bk_world st)"
    using False x by (auto simp: run_cached_def Let_def put_shared_def put_backend_def with_rest_def shared_of_def)
  ultimately show thesis
    using that [of "with_rest st (shared_of sv w)" "sv_metrics sv"] by (simp add: with_rest_def)
qed


lemma observe_sound:
  assumes wf: "shared_wf ev (sv_settings sv) mk (shared_of sv w)" and m: "metrics_wf (sv_metrics sv)"
    and "started \<le> se_clock ev w" and sv'_def: "sv' = observe ev t envelope started r w sv"
  shows "task_steps ev (sv_settings sv) mk (shared_of sv w) (shared_of sv' w)" and "metrics_wf (sv_metrics sv')"
proof -
  let ?n = "tm_name (tl_meta t)"
  have "shared_of sv' w = set_breakers (snd (for_tool (sv_settings sv) ?n (sv_breakers sv))) (shared_of sv w)"
    by (simp add: sv'_def observe_def shared_of_def backend_of_def set_defs Let_def split: prod.split)
  then show "task_steps ev (sv_settings sv) mk (shared_of sv w) (shared_of sv' w)"
    using task_step.finds [of ev "sv_settings sv" mk "shared_of sv w" ?n]
    by (simp add: shared_of_def backend_of_def)
  show "metrics_wf (sv_metrics sv')"
    using m assms(3) by (simp add: sv'_def observe_def metrics_wf_steps Let_def split: prod.split)
qed

lemma observe_frame:
  "sv_settings (observe ev t envelope started r w sv) = sv_settings sv"
  "sv_registry (observe ev t envelope started r w sv) = sv_registry sv"
  "sv_buckets (observe ev t envelope started r w sv) = sv_buckets sv"
  "sv_approvals (observe ev t envelope started r w sv) = sv_approvals sv"
  by (simp_all add: observe_def Let_def split: prod.split)

lemma run_observed_sound:
  assumes tool: "sound_tool ev t" and cov: "covers ev mk t" and env: "sound_env ev (sv_settings sv) mk"
    and sane: "sane_settings (sv_settings sv)"
    and wf: "server_wf ev mk w sv" and run: "run_observed ev t envelope vargs sv w = (r, sv', w')"
  shows "typed (cached_ok ev mk (key_for ev t envelope vargs)) r \<and> server_wf ev mk w' sv' \<and> sv_settings sv' = sv_settings sv
    \<and> sv_registry sv' = sv_registry sv
    \<and> task_steps ev (sv_settings sv) mk (shared_of sv w) (shared_of sv' w')"
proof -
  have shared: "shared_wf ev (sv_settings sv) mk (shared_of sv w)" and m: "metrics_wf (sv_metrics sv)"
    using wf by (simp_all add: server_wf_def)
  obtain s m' where s: "task_steps ev (sv_settings sv) mk (shared_of sv w) s"
    and c: "snd (run_cached ev t envelope vargs sv w) = (put_shared s sv\<lparr>sv_metrics := m'\<rparr>, bk_world (cw_rest s))"
    and m': "metrics_wf m'"
    and ty: "typed (cached_ok ev mk (key_for ev t envelope vargs)) (fst (run_cached ev t envelope vargs sv w))"
    using run_cached_sound [OF tool cov env sane shared] m by metis
  let ?sv1 = "put_shared s sv\<lparr>sv_metrics := m'\<rparr>"
  have sh1: "shared_of ?sv1 (bk_world (cw_rest s)) = s"
    by (simp add: shared_of_def put_shared_def put_backend_def backend_of_def)
  have frame: "sv_settings ?sv1 = sv_settings sv" "sv_registry ?sv1 = sv_registry sv"
    "sv_buckets ?sv1 = sv_buckets sv" "sv_approvals ?sv1 = sv_approvals sv"
    by simp_all
  have wf1: "shared_wf ev (sv_settings sv) mk s" and later: "se_clock ev w \<le> time_of ev s"
    using task_steps_wf [OF s _ shared] sane by (simp_all add: sane_settings_def)
  have r: "r = fst (run_cached ev t envelope vargs sv w)" and w': "w' = bk_world (cw_rest s)"
    and sv': "sv' = observe ev t envelope (se_clock ev w) r w' ?sv1"
    using run c by (auto simp: run_observed_split)
  have o: "task_steps ev (sv_settings sv) mk s (shared_of sv' w')" "metrics_wf (sv_metrics sv')"
    using observe_sound [of ev ?sv1 mk w' "se_clock ev w" sv' t envelope r] sv' wf1 m' later frame sh1
    by (simp_all add: w')
  have "shared_wf ev (sv_settings sv) mk (shared_of sv' w')"
    using task_steps_wf [OF o(1) _ wf1] sane by (simp add: sane_settings_def)
  moreover have "sv_settings sv' = sv_settings sv" "sv_registry sv' = sv_registry sv"
    "sv_buckets sv' = sv_buckets sv" "sv_approvals sv' = sv_approvals sv"
    by (simp_all add: sv' observe_frame frame)
  ultimately show ?thesis
    using wf ty r o rtranclp_trans [OF s o(1)] by (simp add: server_wf_def)
qed

section \<open>Dispatch\<close>

text \<open>A guard that keeps no state raises a \<^verbatim>\<open>ToolError\<close>; only the parser of URLs does not.\<close>

fun guard_error :: "exc \<Rightarrow> bool" where
  "guard_error (Tool_Exc e) = True"
| "guard_error Cancelled = True"
| "guard_error (Py_Exc ty msg) = (ty = ''ValueError'' \<and> msg = ''Invalid IPv6 URL'')"

lemma guards_typed:
  "get_tool rg n = Inl x \<Longrightarrow> guard_error x"
  "validate rt t a = Inl x \<Longrightarrow> guard_error x"
  "scope_guard ctx rs = Inl x \<Longrightarrow> guard_error x"
  "policy_check pe sb tn ac rs' pc = Inl x \<Longrightarrow> guard_error x"
  "http_guard br al tn va = Inl x \<Longrightarrow> guard_error x"
proof -
  show "get_tool rg n = Inl x \<Longrightarrow> guard_error x"
    by (auto simp: get_tool_def split: option.splits)
  have "bound_argument_tree rt a = Inl y \<Longrightarrow> guard_error y" for y
    by (auto simp: bound_argument_tree_def invalid_arguments_def too_deep_def too_many_keys_def
        too_many_items_def Let_def split: sum.splits if_splits dest!: check_depth_error(1))
  then show "validate rt t a = Inl x \<Longrightarrow> guard_error x"
    by (auto simp: validate_def invalid_tool_arguments_def invalid_arguments_def
        split: sum.splits schema_result.splits exc.splits if_splits)
  show "scope_guard ctx rs = Inl x \<Longrightarrow> guard_error x"
    by (induction ctx rs rule: scope_guard.induct) (auto simp: insufficient_scope_def split: if_splits)
  show "policy_check pe sb tn ac rs' pc = Inl x \<Longrightarrow> guard_error x"
    by (auto simp: policy_check_def denied_by_policy_def not_authorized_def Let_def
        split: prod.splits list.splits if_splits)
  show "http_guard br al tn va = Inl x \<Longrightarrow> guard_error x"
    by (auto simp: http_guard_def url_hostname_def allowlist_check_def host_error_def Let_def
        split: option.splits json.splits sum.splits if_splits)
qed

lemma rate_guard_sound:
  assumes "server_wf ev mk w sv" and "sane_limits (sv_settings sv)" and "rate_guard ev t envelope sv w = (r, sv')"
  shows "server_wf ev mk w sv' \<and> (\<forall>x. r = Inl x \<longrightarrow> guard_error x)"
proof -
  have "memory.served (sv_settings sv) (tm_name (tl_meta t))"
    using assms(2) by (rule memory_served)
  moreover have "mem_inv (sv_buckets sv)" using assms(1) by (simp add: server_wf_def)
  ultimately have inv: "mem_inv (snd (acquire mem_consume (sv_settings sv) (sv_buckets sv) (env_tenant envelope)
      (tm_name (tl_meta t)) 1 (se_wall ev w)))"
    by (intro memory.acquire_inv) simp_all
  have x: "acquire mem_consume cfg s tn tl c time = (Inl x, s') \<Longrightarrow> guard_error x" for cfg s tn tl c time x s'
    by (auto simp: acquire_def Let_def split: prod.splits if_splits)
  obtain ra bks where a: "acquire mem_consume (sv_settings sv) (sv_buckets sv) (env_tenant envelope)
      (tm_name (tl_meta t)) 1 (se_wall ev w) = (ra, bks)" by fastforce
  have "r = Inl y \<Longrightarrow> guard_error y" for y
    using assms(3) x a by (auto simp: rate_guard_def split: if_splits sum.splits)
  moreover have "server_wf ev mk w sv'"
    using assms(1,3) inv a
    by (auto simp: rate_guard_def server_wf_def shared_of_def backend_of_def metrics_wf_steps Let_def
        split: if_splits sum.splits exc.splits)
  ultimately show ?thesis by blast
qed

lemma approval_guard_sound:
  assumes wf: "server_wf ev mk w sv" and "approval_guard ev t envelope sv w = (r, sv')"
  shows "server_wf ev mk w sv' \<and> (\<forall>x. r = Inl x \<longrightarrow> guard_error x)"
proof -
  let ?q = "approval_request_of t envelope"
  obtain re st where e: "enforce (se_runtime ev) (se_clock ev w) (se_stamp ev w) ?q (sv_approvals sv) = (re, st)"
    by fastforce
  have g: "gate_wf (se_runtime ev) (sv_approvals sv)" using wf by (simp add: server_wf_def)
  have "gate_wf (se_runtime ev) st"
    using gate_step_wf [OF g, of "(se_clock ev w, Enforced (se_stamp ev w) ?q)"] e by simp
  moreover have "re = Inl x \<Longrightarrow> guard_error x" for x
    using e by (cases rule: enforce_cases [OF g, of "se_clock ev w" ?q "se_stamp ev w"]) (auto split: if_splits)
  ultimately show ?thesis
    using assms e by (auto simp: approval_guard_def server_wf_def shared_of_def backend_of_def split: if_splits)
qed


lemma guards_core_same:
  assumes "same_core a b"
  shows "shared_of a w = shared_of b w" "sv_settings a = sv_settings b" "sv_registry a = sv_registry b"
  using assms by (simp_all add: same_core_def shared_of_def backend_of_def)

lemma typed_guard_error: "typed ok (Inl x) \<Longrightarrow> guard_error x"
  by (cases x) simp_all

text \<open>
  What \<open>dispatch\<close> may answer: the value of an admitted call, made for the key of its tool, tenant
  and arguments; or an error a guard may raise.
\<close>

definition answered ::
    "'w server_env \<Rightarrow> provenance \<Rightarrow> request_context \<Rightarrow> tool_call_envelope \<Rightarrow> 'w server \<Rightarrow> json outcome \<Rightarrow> bool" where
  "answered ev mk ctx envelope sv r \<longleftrightarrow>
     (case r of
        Inl x \<Rightarrow> guard_error x
      | Inr v \<Rightarrow> \<exists>t vargs. admitted ev ctx envelope sv t vargs \<and> cached_ok ev mk (key_for ev t envelope vargs) v)"

lemma tools_soundD: "tools_sound ev mk rg \<Longrightarrow> get_tool rg n = Inr t \<Longrightarrow> sound_tool ev t \<and> covers ev mk t"
  by (force simp: tools_sound_def get_tool_def dest: map_of_SomeD split: option.splits)

lemma dispatch_sound:
  assumes wf: "server_wf ev mk w sv" and tools: "tools_sound ev mk (sv_registry sv)"
    and env: "sound_env ev (sv_settings sv) mk" and sane: "sane_settings (sv_settings sv)"
    and run: "dispatch ev ctx envelope sv w = (r, sv', w')"
  shows "answered ev mk ctx envelope sv r \<and> server_wf ev mk w' sv' \<and> sv_settings sv' = sv_settings sv
    \<and> sv_registry sv' = sv_registry sv
    \<and> task_steps ev (sv_settings sv) mk (shared_of sv w) (shared_of sv' w')"
proof (rule dispatch_cases [of ev ctx envelope sv w])
  fix x
  assume d: "dispatch ev ctx envelope sv w = (Inl x, sv, w)"
    and n: "\<And>t vargs. \<not> admitted ev ctx envelope sv t vargs"
  have "guard_error x"
    using d n guards_typed by (fastforce simp: dispatch_def admitted_def split: sum.splits)
  with d run wf show ?thesis by (simp add: answered_def)
next
  fix t vargs
  assume adm: "admitted ev ctx envelope sv t vargs"
    and d: "dispatch ev ctx envelope sv w =
         (case rate_guard ev t envelope sv w of
            (Inl x, sv1) \<Rightarrow> (Inl x, sv1, w)
          | (Inr _, sv1) \<Rightarrow>
              (case approval_guard ev t envelope sv1 w of
                 (Inl x, sv2) \<Rightarrow> (Inl x, sv2, w)
               | (Inr _, sv2) \<Rightarrow> run_observed ev t envelope vargs sv2 w))"
  have tool: "sound_tool ev t" "covers ev mk t"
    using tools_soundD [OF tools] adm unfolding admitted_def by blast+
  obtain r1 sv1 where g1: "rate_guard ev t envelope sv w = (r1, sv1)" by fastforce
  obtain r2 sv2 where g2: "approval_guard ev t envelope sv1 w = (r2, sv2)" by fastforce
  have s1: "server_wf ev mk w sv1 \<and> (\<forall>x. r1 = Inl x \<longrightarrow> guard_error x)"
    using rate_guard_sound [OF wf _ g1] sane by (simp add: sane_settings_def)
  with approval_guard_sound [OF _ g2]
  have s2: "server_wf ev mk w sv2 \<and> (\<forall>x. r2 = Inl x \<longrightarrow> guard_error x)" by blast
  have "same_core sv1 sv" using rate_guard_core(1) [of ev t envelope sv w] g1 by simp
  note c1 = guards_core_same [OF this]
  have "same_core sv2 sv1" using approval_guard_core [of ev t envelope sv1 w] g2 by simp
  note c2 = guards_core_same [OF this]
  show ?thesis
  proof (cases "is_ok r1 \<and> is_ok r2")
    case True
    then have "run_observed ev t envelope vargs sv2 w = (r, sv', w')"
      using d run g1 g2 by (auto simp: res_simps)
    from run_observed_sound [OF tool _ _ _ this] s2 env sane c1 c2 adm show ?thesis
      by (cases r) (auto simp: answered_def intro: typed_guard_error)
  next
    case False
    then show ?thesis
      using d run g1 g2 s1 s2 c1 c2 by (cases r1; cases r2) (auto simp: answered_def)
  qed
qed

section \<open>The life of a server\<close>

text \<open>
  From its start a server dispatches calls, decides on approvals, drops cached keys and prefixes,
  and lets time pass; a call is one step here, with what other tasks do in its pauses inside.
\<close>

definition decide :: "(rat \<times> gate_event) \<Rightarrow> 'w server_env \<Rightarrow> 'w server \<Rightarrow> 'w server" where
  "decide e ev sv = sv\<lparr>sv_approvals := gate_step (se_runtime ev) e (sv_approvals sv)\<rparr>"

inductive server_run :: "'w server_env \<Rightarrow> provenance \<Rightarrow> 'w server \<times> 'w \<Rightarrow> 'w server \<times> 'w \<Rightarrow> bool"
  for ev mk s0 where
  starts: "server_run ev mk s0 s0"
| calls: "server_run ev mk s0 (sv, w) \<Longrightarrow> dispatch ev ctx envelope sv w = (r, sv', w') \<Longrightarrow>
    server_run ev mk s0 (sv', w')"
| decides: "server_run ev mk s0 (sv, w) \<Longrightarrow> server_run ev mk s0 (decide e ev sv, w)"
| others: "server_run ev mk s0 (sv, w) \<Longrightarrow> task_steps ev (sv_settings sv) mk (shared_of sv w) s \<Longrightarrow>
    server_run ev mk s0 (put_shared s sv, bk_world (cw_rest s))"

lemma discover_wf: "registry_wf rg \<Longrightarrow> registry_wf (snd (discover builtin rg))"
  using register_all_wf [of rg builtin]
  by (auto simp: discover_def registry_wf_def split: prod.split sum.split)

lemma fresh_parts_wf:
  "metrics_wf new_metrics" "breakers_wf cfg now []" "tracker_wf (at_tracker (new_atba ms))"
  "counters_wf new_rel_metrics"
  by (simp_all add: metrics_wf_def new_metrics_def breakers_wf_def tracker_wf_def new_atba_def
      counters_wf_def new_rel_metrics_def)

lemma new_server_wf:
  assumes "sane_settings cfg" and "startup builtin (new_server cfg rules domains audit_file) = (r, sv)"
  shows "server_wf ev mk w sv \<and> sv_settings sv = cfg"
proof -
  let ?sv = "new_server cfg rules domains audit_file"
  have inv: "mem.cache_inv (se_runtime ev) cfg (se_clock ev w) Map.empty (new_cache cfg new_mem_l2)"
    using mem.history_inv [of "[]" "se_runtime ev" "se_clock ev w" cfg new_mem_l2] assms(1)
    by (simp add: sane_settings_def sane_cache_def new_mem_l2_def)
  have "cache_wf (se_runtime ev) cfg mk (se_clock ev w) (new_cache cfg new_mem_l2)"
    unfolding cache_wf_def using inv
    by (intro conjI exI [of _ Map.empty]) (simp_all add: new_cache_def)
  moreover obtain rg where "registry_wf rg" "sv = ?sv\<lparr>sv_registry := rg\<rparr>"
    using assms(2) discover_wf [OF registry_wf_new, of builtin]
    by (force simp: startup_def new_server_def split: prod.splits)
  ultimately show ?thesis
    by (simp add: new_server_def server_wf_def shared_wf_def shared_of_def backend_of_def fresh_parts_wf)
qed

lemma server_run_wf:
  assumes "server_run ev mk (sv0, w0) p" and "sane_settings cfg" and "sound_env ev cfg mk"
    and "server_wf ev mk w0 sv0" and "sv_settings sv0 = cfg" and "tools_sound ev mk (sv_registry sv0)"
  shows "server_wf ev mk (snd p) (fst p) \<and> sv_settings (fst p) = cfg \<and> sv_registry (fst p) = sv_registry sv0"
  using assms(1)
proof (induction rule: server_run.induct)
  case starts
  then show ?case using assms by simp
next
  case (calls sv w ctx envelope r sv' w')
  from dispatch_sound [OF _ _ _ _ calls(2)] calls(3) assms(2,3,6) show ?case by auto
next
  case (decides sv w e)
  then show ?case
    by (auto simp: server_wf_def decide_def shared_of_def backend_of_def intro: gate_step_wf)
next
  case (others sv w s)
  then have "shared_wf ev cfg mk s"
    using task_steps_wf [OF others(2)] assms(2) by (auto simp: server_wf_def sane_settings_def)
  with others(3) show ?case
    by (auto simp: server_wf_def)
qed

lemma startup_tools:
  assumes "startup builtin (new_server cfg rules domains audit_file) = (r, sv)"
  shows "snd ` set (rg_tools (sv_registry sv)) \<subseteq> set builtin"
proof -
  have all: "snd ` set (rg_tools (snd (register_all ts rg))) \<subseteq> snd ` set (rg_tools rg) \<union> set ts" for ts rg
  proof (induction ts arbitrary: rg)
    case (Cons t ts)
    obtain r1 rg1 where r1: "register_tool t rg = (r1, rg1)" by fastforce
    have one: "snd ` set (rg_tools (snd (register_tool t rg))) \<subseteq> insert t (snd ` set (rg_tools rg))"
      by (auto simp: register_tool_def Let_def update_fresh)
    have "snd ` set (rg_tools (snd (register_all (t # ts) rg))) \<subseteq> snd ` set (rg_tools rg1) \<union> set ts"
      using Cons.IH [of rg1] r1 by (cases r1) simp_all
    from order_trans [OF this Un_mono [OF one [unfolded r1 snd_conv] order_refl]] show ?case
      by simp
  qed simp
  have "rg_tools (sv_registry sv) = rg_tools (snd (register_all builtin new_registry))"
    using assms
    by (auto simp: startup_def discover_def new_server_def new_registry_def
        split: prod.splits sum.splits if_splits)
  with all [of builtin new_registry] show ?thesis
    by (simp add: new_registry_def)
qed

text \<open>What was computed by some run of one of the tools, under the key of that run.\<close>

definition computed :: "'w server_env \<Rightarrow> 'w tool list \<Rightarrow> provenance" where
  "computed ev builtin k v \<longleftrightarrow>
     (\<exists>t \<in> set builtin. \<exists>tenant a. k = cache_key (se_runtime ev) t tenant a \<and> ran t tenant a v)"

lemma computed_covers: "t \<in> set builtin \<Longrightarrow> covers ev (computed ev builtin) t"
  by (auto simp: covers_def computed_def)

text \<open>A server that was started on sound tools and has run since.\<close>

definition lives :: "'w server_env \<Rightarrow> settings \<Rightarrow> 'w tool list \<Rightarrow> 'w server \<Rightarrow> 'w \<Rightarrow> bool" where
  "lives ev cfg builtin sv w \<longleftrightarrow>
     (\<exists>rules domains audit_file r sv0 w0.
        startup builtin (new_server cfg rules domains audit_file) = (r, sv0) \<and>
        server_run ev (computed ev builtin) (sv0, w0) (sv, w))"


text \<open>
  The conditions on what the server is given: settings that make sense, a clock and sleeps as
  documented, pauses in which only other tasks of this kind act, and tools whose values are JSON.
\<close>

definition sound_setup :: "'w server_env \<Rightarrow> settings \<Rightarrow> 'w tool list \<Rightarrow> bool" where
  "sound_setup ev cfg builtin \<longleftrightarrow>
     sane_settings cfg \<and> sound_env ev cfg (computed ev builtin) \<and> (\<forall>t \<in> set builtin. sound_tool ev t)"

lemma lives_wf:
  assumes "sound_setup ev cfg builtin" and "lives ev cfg builtin sv w"
  shows "server_wf ev (computed ev builtin) w sv \<and> sv_settings sv = cfg
    \<and> tools_sound ev (computed ev builtin) (sv_registry sv)
    \<and> snd ` set (rg_tools (sv_registry sv)) \<subseteq> set builtin"
proof -
  let ?mk = "computed ev builtin"
  from assms(2) obtain rules domains audit_file r sv0 w0
    where s: "startup builtin (new_server cfg rules domains audit_file) = (r, sv0)"
      and run: "server_run ev ?mk (sv0, w0) (sv, w)"
    unfolding lives_def by blast
  have sane: "sane_settings cfg" "sound_env ev cfg ?mk" "\<And>t. t \<in> set builtin \<Longrightarrow> sound_tool ev t"
    using assms(1) by (simp_all add: sound_setup_def)
  have sub: "snd ` set (rg_tools (sv_registry sv0)) \<subseteq> set builtin" by (rule startup_tools [OF s])
  then have ts: "tools_sound ev ?mk (sv_registry sv0)"
    using sane(3) computed_covers unfolding tools_sound_def by blast
  have wf0: "server_wf ev ?mk w0 sv0" "sv_settings sv0 = cfg"
    using new_server_wf [OF sane(1) s] by blast+
  from server_run_wf [OF run sane(1,2) wf0 ts] sub ts show ?thesis by simp
qed

lemma lives_dispatch:
  assumes "sound_setup ev cfg builtin" and "lives ev cfg builtin sv w"
    and "dispatch ev ctx envelope sv w = (r, sv', w')"
  shows "answered ev (computed ev builtin) ctx envelope sv r"
    and "task_steps ev cfg (computed ev builtin) (shared_of sv w) (shared_of sv' w')"
  using dispatch_sound [OF _ _ _ _ assms(3), of "computed ev builtin"] lives_wf [OF assms(1,2)] assms(1)
  by (simp_all add: sound_setup_def)

lemma lives_passes:
  assumes "lives ev cfg builtin sv w" and "se_clock ev w \<le> se_clock ev w1"
  shows "lives ev cfg builtin sv w1"
proof -
  let ?s = "set_world w1 (shared_of sv w)"
  have "task_steps ev (sv_settings sv) mk (shared_of sv w) ?s" for mk
    using assms(2) by (intro r_into_rtranclp task_step.passes) (simp add: shared_of_def backend_of_def)
  from server_run.others [OF _ this] have
    "server_run ev mk s0 (sv, w) \<Longrightarrow> server_run ev mk s0 (put_shared ?s sv, bk_world (cw_rest ?s))" for mk s0 .
  moreover have "put_shared ?s sv = sv" "bk_world (cw_rest ?s) = w1"
    by (simp_all add: put_shared_def put_backend_def set_world_def shared_of_def backend_of_def)
  ultimately show ?thesis using assms(1) unfolding lives_def by metis
qed

lemma lives_dispatched:
  assumes "lives ev cfg builtin sv w" and "dispatch ev ctx envelope sv w = (r, sv', w')"
  shows "lives ev cfg builtin sv' w'"
  using assms unfolding lives_def by (meson server_run.calls)

text \<open>The parts of a cache key.\<close>

definition args_digest :: "runtime \<Rightarrow> args \<Rightarrow> string" where
  "args_digest rt a = take 24 (sha256_hex rt (dumps_sorted rt (JObj [(''args'', JObj a)])))"

lemma cache_key_parts:
  assumes "cache_key rt t1 n1 a1 = cache_key rt t2 n2 a2"
    and "CHR '':'' \<notin> set (tm_name (tl_meta t1))" and "CHR '':'' \<notin> set (tm_name (tl_meta t2))"
    and "\<And>s. CHR '':'' \<notin> set (sha256_hex rt s)"
  shows "n1 = n2 \<and> tm_name (tl_meta t1) = tm_name (tl_meta t2) \<and> args_digest rt a1 = args_digest rt a2"
proof -
  have d: "CHR '':'' \<notin> set (args_digest rt a)" for a
    using assms(4) by (auto simp: args_digest_def dest: in_set_takeD)
  from assms(1) have "(n1 @ CHR '':'' # tm_name (tl_meta t1)) @ CHR '':'' # args_digest rt a1 =
      (n2 @ CHR '':'' # tm_name (tl_meta t2)) @ CHR '':'' # args_digest rt a2"
    by (simp add: cache_key_def args_digest_def Let_def)
  from append_sep_eq [OF this d d]
  have "n1 @ CHR '':'' # tm_name (tl_meta t1) = n2 @ CHR '':'' # tm_name (tl_meta t2)"
    "args_digest rt a1 = args_digest rt a2" by auto
  with append_sep_eq [OF this(1) assms(2,3)] show ?thesis by simp
qed

text \<open>What a call answers was returned by a run of its tool, for its tenant.\<close>

lemma answer_origin:
  assumes "sound_setup ev cfg builtin" and "lives ev cfg builtin sv w"
    and "dispatch ev ctx envelope sv w = (Inr v, sv', w')"
    and inj: "inj_on (\<lambda>t. tm_name (tl_meta t)) (set builtin)"
    and colon: "\<And>t. t \<in> set builtin \<Longrightarrow> CHR '':'' \<notin> set (tm_name (tl_meta t))"
    and hex: "\<And>s. CHR '':'' \<notin> set (sha256_hex (se_runtime ev) s)"
  shows "\<exists>t vargs run_args. t \<in> set builtin \<and> tm_name (tl_meta t) = env_tool envelope
    \<and> admitted ev ctx envelope sv t vargs \<and> ran t (env_tenant envelope) run_args v
    \<and> args_digest (se_runtime ev) run_args = args_digest (se_runtime ev) vargs"
proof -
  obtain t vargs where adm: "admitted ev ctx envelope sv t vargs"
    and made: "computed ev builtin (key_for ev t envelope vargs) v"
    using lives_dispatch(1) [OF assms(1-3)] by (auto simp: answered_def)
  then have reg: "(env_tool envelope, t) \<in> set (rg_tools (sv_registry sv))"
    by (auto simp: admitted_def get_tool_def dest: map_of_SomeD split: option.splits)
  have name: "tm_name (tl_meta t) = env_tool envelope"
    using lives_wf [OF assms(1,2)] reg by (auto simp: server_wf_def registry_wf_def)
  from reg have "t \<in> snd ` set (rg_tools (sv_registry sv))" by force
  then have t: "t \<in> set builtin"
    using lives_wf [OF assms(1,2)] by blast
  from made obtain t' tenant a where t': "t' \<in> set builtin"
    and key: "key_for ev t envelope vargs = cache_key (se_runtime ev) t' tenant a" and ran: "ran t' tenant a v"
    by (auto simp: computed_def)
  from cache_key_parts [OF key colon [OF t] colon [OF t'] hex]
  have eq: "env_tenant envelope = tenant" "tm_name (tl_meta t) = tm_name (tl_meta t')"
    "args_digest (se_runtime ev) vargs = args_digest (se_runtime ev) a" by auto
  have "t' = t" using inj_onD [OF inj eq(2) t t'] by (rule sym)
  with ran eq have "ran t (env_tenant envelope) a v"
    "args_digest (se_runtime ev) a = args_digest (se_runtime ev) vargs" by simp_all
  with t name adm show ?thesis by blast
qed

section \<open>Properties\<close>

text \<open>C8: The server's state is well formed for as long as it lives. From its start on, after any
  calls, decisions on approvals and steps of other tasks: every tool is filed under its own name,
  no bucket holds a negative number of tokens, every stored approval can be read back, counters
  and durations are not negative; the LRU tier is within its size, every entry of the second tier
  is the text of a value that can be read back, and what the tiers hold was computed by a tool
  under that very key; every breaker has its tool's name and the configured thresholds, holds
  fewer failures than its threshold, in order and none in the future; and no latency window is
  longer than 500.\<close>

theorem server_always_wf:
  assumes "sound_setup ev cfg builtin" and "lives ev cfg builtin sv w"
  shows "server_wf ev (computed ev builtin) w sv \<and> sv_settings sv = cfg"
  using lives_wf [OF assms] by blast

definition demo_tools :: "demo_world tool list" where
  "demo_tools = [counting_tool ping_meta, counting_tool vector_meta, counting_tool s3_put_meta]"

definition started_server :: "demo_world server" where
  "started_server = snd (startup demo_tools (new_server demo_settings None None ''''))"

lemma demo_sound: "sound_setup demo_env demo_settings demo_tools"
proof -
  have "sane_settings demo_settings"
    by (simp add: sane_settings_def sane_cache_def sane_limits_def demo_settings_def default_settings_def)
  moreover have "sound_env demo_env demo_settings mk" for mk
    by (auto simp: sound_env_def sound_sleeps_def sound_pauses_def demo_env_def interruptible_def)
  moreover have "sound_tool demo_env (counting_tool m)" for m
    by (auto simp: sound_tool_def counting_tool_def demo_env_def wf_json.simps)
  ultimately show ?thesis by (auto simp: sound_setup_def demo_tools_def)
qed

text \<open>A call consults the registry for its tool only, so the call that runs there runs here.\<close>

lemma guards_registry:
  "rate_guard ev t e (sv\<lparr>sv_registry := rg\<rparr>) w =
     (fst (rate_guard ev t e sv w), snd (rate_guard ev t e sv w)\<lparr>sv_registry := rg\<rparr>)"
  "approval_guard ev t e (sv\<lparr>sv_registry := rg\<rparr>) w =
     (fst (approval_guard ev t e sv w), snd (approval_guard ev t e sv w)\<lparr>sv_registry := rg\<rparr>)"
  "fst (run_observed ev t e a (sv\<lparr>sv_registry := rg\<rparr>) w) = fst (run_observed ev t e a sv w)"
  by (simp_all add: rate_guard_def approval_guard_def run_observed_split run_cached_def backend_of_def
      Let_def case_prod_beta split: sum.split exc.split)

lemma dispatch_registry:
  assumes "get_tool rg (env_tool e) = get_tool (sv_registry sv) (env_tool e)"
  shows "fst (dispatch ev ctx e (sv\<lparr>sv_registry := rg\<rparr>) w) = fst (dispatch ev ctx e sv w)"
  by (simp add: dispatch_def assms guards_registry case_prod_beta split: sum.split)

lemma started_eq: "started_server = demo_server\<lparr>sv_registry := (sv_registry demo_server)\<lparr>rg_discovered := True\<rparr>\<rparr>"
  by (simp add: started_server_def demo_server_def startup_def discover_def new_server_def demo_tools_def
      new_registry_def register_tool_def counting_tool_def builtin_defs Let_def)

lemma started_lives: "lives demo_env demo_settings demo_tools started_server (0, 0)"
  unfolding lives_def started_server_def by (metis server_run.starts prod.collapse)

abbreviation ping_dispatch :: "json outcome \<times> demo_world server \<times> demo_world" where
  "ping_dispatch \<equiv> dispatch demo_env demo_context (demo_call ''server.ping'') started_server (0, 0)"

lemma ping_lives: "ping_dispatch = (r, sv, w) \<Longrightarrow> lives demo_env demo_settings demo_tools sv w"
  using started_lives unfolding lives_def by (meson server_run.calls)

theorem server_always_wf_witness:
  "\<exists>r sv w. ping_dispatch = (r, sv, w) \<and> server_wf demo_env (computed demo_env demo_tools) w sv"
proof -
  obtain r sv w where d: "ping_dispatch = (r, sv, w)"
    by (metis prod_cases3)
  with server_always_wf [OF demo_sound ping_lives [OF d]] show ?thesis by blast
qed



text \<open>C4: A caller is only answered with what was computed for it. The value of a call was returned
  by some run of the tool the call names, for the tenant of the call, on arguments with the digest
  of the call's own: through both tiers of the cache, the wait for another caller's computation and
  any history of the server, no value computed for another tenant or by another tool gets to it.\<close>

theorem answers_are_own:
  assumes "sound_setup ev cfg builtin" and "lives ev cfg builtin sv w"
    and "dispatch ev ctx envelope sv w = (Inr v, sv', w')"
    and "distinct (map (\<lambda>t. tm_name (tl_meta t)) builtin)"
    and "\<And>t. t \<in> set builtin \<Longrightarrow> CHR '':'' \<notin> set (tm_name (tl_meta t))"
    and "\<And>s. CHR '':'' \<notin> set (sha256_hex (se_runtime ev) s)"
  shows "\<exists>t vargs run_args. get_tool (sv_registry sv) (env_tool envelope) = Inr t
    \<and> validate (se_runtime ev) t (env_arguments envelope) = Inr vargs
    \<and> ran t (env_tenant envelope) run_args v
    \<and> args_digest (se_runtime ev) run_args = args_digest (se_runtime ev) vargs"
proof -
  have "inj_on (\<lambda>t. tm_name (tl_meta t)) (set builtin)" using assms(4) by (simp add: distinct_map)
  from answer_origin [OF assms(1-3) this assms(5,6)] show ?thesis by (auto simp: admitted_def)
qed

theorem answers_are_own_witness:
  "\<exists>v run_args. fst ping_dispatch = Inr v \<and> ran (counting_tool ping_meta) ''acme'' run_args v"
proof -
  have "is_ok (fst ping_dispatch)"
    unfolding started_eq using ping_dispatched by (simp add: dispatch_registry get_tool_def)
  then obtain v sv w where d: "ping_dispatch = (Inr v, sv, w)"
    by (metis is_ok_iff prod.collapse)
  have names: "distinct (map (\<lambda>t. tm_name (tl_meta t)) demo_tools)"
    "t \<in> set demo_tools \<Longrightarrow> CHR '':'' \<notin> set (tm_name (tl_meta t))" for t
    by (auto simp: demo_tools_def counting_tool_def builtin_defs)
  have hex: "CHR '':'' \<notin> set (sha256_hex (se_runtime demo_env) s)" for s
    by (simp add: demo_env_def plain_hex)
  have "env_tool (demo_call ''server.ping'') = ''server.ping''" "env_tenant (demo_call ''server.ping'') = ''acme''"
    by code_simp+
  moreover have "get_tool (sv_registry started_server) ''server.ping'' = Inr (counting_tool ping_meta)"
    by (simp add: started_server_def demo_tools_def startup_def new_server_def discover_def new_registry_def
        register_tool_def get_tool_def counting_tool_def builtin_defs Let_def)
  ultimately show ?thesis
    using answers_are_own [OF demo_sound started_lives d names hex] d by auto
qed



end
