(* ===== verification/Py_Strings.thy ===== *)
theory Py_Strings
  imports Prelude
begin

text \<open>
  More of Python's string methods, for the components that parse text: splitting on whitespace
  and at line ends, stripping a set of characters, and finding a character.
\<close>

text \<open>\<^verbatim>\<open>str.split()\<close>: the maximal runs of characters that are not whitespace.\<close>

fun split_runs :: "string \<Rightarrow> string \<Rightarrow> string list" where
  "split_runs run [] = (if run = '''' then [] else [rev run])"
| "split_runs run (c # cs) =
     (if is_space c then (if run = '''' then split_runs '''' cs else rev run # split_runs '''' cs)
      else split_runs (c # run) cs)"

definition py_split :: "string \<Rightarrow> string list" where
  "py_split s = split_runs '''' s"

lemma split_runs_words:
  "list_all (\<lambda>c. \<not> is_space c) run \<Longrightarrow> w \<in> set (split_runs run s) \<Longrightarrow>
     w \<noteq> [] \<and> list_all (\<lambda>c. \<not> is_space c) w"
proof (induction s arbitrary: run)
  case Nil
  then show ?case by (simp split: if_splits)
next
  case (Cons c s)
  show ?case
  proof (cases "is_space c")
    case True
    with Cons.prems Cons.IH [of "[]"] show ?thesis by (auto split: if_splits)
  next
    case False
    with Cons.prems Cons.IH [of "c # run"] show ?thesis by simp
  qed
qed

lemma py_split_words: "w \<in> set (py_split s) \<Longrightarrow> w \<noteq> [] \<and> list_all (\<lambda>c. \<not> is_space c) w"
  using split_runs_words [of "[]" w s] by (simp add: py_split_def)

text \<open>\<^verbatim>\<open>str.lstrip(c)\<close> and \<^verbatim>\<open>str.rstrip(c)\<close> for one character.\<close>

definition lstrip_char :: "char \<Rightarrow> string \<Rightarrow> string" where
  "lstrip_char c s = dropWhile (\<lambda>x. x = c) s"

definition rstrip_char :: "char \<Rightarrow> string \<Rightarrow> string" where
  "rstrip_char c s = rev (dropWhile (\<lambda>x. x = c) (rev s))"

lemma lstrip_char_hd: "lstrip_char c s = '''' \<or> hd (lstrip_char c s) \<noteq> c"
  by (induction s) (auto simp: lstrip_char_def)

lemma rstrip_char_last: "rstrip_char c s = '''' \<or> last (rstrip_char c s) \<noteq> c"
  using lstrip_char_hd [of c "rev s"] by (auto simp: rstrip_char_def lstrip_char_def last_rev)

text \<open>
  The part of a text before its first line end, \<^verbatim>\<open>splitlines()[0]\<close> of a text that is not empty.
\<close>

definition line_end :: "char \<Rightarrow> bool" where
  "line_end c = (let n = (of_char c :: nat) in 10 \<le> n \<and> n \<le> 13 \<or> 28 \<le> n \<and> n \<le> 30 \<or> n = 133)"

definition first_line :: "string \<Rightarrow> string" where
  "first_line s = takeWhile (\<lambda>c. \<not> line_end c) s"

text \<open>\<^verbatim>\<open>str.find\<close> and \<^verbatim>\<open>str.rfind\<close> of a character.\<close>

fun find_char :: "char \<Rightarrow> string \<Rightarrow> nat option" where
  "find_char c [] = None"
| "find_char c (x # xs) = (if x = c then Some 0 else map_option Suc (find_char c xs))"

definition rfind_char :: "char \<Rightarrow> string \<Rightarrow> nat option" where
  "rfind_char c s = map_option (\<lambda>i. length s - 1 - i) (find_char c (rev s))"

lemma find_char_Some:
  "find_char c s = Some i \<Longrightarrow> i < length s \<and> s ! i = c \<and> c \<notin> set (take i s)"
  by (induction s arbitrary: i) (auto split: if_splits)

lemma find_char_None: "find_char c s = None \<longleftrightarrow> c \<notin> set s"
  by (induction s) auto

lemma rfind_char_Some:
  assumes "rfind_char c s = Some i"
  shows "i < length s \<and> s ! i = c"
proof -
  from assms obtain j where "find_char c (rev s) = Some j" and i: "i = length s - 1 - j"
    by (auto simp: rfind_char_def)
  with find_char_Some [of c "rev s" j] show ?thesis by (auto simp: rev_nth)
qed

lemma rfind_char_None: "rfind_char c s = None \<longleftrightarrow> c \<notin> set s"
  by (simp add: rfind_char_def find_char_None)

text \<open>\<^verbatim>\<open>str.split(sep)\<close> for a separator that is not empty.\<close>

function split_on :: "string \<Rightarrow> string \<Rightarrow> string \<Rightarrow> string list" where
  "split_on sep piece [] = [rev piece]"
| "split_on sep piece (c # cs) =
     (if sep \<noteq> [] \<and> startswith (c # cs) sep
      then rev piece # split_on sep '''' (drop (length sep) (c # cs))
      else split_on sep (c # piece) cs)"
  by pat_completeness auto
termination
proof (relation "measure (\<lambda>(sep, piece, s). length s)")
  fix sep :: string and c cs
  assume "sep \<noteq> [] \<and> startswith (c # cs) sep"
  then show "((sep, '''', drop (length sep) (c # cs)), sep, piece, c # cs)
      \<in> measure (\<lambda>(sep, piece, s). length s)" for piece
    by (cases sep) auto
qed auto

definition split_str :: "string \<Rightarrow> string \<Rightarrow> string list" where
  "split_str sep s = split_on sep '''' s"

lemma split_on_nonempty [simp]: "split_on sep piece s \<noteq> []"
  by (induction sep piece s rule: split_on.induct) auto

end
