(* ===== verification/Py_Json.thy ===== *)
theory Py_Json
  imports Errors Py_Strings
begin

text \<open>
  How Python code handles a value that came from JSON: its truth, \<^verbatim>\<open>dict.get\<close>, iteration, and
  \<^verbatim>\<open>str\<close>. The tools read their backends' answers this way, the agents their model's.
\<close>

text \<open>Truth, attribute access and iteration of a value that came from JSON.\<close>

fun truthy :: "json \<Rightarrow> bool" where
  "truthy JNull = False"
| "truthy (JBool b) = b"
| "truthy (JInt i) = (i \<noteq> 0)"
| "truthy (JFloat x) = (x \<noteq> 0)"
| "truthy (JStr s) = (s \<noteq> '''')"
| "truthy (JList xs) = (xs \<noteq> [])"
| "truthy (JObj ps) = (ps \<noteq> [])"

fun py_type :: "json \<Rightarrow> string" where
  "py_type JNull = ''NoneType''"
| "py_type (JBool b) = ''bool''"
| "py_type (JInt i) = ''int''"
| "py_type (JFloat x) = ''float''"
| "py_type (JStr s) = ''str''"
| "py_type (JList xs) = ''list''"
| "py_type (JObj ps) = ''dict''"

definition no_attribute :: "json \<Rightarrow> string \<Rightarrow> exc" where
  "no_attribute j a = Py_Exc ''AttributeError''
     ([sq_char] @ py_type j @ [sq_char] @ '' object has no attribute '' @ [sq_char] @ a @ [sq_char])"

definition py_get :: "string \<Rightarrow> json \<Rightarrow> json \<Rightarrow> json outcome" where
  "py_get k d j =
     (case j of
        JObj ps \<Rightarrow> Inr (case map_of ps k of None \<Rightarrow> d | Some v \<Rightarrow> v)
      | _ \<Rightarrow> Inl (no_attribute j ''get''))"

definition not_iterable :: "json \<Rightarrow> exc" where
  "not_iterable j = Py_Exc ''TypeError'' ([sq_char] @ py_type j @ [sq_char] @ '' object is not iterable'')"

definition py_iter :: "json \<Rightarrow> json list outcome" where
  "py_iter j =
     (case j of
        JList xs \<Rightarrow> Inr xs
      | JObj ps \<Rightarrow> Inr (map (\<lambda>(k, v). JStr k) ps)
      | JStr s \<Rightarrow> Inr (map (\<lambda>c. JStr [c]) s)
      | _ \<Rightarrow> Inl (not_iterable j))"

fun map_res :: "('a \<Rightarrow> ('e, 'b) res) \<Rightarrow> 'a list \<Rightarrow> ('e, 'b list) res" where
  "map_res f [] = Inr []"
| "map_res f (x # xs) =
     (case f x of Inl e \<Rightarrow> Inl e
      | Inr y \<Rightarrow> (case map_res f xs of Inl e \<Rightarrow> Inl e | Inr ys \<Rightarrow> Inr (y # ys)))"

lemma map_res_ok: "map_res f xs = Inr ys \<longleftrightarrow> list_all2 (\<lambda>x y. f x = Inr y) xs ys"
proof (induction xs arbitrary: ys)
  case Nil
  then show ?case by auto
next
  case (Cons x xs)
  show ?case
  proof (cases ys)
    case Nil
    then show ?thesis by (auto split: sum.splits)
  next
    case (Cons y ys')
    with Cons.IH [of ys'] show ?thesis by (auto split: sum.splits)
  qed
qed

lemma list_all2_right: "list_all2 P xs ys \<Longrightarrow> y \<in> set ys \<Longrightarrow> \<exists>x \<in> set xs. P x y"
  by (induction rule: list_all2_induct) auto

lemma py_get_obj [simp]: "py_get k d (JObj ps) = Inr (case map_of ps k of None \<Rightarrow> d | Some v \<Rightarrow> v)"
  by (simp add: py_get_def)

text \<open>A subscript of a dictionary.\<close>

definition py_item :: "string \<Rightarrow> json \<Rightarrow> json outcome" where
  "py_item k j =
     (case j of
        JObj ps \<Rightarrow> (case map_of ps k of None \<Rightarrow> Inl (Py_Exc ''KeyError'' (py_repr k)) | Some v \<Rightarrow> Inr v)
      | _ \<Rightarrow> Inl (Py_Exc ''TypeError'' ([sq_char] @ py_type j @ [sq_char] @ '' object is not subscriptable'')))"

text \<open>\<^verbatim>\<open>repr(x)\<close> and \<^verbatim>\<open>str(x)\<close>.\<close>

fun py_repr_json :: "runtime \<Rightarrow> json \<Rightarrow> string" where
  "py_repr_json rt JNull = ''None''"
| "py_repr_json rt (JBool b) = (if b then ''True'' else ''False'')"
| "py_repr_json rt (JInt i) = str_of_int i"
| "py_repr_json rt (JFloat x) = float_repr rt x"
| "py_repr_json rt (JStr s) = py_repr s"
| "py_repr_json rt (JList xs) = ''['' @ py_join '', '' (map (py_repr_json rt) xs) @ '']''"
| "py_repr_json rt (JObj ps) =
     ''{'' @ py_join '', '' (map (\<lambda>(k, v). py_repr k @ '': '' @ py_repr_json rt v) ps) @ ''}''"

definition py_str :: "runtime \<Rightarrow> json \<Rightarrow> string" where
  "py_str rt j = (case j of JStr s \<Rightarrow> s | _ \<Rightarrow> py_repr_json rt j)"

text \<open>\<^verbatim>\<open>int(x)\<close>; a text is read as a decimal number.\<close>

definition py_int_of :: "json \<Rightarrow> int outcome" where
  "py_int_of j =
     (case j of
        JInt n \<Rightarrow> Inr n
      | JBool b \<Rightarrow> Inr (if b then 1 else 0)
      | JFloat x \<Rightarrow> Inr (if x < 0 then - \<lfloor>- x\<rfloor> else \<lfloor>x\<rfloor>)
      | JStr s \<Rightarrow>
          (let t = py_strip s; ds = (if t \<noteq> [] \<and> hd t \<in> {CHR ''+'', CHR ''-''} then tl t else t)
           in if ds \<noteq> [] \<and> list_all is_digit ds
              then Inr (if startswith t ''-'' then - int (nat_of_digits 0 ds) else int (nat_of_digits 0 ds))
              else Inl (Py_Exc ''ValueError'' (''invalid literal for int() with base 10: '' @ py_repr s)))
      | _ \<Rightarrow> Inl (Py_Exc ''TypeError'' ''''))"

end
