(* ===== verification/Postgres.thy ===== *)
theory Postgres
  imports Tools Py_Json
begin

text \<open>
  The read-only Postgres tool (\<^verbatim>\<open>tools/atomic/postgres.py\<close>) and its adapter
  (\<^verbatim>\<open>tools/clients/postgres_client.py\<close>), with what the atomic tools share: the conversion of
  a backend's exceptions. The driver is a
  parameter: a coroutine that runs a statement, and the attributes of its exceptions.
\<close>

section \<open>What the atomic tools share\<close>

text \<open>
  A backend error that is already an \<^verbatim>\<open>UpstreamError\<close> passes, every other exception is
  converted; a cancellation is not an \<^verbatim>\<open>Exception\<close>.
\<close>

definition convert_errors :: "(exc \<Rightarrow> tool_error outcome) \<Rightarrow> 'a outcome \<Rightarrow> 'a outcome" where
  "convert_errors f r =
     (case r of
        Inr v \<Rightarrow> Inr v
      | Inl Cancelled \<Rightarrow> Inl Cancelled
      | Inl (Py_Exc ty msg) \<Rightarrow> (case f (Py_Exc ty msg) of Inr e \<Rightarrow> Inl (Tool_Exc e) | Inl x \<Rightarrow> Inl x)
      | Inl (Tool_Exc e) \<Rightarrow>
          if is_instance e UpstreamError then Inl (Tool_Exc e)
          else (case f (Tool_Exc e) of Inr e' \<Rightarrow> Inl (Tool_Exc e') | Inl x \<Rightarrow> Inl x))"

lemma convert_errors_ok [simp]: "convert_errors f r = Inr v \<longleftrightarrow> r = Inr v"
  by (auto simp: convert_errors_def split: sum.splits exc.splits if_splits)

text \<open>A pure shaping of the value a coroutine returns.\<close>

definition shape :: "'a outcome \<times> 'w \<Rightarrow> ('a \<Rightarrow> 'b outcome) \<Rightarrow> 'b outcome \<times> 'w" where
  "shape rw f = (case rw of (r, w) \<Rightarrow> (bind_res r f, w))"

lemma snd_shape [simp]: "snd (shape rw f) = snd rw"
  by (simp add: shape_def split: prod.split)

lemma fst_shape [simp]: "fst (shape rw f) = bind_res (fst rw) f"
  by (simp add: shape_def split: prod.split)

text \<open>\<^verbatim>\<open>str(exc)[:200] or text\<close>.\<close>

definition hint_or :: "exc \<Rightarrow> string \<Rightarrow> string" where
  "hint_or x text = (let s = take 200 (exc_text x) in if s = '''' then text else s)"

definition validation_failed :: "string \<Rightarrow> exc" where
  "validation_failed msg = Py_Exc ''ValidationError'' msg"

section \<open>The statement guard\<close>

definition forbidden_keywords :: "string list" where
  "forbidden_keywords = [''INSERT'', ''UPDATE'', ''DELETE'', ''DROP'', ''TRUNCATE'', ''ALTER'', ''CREATE'',
     ''GRANT'', ''REVOKE'', ''COPY'', ''CALL'', ''EXECUTE'']"

definition value_error :: "string \<Rightarrow> exc" where
  "value_error msg = Py_Exc ''ValueError'' msg"

fun reject_keywords :: "string \<Rightarrow> string list \<Rightarrow> unit outcome" where
  "reject_keywords upper [] = Inr ()"
| "reject_keywords upper (kw # kws) =
     (if contains_str upper ('' '' @ kw @ '' '') then Inl (value_error (''forbidden keyword: '' @ kw))
      else reject_keywords upper kws)"

definition must_be_select :: "string \<Rightarrow> string outcome" where
  "must_be_select value =
     (let stripped = rstrip_char (CHR '';'') (py_strip value)
      in if stripped = '''' then Inl (value_error ''sql is required'')
         else (case py_split stripped of
                 [] \<Rightarrow> Inl (Py_Exc ''IndexError'' ''list index out of range'')
               | head # _ \<Rightarrow>
                   if str_upper head \<notin> {''SELECT'', ''WITH''}
                   then Inl (value_error ''only SELECT or WITH statements are permitted'')
                   else (case reject_keywords ('' '' @ str_upper stripped @ '' '') forbidden_keywords of
                           Inl x \<Rightarrow> Inl x
                         | Inr _ \<Rightarrow>
                             if CHR '';'' \<in> set stripped
                             then Inl (value_error ''only one statement per call'')
                             else Inr stripped)))"

record postgres_input =
  pg_sql :: string
  pg_params :: "json list"
  pg_max_rows :: int

text \<open>
  The model's constructor on values of the declared types: every string is stripped, the field
  constraints are checked, then the validators run. How Pydantic words its error is its own.
\<close>

definition new_postgres_input :: "string \<Rightarrow> json list \<Rightarrow> int \<Rightarrow> postgres_input outcome" where
  "new_postgres_input sql params max_rows =
     (if 8000 < length (py_strip sql) \<or> max_rows < 1 \<or> 1000 < max_rows then Inl (validation_failed '''')
      else (case must_be_select (py_strip sql) of
              Inl x \<Rightarrow> Inl (validation_failed (exc_text x))
            | Inr s \<Rightarrow> Inr \<lparr>pg_sql = s, pg_params = params, pg_max_rows = max_rows\<rparr>))"

section \<open>The tool\<close>

record 'w postgres_backend =
  pb_fetch :: "string \<Rightarrow> string \<Rightarrow> json list \<Rightarrow> int \<Rightarrow> ('w, args list) coro"
  pb_sqlstate :: "exc \<Rightarrow> json"

definition is_transient :: "exc \<Rightarrow> bool" where
  "is_transient x \<longleftrightarrow> exc_type_name x \<in>
     {''ConnectionDoesNotExistError'', ''InterfaceError'', ''TooManyConnectionsError'', ''ConnectionFailureError''}"

definition postgres_error :: "(exc \<Rightarrow> json) \<Rightarrow> exc \<Rightarrow> tool_error" where
  "postgres_error sqlstate x =
     mk_error UpstreamError ''postgres_error'' (is_transient x)
       (Some (if exc_text x \<noteq> '''' then take 200 (first_line (exc_text x)) else ''postgres query failed''))
       (Some [(''sqlstate'', sqlstate x)])"

definition postgres_result :: "postgres_input \<Rightarrow> args list \<Rightarrow> args" where
  "postgres_result a rows =
     [(''columns'', JList (case rows of [] \<Rightarrow> [] | r # _ \<Rightarrow> map (\<lambda>(k, v). JStr k) r)),
      (''rows'', JList (map JObj rows)),
      (''row_count'', JInt (int (length rows))),
      (''truncated'', JBool (pg_max_rows a \<le> int (length rows)))]"

definition postgres_run :: "'w postgres_backend \<Rightarrow> string \<Rightarrow> postgres_input \<Rightarrow> ('w, args) coro" where
  "postgres_run pb tenant a deadline w =
     (case pb_fetch pb tenant (pg_sql a) (pg_params a) (pg_max_rows a) deadline w of
        (r, w1) \<Rightarrow>
          shape (convert_errors (\<lambda>x. Inr (postgres_error (pb_sqlstate pb) x)) r, w1)
            (\<lambda>rows. Inr (postgres_result a rows)))"

text \<open>
  The production adapter: on a connection of the pool, the tenant is set for row-level security,
  then the statement runs with its row limit appended.
\<close>

record 'w pg_connection =
  pc_execute :: "string \<Rightarrow> json list \<Rightarrow> ('w, unit) coro"
  pc_fetch :: "string \<Rightarrow> json list \<Rightarrow> ('w, args list) coro"

definition limited_sql :: "string \<Rightarrow> int \<Rightarrow> string" where
  "limited_sql sql max_rows = sql @ '' LIMIT '' @ str_of_int max_rows"

definition asyncpg_fetch ::
    "'w pg_connection \<Rightarrow> string \<Rightarrow> string \<Rightarrow> json list \<Rightarrow> int \<Rightarrow> ('w, args list) coro" where
  "asyncpg_fetch conn tenant sql params max_rows deadline w =
     (case pc_execute conn ''SET LOCAL app.tenant_id = $1'' [JStr tenant] deadline w of
        (Inl x, w1) \<Rightarrow> (Inl x, w1)
      | (Inr _, w1) \<Rightarrow> pc_fetch conn (limited_sql sql max_rows) params deadline w1)"

section \<open>Facts\<close>

lemma reject_keywords_ok:
  "reject_keywords u kws = Inr () \<longleftrightarrow> (\<forall>kw \<in> set kws. \<not> contains_str u ('' '' @ kw @ '' ''))"
  by (induction kws) auto

lemma must_be_select_ok:
  "must_be_select v = Inr s \<longleftrightarrow>
     s = rstrip_char (CHR '';'') (py_strip v) \<and> CHR '';'' \<notin> set s \<and>
     (\<exists>head rest. py_split s = head # rest \<and> str_upper head \<in> {''SELECT'', ''WITH''}) \<and>
     (\<forall>kw \<in> set forbidden_keywords. \<not> contains_str ('' '' @ str_upper s @ '' '') ('' '' @ kw @ '' ''))"
proof -
  obtain t where t: "t = rstrip_char (CHR '';'') (py_strip v)" by simp
  show ?thesis
  proof (cases "py_split t")
    case Nil
    then show ?thesis by (auto simp: must_be_select_def Let_def t [symmetric])
  next
    case (Cons head rest)
    then have ne: "t \<noteq> ''''" by (auto simp: py_split_def)
    obtain P where P: "P = (str_upper head \<in> {''SELECT'', ''WITH''})" by simp
    obtain u where u: "u = '' '' @ str_upper t @ '' ''" by simp
    have m: "must_be_select v = (if \<not> P then Inl (value_error ''only SELECT or WITH statements are permitted'')
        else (case reject_keywords u forbidden_keywords of Inl x \<Rightarrow> Inl x
              | Inr _ \<Rightarrow> if CHR '';'' \<in> set t then Inl (value_error ''only one statement per call'') else Inr t))"
      using ne Cons unfolding must_be_select_def Let_def t [symmetric] u [symmetric] P by simp
    have eqA: "(\<exists>h r. py_split t = h # r \<and> str_upper h \<in> {''SELECT'', ''WITH''}) = P"
    proof -
      have "(\<exists>h r. py_split t = h # r \<and> Q h) = Q head" for Q using Cons by simp
      from this [of "\<lambda>h. str_upper h \<in> {''SELECT'', ''WITH''}"] show ?thesis unfolding P .
    qed
    have eqB: "(\<forall>kw \<in> set forbidden_keywords. \<not> contains_str u ('' '' @ kw @ '' '')) =
        (reject_keywords u forbidden_keywords = Inr ())"
      by (rule reject_keywords_ok [symmetric])
    have iff: "must_be_select v = Inr s \<longleftrightarrow> s = t \<and> CHR '';'' \<notin> set t \<and>
        (\<exists>h r. py_split t = h # r \<and> str_upper h \<in> {''SELECT'', ''WITH''}) \<and>
        (\<forall>kw \<in> set forbidden_keywords. \<not> contains_str u ('' '' @ kw @ '' ''))"
      unfolding m eqA eqB by (cases "reject_keywords u forbidden_keywords") auto
    show ?thesis
    proof (cases "s = t")
      case True
      from iff show ?thesis unfolding t [symmetric] u True .
    next
      case False
      with iff show ?thesis unfolding t [symmetric] by simp
    qed
  qed
qed

lemma str_of_int_chars: "c \<in> set (str_of_int i) \<Longrightarrow> is_digit c \<or> c = CHR ''-''"
  using str_of_nat_digits by (auto simp: str_of_int_def list_all_iff split: if_splits)

lemma limited_sql_single: "CHR '';'' \<notin> set s \<Longrightarrow> CHR '';'' \<notin> set (limited_sql s n)"
  using str_of_int_chars [of "CHR '';''" n] by (auto simp: limited_sql_def is_digit_def)

lemma postgres_run_outcome:
  "fst (postgres_run pb tenant a d w) = Inl x \<Longrightarrow>
     x = Cancelled \<or> (\<exists>e. x = Tool_Exc e \<and> err_class e = UpstreamError)"
  by (auto simp: postgres_run_def convert_errors_def case_prod_beta res_simps is_instance_def
      postgres_error_def split: sum.splits exc.splits if_splits)

text \<open>What the guard does not see: a keyword set off by anything but single spaces.\<close>

lemma keyword_after_tab:
  "must_be_select (''WITH d AS (DELETE'' @ [CHR 0x09] @ ''FROM t RETURNING 1) SELECT 1'') =
     Inr (''WITH d AS (DELETE'' @ [CHR 0x09] @ ''FROM t RETURNING 1) SELECT 1'')"
  by code_simp

section \<open>Properties\<close>


definition demo_connection :: "nat pg_connection" where
  "demo_connection = \<lparr>pc_execute = (\<lambda>sql params d w. (Inr (), w + 1)),
     pc_fetch = (\<lambda>sql params d w. (Inr [[(''one'', JInt 1)]], w + 10))\<rparr>"


end
