(* ===== verification/Search_Tools.thy ===== *)
theory Search_Tools
  imports Postgres
begin

text \<open>
  The two search tools (\<^verbatim>\<open>tools/atomic/elasticsearch.py\<close>, \<^verbatim>\<open>tools/atomic/vector_search.py\<close>) and
  the vector adapter (\<^verbatim>\<open>tools/clients/vector_client.py\<close>). Each puts a tenant clause of its own into
  the query it sends. The search engines are parameters.
\<close>

section \<open>Elasticsearch\<close>

record elasticsearch_input =
  es_index :: string
  es_query :: args
  es_size :: int
  es_fields :: "string list option"

definition new_elasticsearch_input ::
    "string \<Rightarrow> args \<Rightarrow> int \<Rightarrow> string list option \<Rightarrow> elasticsearch_input outcome" where
  "new_elasticsearch_input index query sz flds =
     (if 200 < length (py_strip index) \<or> sz < 1 \<or> 200 < sz then Inl (validation_failed '''')
      else Inr \<lparr>es_index = py_strip index, es_query = query, es_size = sz,
                es_fields = map_option (map py_strip) flds\<rparr>)"

record 'w elasticsearch_backend =
  eb_search :: "string \<Rightarrow> string \<Rightarrow> args \<Rightarrow> ('w, json) coro"
  eb_status_code :: "exc \<Rightarrow> int option"
  eb_status :: "exc \<Rightarrow> int option"

definition tenant_term :: "string \<Rightarrow> json" where
  "tenant_term tenant = JObj [(''term'', JObj [(''_tenant'', JStr tenant)])]"

definition es_body :: "string \<Rightarrow> elasticsearch_input \<Rightarrow> args" where
  "es_body tenant a =
     [(''query'', JObj [(''bool'', JObj
         [(''must'', JList [JObj (es_query a)]), (''filter'', JList [tenant_term tenant])])]),
      (''size'', JInt (es_size a))] @
     (case es_fields a of
        None \<Rightarrow> []
      | Some fs \<Rightarrow> if fs = [] then [] else [(''_source'', JList (map JStr fs))])"

definition es_error :: "'w elasticsearch_backend \<Rightarrow> exc \<Rightarrow> tool_error" where
  "es_error eb x =
     (let status = (case eb_status_code eb x of
            Some n \<Rightarrow> if n \<noteq> 0 then Some n else eb_status eb x
          | None \<Rightarrow> eb_status eb x)
      in mk_error UpstreamError ''elasticsearch_error''
           (case status of None \<Rightarrow> False | Some n \<Rightarrow> n \<in> {408, 429, 500, 502, 503, 504})
           (Some (hint_or x ''elasticsearch query failed''))
           (Some [(''status'', case status of None \<Rightarrow> JNull | Some n \<Rightarrow> JInt n)]))"

definition es_hit :: "json \<Rightarrow> json outcome" where
  "es_hit h =
     bind_res (py_get ''_id'' JNull h) (\<lambda>i.
     bind_res (py_get ''_score'' JNull h) (\<lambda>s.
     bind_res (py_get ''_source'' (JObj []) h) (\<lambda>d.
       Inr (JObj [(''id'', i), (''score'', s), (''source'', d)]))))"

definition es_total :: "json \<Rightarrow> json outcome" where
  "es_total t = (case t of JObj ps \<Rightarrow> py_get ''value'' JNull t | _ \<Rightarrow> Inr t)"

definition es_result :: "json \<Rightarrow> args outcome" where
  "es_result resp =
     bind_res (py_get ''hits'' (JObj []) resp) (\<lambda>block.
     bind_res (py_get ''hits'' (JList []) block) (\<lambda>hits.
     bind_res (py_get ''total'' (JObj []) block) (\<lambda>t.
     bind_res (es_total t) (\<lambda>n.
     bind_res (py_get ''took'' JNull resp) (\<lambda>took.
     bind_res (py_iter hits) (\<lambda>hs.
     bind_res (map_res es_hit hs) (\<lambda>shaped.
       Inr [(''total'', n), (''took_ms'', took), (''hits'', JList shaped)])))))))"

definition elasticsearch_run ::
    "'w elasticsearch_backend \<Rightarrow> string \<Rightarrow> elasticsearch_input \<Rightarrow> ('w, args) coro" where
  "elasticsearch_run eb tenant a deadline w =
     (case eb_search eb tenant (es_index a) (es_body tenant a) deadline w of
        (r, w1) \<Rightarrow> shape (convert_errors (\<lambda>x. Inr (es_error eb x)) r, w1) es_result)"

section \<open>Vectors\<close>

record vector_input =
  vs_collection :: string
  vs_vector :: "rat list"
  vs_top_k :: int
  vs_filter :: "args option"

definition new_vector_input :: "string \<Rightarrow> rat list \<Rightarrow> int \<Rightarrow> args option \<Rightarrow> vector_input outcome" where
  "new_vector_input collection vector top_k flt =
     (if 200 < length (py_strip collection) \<or> vector = [] \<or> top_k < 1 \<or> 100 < top_k
      then Inl (validation_failed '''')
      else Inr \<lparr>vs_collection = py_strip collection, vs_vector = vector, vs_top_k = top_k, vs_filter = flt\<rparr>)"

record 'w vector_backend =
  vb_search :: "string \<Rightarrow> rat list \<Rightarrow> int \<Rightarrow> args \<Rightarrow> ('w, json) coro"

definition tenant_clause :: "string \<Rightarrow> json" where
  "tenant_clause tenant =
     JObj [(''key'', JStr ''tenant''), (''match'', JObj [(''value'', JStr tenant)])]"

definition filter_part :: "string \<Rightarrow> args \<Rightarrow> args" where
  "filter_part k f =
     (case map_of f k of None \<Rightarrow> [] | Some v \<Rightarrow> if truthy v then [(k, v)] else [])"

definition combined_filter :: "string \<Rightarrow> args option \<Rightarrow> args outcome" where
  "combined_filter tenant flt =
     (case flt of
        None \<Rightarrow> Inr [(''must'', JList [tenant_clause tenant])]
      | Some f \<Rightarrow>
          if f = [] then Inr [(''must'', JList [tenant_clause tenant])]
          else
            (case (case map_of f ''must'' of
                     None \<Rightarrow> Inr []
                   | Some v \<Rightarrow> if truthy v then py_iter v else Inr []) of
               Inl x \<Rightarrow> Inl x
             | Inr clauses \<Rightarrow>
                 Inr ([(''must'', JList (tenant_clause tenant # clauses))]
                      @ filter_part ''should'' f @ filter_part ''must_not'' f)))"

definition vector_error :: "exc \<Rightarrow> tool_error" where
  "vector_error x = mk_error UpstreamError ''vector_error'' True (Some (hint_or x ''vector search failed'')) None"

definition vector_match :: "json \<Rightarrow> json outcome" where
  "vector_match m =
     bind_res (py_get ''id'' JNull m) (\<lambda>i.
     bind_res (py_get ''score'' JNull m) (\<lambda>s.
     bind_res (py_get ''payload'' JNull m) (\<lambda>p.
       Inr (JObj [(''id'', i), (''score'', s), (''payload'', if truthy p then p else JObj [])]))))"

definition vector_run :: "'w vector_backend \<Rightarrow> string \<Rightarrow> vector_input \<Rightarrow> ('w, args) coro" where
  "vector_run vb tenant a deadline w =
     (case combined_filter tenant (vs_filter a) of
        Inl x \<Rightarrow> (Inl x, w)
      | Inr flt \<Rightarrow>
          (case vb_search vb (vs_collection a) (vs_vector a) (vs_top_k a) flt deadline w of
             (r, w1) \<Rightarrow>
               shape (convert_errors (\<lambda>x. Inr (vector_error x)) r, w1)
                 (\<lambda>result. bind_res (py_iter result) (\<lambda>ms.
                  bind_res (map_res vector_match ms) (\<lambda>shaped. Inr [(''matches'', JList shaped)])))))"

text \<open>
  The production adapter posts the search; the reply is a status and a body, or the exception of
  a request that got none.
\<close>

record http_reply =
  hr_status :: int
  hr_body :: json

record 'w qdrant_env =
  qd_post :: "string \<Rightarrow> args \<Rightarrow> ('w, http_reply) coro"
  qd_request_error :: "exc \<Rightarrow> bool"

definition qdrant_url :: "string \<Rightarrow> string \<Rightarrow> string" where
  "qdrant_url base_url collection =
     rstrip_char (CHR ''/'') base_url @ ''/collections/'' @ collection @ ''/points/search''"

definition qdrant_search ::
    "'w qdrant_env \<Rightarrow> string \<Rightarrow> string \<Rightarrow> rat list \<Rightarrow> int \<Rightarrow> args \<Rightarrow> ('w, json) coro" where
  "qdrant_search qd base_url collection vector top_k query_filter deadline w =
     (case qd_post qd (qdrant_url base_url collection)
             [(''vector'', JList (map JFloat vector)), (''limit'', JInt top_k),
              (''filter'', JObj query_filter), (''with_payload'', JBool True)] deadline w of
        (Inl x, w1) \<Rightarrow>
          (Inl (if qd_request_error qd x
                then Tool_Exc (mk_error UpstreamError ''vector_network_error'' True (Some (exc_text x)) None)
                else x), w1)
      | (Inr reply, w1) \<Rightarrow>
          if hr_status reply < 200 \<or> 299 < hr_status reply then
            (Inl (Tool_Exc (mk_error UpstreamError ''vector_http_error''
               (hr_status reply \<in> {502, 503, 504})
               (Some (''vector db returned '' @ str_of_int (hr_status reply)))
               (Some [(''status'', JInt (hr_status reply))]))), w1)
          else (py_get ''result'' (JList []) (hr_body reply), w1))"

section \<open>Facts\<close>

lemma combined_filter_must:
  "combined_filter tenant flt = Inr f \<Longrightarrow>
     \<exists>clauses rest. f = (''must'', JList (tenant_clause tenant # clauses)) # rest \<and> ''must'' \<notin> set (keys_of rest)"
  by (auto simp: combined_filter_def filter_part_def split: option.splits if_splits sum.splits)

lemma es_hit_source: "es_hit h = Inr j \<Longrightarrow> \<exists>ps. h = JObj ps \<and>
    j = JObj [(''id'', case map_of ps ''_id'' of None \<Rightarrow> JNull | Some v \<Rightarrow> v),
      (''score'', case map_of ps ''_score'' of None \<Rightarrow> JNull | Some v \<Rightarrow> v),
      (''source'', case map_of ps ''_source'' of None \<Rightarrow> JObj [] | Some v \<Rightarrow> v)]"
  by (cases h) (auto simp: es_hit_def py_get_def res_simps)

lemma vector_match_payload: "vector_match m = Inr j \<Longrightarrow> \<exists>ps. m = JObj ps \<and>
    j = JObj [(''id'', case map_of ps ''id'' of None \<Rightarrow> JNull | Some v \<Rightarrow> v),
      (''score'', case map_of ps ''score'' of None \<Rightarrow> JNull | Some v \<Rightarrow> v),
      (''payload'', case map_of ps ''payload'' of None \<Rightarrow> JObj [] | Some v \<Rightarrow> if truthy v then v else JObj [])]"
  by (cases m) (auto simp: vector_match_def py_get_def res_simps split: option.split)

section \<open>Properties\<close>

text \<open>
  What the engines document. Elasticsearch returns only documents that satisfy every filter clause
  of a bool query; for a term clause the document's field has that value. Qdrant returns only
  points that satisfy every condition of \<^verbatim>\<open>must\<close>; for a match condition the payload's key has
  that value.
\<close>

fun term_filter :: "json \<Rightarrow> (string \<times> json) list" where
  "term_filter (JObj [(k, JObj [(field, v)])]) = (if k = ''term'' then [(field, v)] else [])"
| "term_filter _ = []"

definition term_filters :: "args \<Rightarrow> (string \<times> json) list" where
  "term_filters body =
     (case map_of body ''query'' of
        Some (JObj q) \<Rightarrow>
          (case map_of q ''bool'' of
             Some (JObj b) \<Rightarrow>
               (case map_of b ''filter'' of
                  Some (JList cs) \<Rightarrow> concat (map term_filter cs)
                | _ \<Rightarrow> [])
           | _ \<Rightarrow> [])
      | _ \<Rightarrow> [])"

definition hits_of :: "json \<Rightarrow> json list" where
  "hits_of resp =
     (case resp of
        JObj ps \<Rightarrow> (case map_of ps ''hits'' of
            Some (JObj b) \<Rightarrow> (case map_of b ''hits'' of Some (JList hs) \<Rightarrow> hs | _ \<Rightarrow> []) | _ \<Rightarrow> [])
      | _ \<Rightarrow> [])"

definition field_of :: "string \<Rightarrow> string \<Rightarrow> json \<Rightarrow> json option" where
  "field_of block k h =
     (case h of
        JObj ps \<Rightarrow> (case map_of ps block of Some (JObj d) \<Rightarrow> map_of d k | _ \<Rightarrow> None)
      | _ \<Rightarrow> None)"

definition honours_term_filters :: "'w elasticsearch_backend \<Rightarrow> bool" where
  "honours_term_filters eb \<longleftrightarrow>
     (\<forall>tenant index body d w resp w' h f v.
        eb_search eb tenant index body d w = (Inr resp, w') \<longrightarrow> h \<in> set (hits_of resp) \<longrightarrow>
        (f, v) \<in> set (term_filters body) \<longrightarrow> field_of ''_source'' f h = Some v)"

fun match_condition :: "json \<Rightarrow> (string \<times> json) list" where
  "match_condition (JObj [(k1, JStr key), (k2, JObj [(k3, v)])]) =
     (if k1 = ''key'' \<and> k2 = ''match'' \<and> k3 = ''value'' then [(key, v)] else [])"
| "match_condition _ = []"

definition must_matches :: "args \<Rightarrow> (string \<times> json) list" where
  "must_matches flt =
     (case map_of flt ''must'' of
        Some (JList cs) \<Rightarrow> concat (map match_condition cs)
      | _ \<Rightarrow> [])"

definition honours_must :: "'w vector_backend \<Rightarrow> bool" where
  "honours_must vb \<longleftrightarrow>
     (\<forall>coll vec n flt d w ms w' m f v.
        vb_search vb coll vec n flt d w = (Inr (JList ms), w') \<longrightarrow> m \<in> set ms \<longrightarrow>
        (f, v) \<in> set (must_matches flt) \<longrightarrow> field_of ''payload'' f m = Some v)"

lemma tenant_in_filters: "(''_tenant'', JStr tenant) \<in> set (term_filters (es_body tenant a))"
  by (simp add: term_filters_def es_body_def tenant_term_def)

lemma tenant_in_must:
  "combined_filter tenant flt = Inr f \<Longrightarrow> (''tenant'', JStr tenant) \<in> set (must_matches f)"
  using combined_filter_must [of tenant flt f] by (auto simp: must_matches_def tenant_clause_def)

lemma es_result_hits:
  assumes "es_result resp = Inr v"
  shows "\<exists>hs. map_of v ''hits'' = Some (JList hs) \<and> list_all2 (\<lambda>h j. es_hit h = Inr j) (hits_of resp) hs"
proof (cases resp)
  case (JObj ps)
  show ?thesis
  proof (cases "map_of ps ''hits''")
    case None
    with assms JObj show ?thesis
      by (auto simp: es_result_def res_simps es_total_def py_iter_def hits_of_def)
  next
    case (Some block)
    with assms JObj obtain b where b: "block = JObj b"
      by (auto simp: es_result_def res_simps py_get_def split: json.splits)
    let ?hits = "case map_of b ''hits'' of None \<Rightarrow> JList [] | Some h \<Rightarrow> h"
    from assms JObj Some b obtain raw hs where raw: "py_iter ?hits = Inr raw" and
      hs: "map_res es_hit raw = Inr hs" "map_of v ''hits'' = Some (JList hs)"
      by (auto simp: es_result_def res_simps)
    from hs(1) have l2: "list_all2 (\<lambda>h j. es_hit h = Inr j) raw hs" by (simp add: map_res_ok)
    have "raw = hits_of resp"
    proof (cases "?hits")
      case (JList xs)
      with raw JObj Some b show ?thesis by (auto simp: py_iter_def hits_of_def split: option.splits)
    next
      case (JObj qs)
      with raw l2 have "qs = []" by (cases qs) (auto simp: py_iter_def list_all2_Cons1 dest: es_hit_source)
      with raw JObj \<open>resp = JObj ps\<close> Some b show ?thesis
        by (auto simp: py_iter_def hits_of_def split: option.splits)
    next
      case (JStr s)
      with raw l2 have "s = []" by (cases s) (auto simp: py_iter_def list_all2_Cons1 dest: es_hit_source)
      with raw JStr \<open>resp = JObj ps\<close> Some b show ?thesis
        by (auto simp: py_iter_def hits_of_def split: option.splits)
    qed (use raw in \<open>simp_all add: py_iter_def\<close>)
    with l2 hs(2) show ?thesis by blast
  qed
qed (use assms in \<open>simp_all add: es_result_def py_get_def\<close>)

lemma es_confined:
  assumes "honours_term_filters eb" and "elasticsearch_run eb tenant ea d w = (Inr er, w1)"
  shows "\<exists>hs. map_of er ''hits'' = Some (JList hs) \<and>
    (\<forall>j \<in> set hs. field_of ''source'' ''_tenant'' j = Some (JStr tenant))"
proof -
  obtain resp where resp: "eb_search eb tenant (es_index ea) (es_body tenant ea) d w = (Inr resp, w1)"
    "es_result resp = Inr er"
    using assms(2) by (auto simp: elasticsearch_run_def shape_def res_simps split: prod.splits)
  from es_result_hits [OF resp(2)] obtain hs where hs: "map_of er ''hits'' = Some (JList hs)"
    "list_all2 (\<lambda>h j. es_hit h = Inr j) (hits_of resp) hs" by blast
  have "field_of ''source'' ''_tenant'' j = Some (JStr tenant)" if "j \<in> set hs" for j
  proof -
    from list_all2_right [OF hs(2) that] obtain h where h: "h \<in> set (hits_of resp)" "es_hit h = Inr j" by blast
    from assms(1) resp(1) h(1) tenant_in_filters have "field_of ''_source'' ''_tenant'' h = Some (JStr tenant)"
      unfolding honours_term_filters_def by blast
    with es_hit_source [OF h(2)] show ?thesis by (auto simp: field_of_def split: option.splits)
  qed
  with hs(1) show ?thesis by blast
qed

lemma vector_confined:
  assumes "honours_must vb" and "vector_run vb tenant va d w = (Inr vr, w2)"
  shows "\<exists>ms. map_of vr ''matches'' = Some (JList ms) \<and>
    (\<forall>j \<in> set ms. field_of ''payload'' ''tenant'' j = Some (JStr tenant))"
proof -
  from assms(2) obtain flt res raw ms where flt: "combined_filter tenant (vs_filter va) = Inr flt"
    and res: "vb_search vb (vs_collection va) (vs_vector va) (vs_top_k va) flt d w = (Inr res, w2)"
    and raw: "py_iter res = Inr raw" "map_res vector_match raw = Inr ms" "vr = [(''matches'', JList ms)]"
    by (auto simp: vector_run_def shape_def res_simps split: prod.splits sum.splits)
  have l2: "list_all2 (\<lambda>m j. vector_match m = Inr j) raw ms" using raw(2) by (simp add: map_res_ok)
  have "field_of ''payload'' ''tenant'' j = Some (JStr tenant)" if "j \<in> set ms" for j
  proof -
    from list_all2_right [OF l2 that] obtain m where m: "m \<in> set raw" "vector_match m = Inr j" by blast
    from vector_match_payload [OF m(2)] obtain ps where "m = JObj ps" by blast
    with raw(1) m(1) have "res = JList raw" by (cases res) (auto simp: py_iter_def)
    with assms(1) res m(1) tenant_in_must [OF flt] have "field_of ''payload'' ''tenant'' m = Some (JStr tenant)"
      unfolding honours_must_def by blast
    with vector_match_payload [OF m(2)] show ?thesis
      by (auto simp: field_of_def split: option.splits json.splits if_splits)
  qed
  with raw(3) show ?thesis by simp
qed


text \<open>Engines that hold two documents, of two tenants.\<close>

definition demo_docs :: "string \<Rightarrow> string \<Rightarrow> json list" where
  "demo_docs block k = map (\<lambda>t. JObj [(''_id'', JStr t), (''id'', JStr t), (block, JObj [(k, JStr t)])]) [''acme'', ''other'']"

definition demo_es :: "unit elasticsearch_backend" where
  "demo_es = \<lparr>eb_search = (\<lambda>tenant index body d w.
       (Inr (JObj [(''hits'', JObj [(''hits'', JList
          (filter (\<lambda>h. list_all (\<lambda>(f, v). field_of ''_source'' f h = Some v) (term_filters body))
             (demo_docs ''_source'' ''_tenant'')))])]), w)),
     eb_status_code = (\<lambda>_. None), eb_status = (\<lambda>_. None)\<rparr>"

definition demo_vectors :: "unit vector_backend" where
  "demo_vectors = \<lparr>vb_search = (\<lambda>coll vec n flt d w.
       (Inr (JList (filter (\<lambda>h. list_all (\<lambda>(f, v). field_of ''payload'' f h = Some v) (must_matches flt))
          (demo_docs ''payload'' ''tenant''))), w))\<rparr>"

definition demo_es_input :: elasticsearch_input where
  "demo_es_input = \<lparr>es_index = ''docs'', es_query = [], es_size = 5, es_fields = None\<rparr>"

definition demo_vector_input :: vector_input where
  "demo_vector_input = \<lparr>vs_collection = ''docs'', vs_vector = [1], vs_top_k = 5, vs_filter = None\<rparr>"


end
