(* ===== verification/Outbound_Tools.thy ===== *)
theory Outbound_Tools
  imports Search_Tools Allowlist
begin

text \<open>
  The object store tools (\<^verbatim>\<open>tools/atomic/s3_storage.py\<close>, \<^verbatim>\<open>tools/clients/s3_client.py\<close>), the HTTP
  fetch tool (\<^verbatim>\<open>tools/atomic/http_client.py\<close>), the embedding client
  (\<^verbatim>\<open>tools/atomic/embeddings.py\<close>) and the ping stub (\<^verbatim>\<open>tools/stub.py\<close>). Bytes are characters;
  the UTF-8 codec is a parameter, as are the services.
\<close>

record codec =
  cd_encode :: "string \<Rightarrow> string"
  cd_decode :: "string \<Rightarrow> string"

section \<open>Objects\<close>

definition tenant_key :: "string \<Rightarrow> string \<Rightarrow> string" where
  "tenant_key tenant key = tenant @ ''/'' @ lstrip_char (CHR ''/'') key"

record 'w object_store =
  ob_get :: "string \<Rightarrow> string \<Rightarrow> int \<Rightarrow> ('w, string) coro"
  ob_put :: "string \<Rightarrow> string \<Rightarrow> string \<Rightarrow> string \<Rightarrow> (string \<times> string) list \<Rightarrow> ('w, unit) coro"
  ob_response :: "exc \<Rightarrow> json option"

definition s3_error_code :: "json option \<Rightarrow> json outcome" where
  "s3_error_code response =
     (case response of
        Some (JObj ps) \<Rightarrow> bind_res (py_get ''Error'' (JObj []) (JObj ps)) (py_get ''Code'' JNull)
      | _ \<Rightarrow> Inr JNull)"

definition map_s3_error :: "(exc \<Rightarrow> json option) \<Rightarrow> string \<Rightarrow> exc \<Rightarrow> tool_error outcome" where
  "map_s3_error response key x =
     bind_res (s3_error_code (response x)) (\<lambda>code.
       if code = JStr ''NoSuchKey'' then
         Inr (mk_error UpstreamError ''not_found'' False
           (Some (''s3 key '' @ py_repr key @ '' does not exist'')) None)
       else
         Inr (mk_error UpstreamError ''s3_error''
           (code \<in> {JStr ''InternalError'', JStr ''SlowDown''})
           (Some (hint_or x ''s3 operation failed'')) (Some [(''s3_code'', code)])))"

record s3_get_input =
  sg_key :: string
  sg_max_bytes :: int

definition new_s3_get_input :: "string \<Rightarrow> int \<Rightarrow> s3_get_input outcome" where
  "new_s3_get_input key max_bytes =
     (if 1024 < length (py_strip key) \<or> max_bytes < 1 \<or> 10485760 < max_bytes then Inl (validation_failed '''')
      else Inr \<lparr>sg_key = py_strip key, sg_max_bytes = max_bytes\<rparr>)"

definition s3_get_run ::
    "codec \<Rightarrow> 'w object_store \<Rightarrow> settings \<Rightarrow> string \<Rightarrow> s3_get_input \<Rightarrow> ('w, args) coro" where
  "s3_get_run cd ob cfg tenant a deadline w =
     (case ob_get ob (s3_bucket cfg) (tenant_key tenant (sg_key a)) (sg_max_bytes a) deadline w of
        (r, w1) \<Rightarrow>
          shape (convert_errors (map_s3_error (ob_response ob) (sg_key a)) r, w1)
            (\<lambda>body. Inr [(''key'', JStr (sg_key a)), (''size_bytes'', JInt (int (length body))),
               (''content'', JStr (cd_decode cd body))]))"

record s3_put_input =
  sp_key :: string
  sp_content :: string
  sp_content_type :: string

definition new_s3_put_input :: "string \<Rightarrow> string \<Rightarrow> string \<Rightarrow> s3_put_input outcome" where
  "new_s3_put_input key content content_type =
     (if 1024 < length (py_strip key) \<or> 1000000 < length (py_strip content) \<or> 128 < length (py_strip content_type)
      then Inl (validation_failed '''')
      else Inr \<lparr>sp_key = py_strip key, sp_content = py_strip content, sp_content_type = py_strip content_type\<rparr>)"

definition s3_put_run ::
    "codec \<Rightarrow> 'w object_store \<Rightarrow> settings \<Rightarrow> string \<Rightarrow> s3_put_input \<Rightarrow> ('w, args) coro" where
  "s3_put_run cd ob cfg tenant a deadline w =
     (let payload = cd_encode cd (sp_content a)
      in case ob_put ob (s3_bucket cfg) (tenant_key tenant (sp_key a)) payload (sp_content_type a)
                [(''tenant'', tenant)] deadline w of
           (r, w1) \<Rightarrow>
             shape (convert_errors (map_s3_error (ob_response ob) (sp_key a)) r, w1)
               (\<lambda>_. Inr [(''key'', JStr (sp_key a)), (''bytes_written'', JInt (int (length payload)))]))"

text \<open>The production adapter reads a byte range of the object.\<close>

definition byte_range :: "int \<Rightarrow> string" where
  "byte_range max_bytes = ''bytes=0-'' @ str_of_int (max_bytes - 1)"

definition s3_get_object ::
    "(string \<Rightarrow> string \<Rightarrow> string \<Rightarrow> ('w, string) coro) \<Rightarrow> string \<Rightarrow> string \<Rightarrow> int \<Rightarrow> ('w, string) coro" where
  "s3_get_object client bucket key max_bytes = client bucket key (byte_range max_bytes)"

section \<open>HTTP\<close>

definition allowed_methods :: "string list" where
  "allowed_methods = [''GET'', ''POST'', ''PUT'', ''PATCH'', ''DELETE'']"

definition must_be_https :: "(string \<Rightarrow> bool) \<Rightarrow> string \<Rightarrow> string outcome" where
  "must_be_https bracket_ok value =
     (case url_hostname bracket_ok value of
        Inl x \<Rightarrow> Inl x
      | Inr host \<Rightarrow>
          if fst (split_scheme (clean_url value)) \<noteq> ''https''
          then Inl (value_error ''only https:// URLs are permitted'')
          else if host = None \<or> host = Some '''' then Inl (value_error ''missing hostname'')
          else Inr value)"

definition method_allowed :: "string \<Rightarrow> string outcome" where
  "method_allowed value =
     (let upper = str_upper value
      in if upper \<notin> set allowed_methods then Inl (value_error ''unsupported method'') else Inr upper)"

record http_input =
  hi_url :: string
  hi_method :: string
  hi_headers :: "(string \<times> string) list option"
  hi_body :: "args option"
  hi_timeout_s :: rat

definition new_http_input ::
    "(string \<Rightarrow> bool) \<Rightarrow> string \<Rightarrow> string \<Rightarrow> (string \<times> string) list option \<Rightarrow> args option \<Rightarrow> rat
       \<Rightarrow> http_input outcome" where
  "new_http_input bracket_ok url meth headers body timeout_s =
     (if 2048 < length (py_strip url) \<or> timeout_s < 1/2 \<or> 30 < timeout_s then Inl (validation_failed '''')
      else (case (must_be_https bracket_ok (py_strip url), method_allowed (py_strip meth)) of
              (Inr u, Inr m) \<Rightarrow>
                Inr \<lparr>hi_url = u, hi_method = m,
                  hi_headers = map_option (map (\<lambda>(k, v). (py_strip k, py_strip v))) headers,
                  hi_body = body, hi_timeout_s = timeout_s\<rparr>
            | _ \<Rightarrow> Inl (validation_failed '''')))"

record http_response =
  ht_status :: int
  ht_headers :: "(string \<times> string) list"
  ht_content :: string

text \<open>The client, without redirects, and the two exception classes the tool tells apart.\<close>

record 'w http_client =
  hc_request :: "rat \<Rightarrow> string \<Rightarrow> string \<Rightarrow> (string \<times> string) list \<Rightarrow> args option \<Rightarrow> ('w, http_response) coro"
  hc_timeout_error :: "exc \<Rightarrow> bool"
  hc_request_error :: "exc \<Rightarrow> bool"

definition network_error :: "string \<Rightarrow> exc \<Rightarrow> exc" where
  "network_error code x = Tool_Exc (mk_error UpstreamError code True (Some (exc_text x)) None)"

definition http_body_limit :: nat where
  "http_body_limit = 64 * 1024"

definition http_result :: "codec \<Rightarrow> http_response \<Rightarrow> args" where
  "http_result cd resp =
     (let body = take http_body_limit (ht_content resp)
      in [(''status'', JInt (ht_status resp)),
          (''headers'', JObj (map (\<lambda>(k, v). (k, JStr v)) (ht_headers resp))),
          (''body'', JStr (cd_decode cd body)),
          (''truncated'', JBool (length body < length (ht_content resp)))])"

definition http_run ::
    "codec \<Rightarrow> (string \<Rightarrow> bool) \<Rightarrow> 'w http_client \<Rightarrow> allowlist \<Rightarrow> string \<Rightarrow> http_input \<Rightarrow> ('w, args) coro" where
  "http_run cd bracket_ok hc al tenant a deadline w =
     (case url_hostname bracket_ok (hi_url a) of
        Inl x \<Rightarrow> (Inl x, w)
      | Inr h \<Rightarrow>
          (case allowlist_check al tenant (or_str h '''') of
             Inl x \<Rightarrow> (Inl x, w)
           | Inr _ \<Rightarrow>
               (case hc_request hc (hi_timeout_s a) (hi_method a) (hi_url a)
                       (case hi_headers a of None \<Rightarrow> [] | Some hs \<Rightarrow> hs) (hi_body a) deadline w of
                  (Inl x, w1) \<Rightarrow>
                    (Inl (if hc_timeout_error hc x then network_error ''http_timeout'' x
                          else if hc_request_error hc x then network_error ''http_network_error'' x
                          else x), w1)
                | (Inr resp, w1) \<Rightarrow> (Inr (http_result cd resp), w1))))"

section \<open>Embeddings\<close>

record 'w embedding_client =
  em_base_url :: string
  em_api_key :: string
  em_model :: string
  em_post :: "string \<Rightarrow> args \<Rightarrow> (string \<times> string) list \<Rightarrow> ('w, http_reply) coro"
  em_status_text :: "int \<Rightarrow> string"
  em_request_error :: "exc \<Rightarrow> bool"

definition embedding_rows :: "json \<Rightarrow> json list outcome" where
  "embedding_rows body =
     (let item = (\<lambda>k j. case j of
            JObj ps \<Rightarrow> (case map_of ps k of None \<Rightarrow> Inl (Py_Exc ''KeyError'' (py_repr k)) | Some v \<Rightarrow> Inr v)
          | _ \<Rightarrow> Inl (Py_Exc ''TypeError'' ''''))
      in bind_res (item ''data'' body) (\<lambda>rows. bind_res (py_iter rows) (map_res (item ''embedding''))))"

definition embed :: "'w embedding_client \<Rightarrow> string list \<Rightarrow> ('w, json list) coro" where
  "embed em texts deadline w =
     (case em_post em (rstrip_char (CHR ''/'') (em_base_url em) @ ''/embeddings'')
             [(''model'', JStr (em_model em)), (''input'', JList (map JStr texts))]
             (if em_api_key em \<noteq> '''' then [(''Authorization'', ''Bearer '' @ em_api_key em)] else [])
             deadline w of
        (Inl x, w1) \<Rightarrow>
          (Inl (if em_request_error em x then network_error ''embedding_network_error'' x else x), w1)
      | (Inr reply, w1) \<Rightarrow>
          if hr_status reply < 200 \<or> 299 < hr_status reply then
            (Inl (Tool_Exc (mk_error UpstreamError ''embedding_error''
               (hr_status reply \<in> {429, 500, 502, 503, 504})
               (Some (take 200 (em_status_text em (hr_status reply))))
               (Some [(''status'', JInt (hr_status reply))]))), w1)
          else (embedding_rows (hr_body reply), w1))"

section \<open>The ping stub\<close>

datatype ping_mode = ECHO | SILENT

fun ping_mode_value :: "ping_mode \<Rightarrow> string" where
  "ping_mode_value ECHO = ''echo''"
| "ping_mode_value SILENT = ''silent''"

definition ping_run :: "string \<Rightarrow> string \<Rightarrow> ping_mode \<Rightarrow> ('w, args) coro" where
  "ping_run tenant message mode deadline w =
     (Inr [(''pong'', JBool True), (''message'', JStr (if mode = SILENT then '''' else message)),
        (''tenant'', JStr tenant), (''mode'', JStr (ping_mode_value mode))], w)"

section \<open>Properties\<close>

lemma tenant_key_split: "takeWhile (\<lambda>c. c \<noteq> CHR ''/'') (tenant_key t k) = t" if "CHR ''/'' \<notin> set t"
proof -
  have "takeWhile (\<lambda>c. c \<noteq> CHR ''/'') t = t" using that by (simp add: takeWhile_eq_all_conv) blast
  then show ?thesis using that by (auto simp: tenant_key_def)
qed

lemma tenant_key_inj:
  assumes "CHR ''/'' \<notin> set t" and "CHR ''/'' \<notin> set t'" and "tenant_key t k = tenant_key t' k'"
  shows "t = t' \<and> lstrip_char (CHR ''/'') k = lstrip_char (CHR ''/'') k'"
proof -
  have "t = t'" using tenant_key_split [OF assms(1), of k] tenant_key_split [OF assms(2), of k'] assms(3) by simp
  with assms(3) show ?thesis by (simp add: tenant_key_def)
qed

lemma tenant_key_slash: "tenant_key ''a'' ''b/c'' = tenant_key ''a/b'' ''c''"
  by code_simp

text \<open>
  What an object store documents: reading gives a prefix of the object under the key and changes
  nothing; a successful write replaces the object under its key, a failed one may have.
\<close>

type_synonym objects = "string \<times> string \<Rightarrow> string option"

definition honours_objects :: "'w object_store \<Rightarrow> ('w \<Rightarrow> objects) \<Rightarrow> bool" where
  "honours_objects ob view \<longleftrightarrow>
     (\<forall>b k n d w r w'. ob_get ob b k n d w = (r, w') \<longrightarrow> view w' = view w \<and>
        (\<forall>body. r = Inr body \<longrightarrow> map_option (take (nat n)) (view w (b, k)) = Some body)) \<and>
     (\<forall>b k v ct md d w r w'. ob_put ob b k v ct md d w = (r, w') \<longrightarrow>
        view w' = (view w)((b, k) \<mapsto> v) \<or> view w' = view w \<and> r \<noteq> Inr ())"

lemma honours_get:
  "honours_objects ob view \<Longrightarrow> ob_get ob b k n d w = (Inr body, w') \<Longrightarrow>
     map_option (take (nat n)) (view w (b, k)) = Some body"
  unfolding honours_objects_def by (drule conjunct1, elim allE, drule mp, assumption, simp)

lemma honours_put:
  "honours_objects ob view \<Longrightarrow> ob_put ob b k v ct md d w = (r, w') \<Longrightarrow>
     view w' = (view w)((b, k) \<mapsto> v) \<or> view w' = view w \<and> r \<noteq> Inr ()"
  unfolding honours_objects_def by (drule conjunct2, elim allE, drule mp, assumption, assumption)

text \<open>C24: Objects of tenants are separate, and what was stored is what is read. Under the tenant
  prefix, when no tenant's name contains a slash, a write by one tenant, successful or not,
  changes no object that any key of another tenant addresses; and after a successful write the
  same tenant reads the content back, under any spelling of the key with more or fewer leading
  slashes, unless it asks for fewer bytes.\<close>

theorem s3_tenant_isolation:
  assumes "honours_objects ob view" and "\<And>s. cd_decode cd (cd_encode cd s) = s"
    and "CHR ''/'' \<notin> set tenant"
    and "s3_put_run cd ob cfg tenant pa d w = (r, w1)"
  shows "(\<forall>other key. other \<noteq> tenant \<and> CHR ''/'' \<notin> set other \<longrightarrow>
      view w1 (s3_bucket cfg, tenant_key other key) = view w (s3_bucket cfg, tenant_key other key)) \<and>
    (\<forall>ga d' v w2. is_ok r \<and> lstrip_char (CHR ''/'') (sg_key ga) = lstrip_char (CHR ''/'') (sp_key pa) \<and>
      int (length (cd_encode cd (sp_content pa))) \<le> sg_max_bytes ga \<and>
      s3_get_run cd ob cfg tenant ga d' w1 = (Inr v, w2) \<longrightarrow>
      map_of v ''content'' = Some (JStr (sp_content pa)))"
proof -
  let ?k = "tenant_key tenant (sp_key pa)" and ?p = "cd_encode cd (sp_content pa)"
  obtain r0 where put: "ob_put ob (s3_bucket cfg) ?k ?p (sp_content_type pa) [(''tenant'', tenant)] d w = (r0, w1)"
    and r: "is_ok r \<longleftrightarrow> r0 = Inr ()"
    using assms(4) by (auto simp: s3_put_run_def shape_def Let_def res_simps split: prod.splits)
  note view = honours_put [OF assms(1) put]
  have "view w1 (s3_bucket cfg, tenant_key other key) = view w (s3_bucket cfg, tenant_key other key)"
    if "other \<noteq> tenant" "CHR ''/'' \<notin> set other" for other key
    using view tenant_key_inj [OF that(2) assms(3), of key "sp_key pa"] that(1) by auto
  moreover have "map_of v ''content'' = Some (JStr (sp_content pa))"
    if "is_ok r" "lstrip_char (CHR ''/'') (sg_key ga) = lstrip_char (CHR ''/'') (sp_key pa)"
      "int (length ?p) \<le> sg_max_bytes ga" "s3_get_run cd ob cfg tenant ga d' w1 = (Inr v, w2)" for ga d' v w2
  proof -
    have key: "tenant_key tenant (sg_key ga) = ?k" using that(2) by (simp add: tenant_key_def)
    from that(4) obtain body where get: "ob_get ob (s3_bucket cfg) ?k (sg_max_bytes ga) d' w1 = (Inr body, w2)"
      and v: "map_of v ''content'' = Some (JStr (cd_decode cd body))"
      by (auto simp: s3_get_run_def shape_def key res_simps split: prod.splits)
    note honours_get [OF assms(1) get]
    moreover have "view w1 (s3_bucket cfg, ?k) = Some ?p" using view that(1) r by auto
    moreover have "take (nat (sg_max_bytes ga)) ?p = ?p" using that(3) by simp
    ultimately have "body = ?p" by simp
    with v assms(2) show ?thesis by simp
  qed
  ultimately show ?thesis by blast
qed

definition demo_codec :: codec where
  "demo_codec = \<lparr>cd_encode = (\<lambda>s. s), cd_decode = (\<lambda>s. s)\<rparr>"

definition demo_objects :: "objects object_store" where
  "demo_objects = \<lparr>ob_get = (\<lambda>b k n d m. case m (b, k) of
       None \<Rightarrow> (Inl (Py_Exc ''ClientError'' ''''), m) | Some v \<Rightarrow> (Inr (take (nat n) v), m)),
     ob_put = (\<lambda>b k v ct md d m. (Inr (), m((b, k) \<mapsto> v))), ob_response = (\<lambda>_. None)\<rparr>"

theorem s3_tenant_isolation_witness:
  "snd (s3_put_run demo_codec demo_objects default_settings ''acme''
      \<lparr>sp_key = ''/a'', sp_content = ''x'', sp_content_type = ''text/plain''\<rparr> 0 Map.empty)
     (''atlas-mcp-data'', tenant_key ''other'' ''a'') = None"
proof -
  let ?put = "s3_put_run demo_codec demo_objects default_settings ''acme''
      \<lparr>sp_key = ''/a'', sp_content = ''x'', sp_content_type = ''text/plain''\<rparr> 0 Map.empty"
  have "honours_objects demo_objects (\<lambda>m. m)"
    by (auto simp: honours_objects_def demo_objects_def split: option.splits)
  moreover have "cd_decode demo_codec (cd_encode demo_codec s) = s" for s by (simp add: demo_codec_def)
  moreover have "CHR ''/'' \<notin> set ''acme''" by simp
  moreover have "?put = (fst ?put, snd ?put)" by simp
  ultimately have "\<forall>other key. other \<noteq> ''acme'' \<and> CHR ''/'' \<notin> set other \<longrightarrow>
      snd ?put (s3_bucket default_settings, tenant_key other key) = Map.empty (s3_bucket default_settings, tenant_key other key)"
    by (rule s3_tenant_isolation [THEN conjunct1])
  then show ?thesis by simp
qed


definition demo_http :: "nat http_client" where
  "demo_http = \<lparr>hc_request = (\<lambda>t m u hs b d w. (Inr \<lparr>ht_status = 200, ht_headers = [], ht_content = ''ok''\<rparr>, w + 1)),
     hc_timeout_error = (\<lambda>_. False), hc_request_error = (\<lambda>_. False)\<rparr>"

definition evil_input :: http_input where
  "evil_input = \<lparr>hi_url = ''https://evil.example/x'', hi_method = ''GET'', hi_headers = None, hi_body = None,
     hi_timeout_s = 10\<rparr>"


end
