(* ===== verification/Composed_Tools.thy ===== *)
theory Composed_Tools
  imports Outbound_Tools "HOL-Library.Multiset"
begin

text \<open>
  The composed and workflow tools (\<^verbatim>\<open>tools/composed/hybrid_search.py\<close>,
  \<^verbatim>\<open>tools/composed/semantic_search.py\<close>, \<^verbatim>\<open>tools/workflow/customer_context.py\<close>): reciprocal rank
  fusion of two result lists, semantic search with hydration, and the fan-out that survives the
  failure of its parts.

  Tasks that run at the same time are run one after another here, in the order they are created.
\<close>

section \<open>Values from the results of other tools\<close>

text \<open>Subscripts with keys the tools' own results and the selected columns always have.\<close>

definition field :: "string \<Rightarrow> json \<Rightarrow> json" where
  "field k j = (case j of JObj ps \<Rightarrow> (case map_of ps k of None \<Rightarrow> JNull | Some v \<Rightarrow> v) | _ \<Rightarrow> JNull)"

definition list_field :: "string \<Rightarrow> args \<Rightarrow> json list" where
  "list_field k ps = (case map_of ps k of Some (JList xs) \<Rightarrow> xs | _ \<Rightarrow> [])"

section \<open>Reciprocal rank fusion\<close>

text \<open>
  \<^verbatim>\<open>{id: rank for rank, h in enumerate(hits, start=1)}\<close>: a later hit with the same id overwrites the
  rank in place.
\<close>

fun ranks_from :: "int \<Rightarrow> string list \<Rightarrow> (string, int) odict \<Rightarrow> (string, int) odict" where
  "ranks_from rank [] d = d"
| "ranks_from rank (i # ids) d = ranks_from (rank + 1) ids (AList.update i rank d)"

definition ranks :: "string list \<Rightarrow> (string, int) odict" where
  "ranks ids = ranks_from 1 ids []"

definition reciprocal :: "int \<Rightarrow> (string, int) odict \<Rightarrow> string \<Rightarrow> rat" where
  "reciprocal rrf_k d doc_id =
     (case map_of d doc_id of None \<Rightarrow> 0 | Some rank \<Rightarrow> 1 / of_int (rrf_k + rank))"

definition rrf_score :: "int \<Rightarrow> (string, int) odict \<Rightarrow> (string, int) odict \<Rightarrow> string \<Rightarrow> rat" where
  "rrf_score rrf_k lexical dense doc_id = 0 + reciprocal rrf_k lexical doc_id + reciprocal rrf_k dense doc_id"

text \<open>
  The loop goes over the union of two sets in an order Python does not fix: \<open>order\<close> lists a set's
  elements in some order. The sort is stable and descending.
\<close>

definition fused ::
    "(string list \<Rightarrow> string list) \<Rightarrow> int \<Rightarrow> (string, int) odict \<Rightarrow> (string, int) odict \<Rightarrow> (string \<times> rat) list" where
  "fused order rrf_k lexical dense =
     sort_key (\<lambda>p. - snd p)
       (map (\<lambda>i. (i, rrf_score rrf_k lexical dense i)) (order (remdups (keys_of lexical @ keys_of dense))))"

definition round6 :: "rat \<Rightarrow> rat" where
  "round6 x = of_int (round_half_even (1000000 * x)) / 1000000"

text \<open>\<^verbatim>\<open>(es_hit or {}).get("source") or (vec_hit or {}).get("payload") or {}\<close>\<close>

definition result_source :: "json option \<Rightarrow> json option \<Rightarrow> json" where
  "result_source eh vh =
     (let a = (case eh of None \<Rightarrow> JNull | Some h \<Rightarrow> field ''source'' h);
          b = (case vh of None \<Rightarrow> JNull | Some h \<Rightarrow> field ''payload'' h)
      in if truthy a then a else if truthy b then b else JObj [])"

definition opt_int :: "int option \<Rightarrow> json" where
  "opt_int r = (case r of None \<Rightarrow> JNull | Some n \<Rightarrow> JInt n)"

definition by_id :: "(json \<Rightarrow> string) \<Rightarrow> json list \<Rightarrow> (string, json) odict" where
  "by_id f hits = fold (\<lambda>h d. AList.update (f h) h d) hits []"

record hybrid_input =
  hy_query :: string
  hy_es_index :: string
  hy_vector_collection :: string
  hy_top_k :: int
  hy_rrf_k :: int

definition new_hybrid_input :: "string \<Rightarrow> string \<Rightarrow> string \<Rightarrow> int \<Rightarrow> int \<Rightarrow> hybrid_input outcome" where
  "new_hybrid_input query es_ix collection top_k rrf_k =
     (if py_strip query = '''' \<or> 4000 < length (py_strip query) \<or> 200 < length (py_strip es_ix)
         \<or> 200 < length (py_strip collection) \<or> top_k < 1 \<or> 50 < top_k \<or> rrf_k < 10 \<or> 200 < rrf_k
      then Inl (validation_failed '''')
      else Inr \<lparr>hy_query = py_strip query, hy_es_index = py_strip es_ix,
                hy_vector_collection = py_strip collection, hy_top_k = top_k, hy_rrf_k = rrf_k\<rparr>)"

definition hybrid_results ::
    "runtime \<Rightarrow> (string list \<Rightarrow> string list) \<Rightarrow> hybrid_input \<Rightarrow> json list \<Rightarrow> json list \<Rightarrow> args" where
  "hybrid_results rt order a hits matches =
     (let es_id = (\<lambda>h. py_str rt (field ''id'' h)); vec_id = (\<lambda>m. py_str rt (field ''id'' m));
          lexical = ranks (map es_id hits);
          dense = ranks (map vec_id matches);
          scored = fused order (hy_rrf_k a) lexical dense;
          result = (\<lambda>(i, s). JObj
             [(''id'', JStr i), (''rrf_score'', JFloat (round6 s)),
              (''lexical_rank'', opt_int (map_of lexical i)), (''dense_rank'', opt_int (map_of dense i)),
              (''source'', result_source (map_of (by_id es_id hits) i) (map_of (by_id vec_id matches) i))])
      in [(''query'', JStr (hy_query a)), (''results'', JList (map result (take (nat (hy_top_k a)) scored))),
          (''fused_from'', JInt (int (length scored)))])"

text \<open>An embedding is a list of numbers; the vector tool's input model refuses anything else.\<close>

fun vector_of :: "json list \<Rightarrow> rat list outcome" where
  "vector_of [] = Inr []"
| "vector_of (j # js) =
     (case j of
        JFloat x \<Rightarrow> bind_res (vector_of js) (\<lambda>xs. Inr (x # xs))
      | JInt n \<Rightarrow> bind_res (vector_of js) (\<lambda>xs. Inr (of_int n # xs))
      | _ \<Rightarrow> Inl (validation_failed ''''))"

definition first_embedding :: "json list \<Rightarrow> rat list outcome" where
  "first_embedding embeddings =
     (case embeddings of
        [] \<Rightarrow> Inl (Py_Exc ''IndexError'' ''list index out of range'')
      | JList xs # _ \<Rightarrow> vector_of xs
      | _ # _ \<Rightarrow> Inl (validation_failed ''''))"

definition multi_match :: "string \<Rightarrow> args" where
  "multi_match query =
     [(''multi_match'', JObj [(''query'', JStr query), (''fields'', JList [JStr ''title^2'', JStr ''body''])])]"

record 'w tool_backends =
  tb_runtime :: runtime
  tb_order :: "string list \<Rightarrow> string list"
  tb_es :: "'w elasticsearch_backend"
  tb_vectors :: "'w vector_backend"
  tb_postgres :: "'w postgres_backend"
  tb_embed :: "string list \<Rightarrow> ('w, json list) coro"

definition and_then :: "'a outcome \<times> 'w \<Rightarrow> ('a \<Rightarrow> 'w \<Rightarrow> 'b outcome \<times> 'w) \<Rightarrow> 'b outcome \<times> 'w" where
  "and_then rw f = (case rw of (Inl x, w) \<Rightarrow> (Inl x, w) | (Inr v, w) \<Rightarrow> f v w)"

definition hybrid_run :: "'w tool_backends \<Rightarrow> string \<Rightarrow> hybrid_input \<Rightarrow> ('w, args) coro" where
  "hybrid_run tb tenant a deadline w =
     (case new_elasticsearch_input (hy_es_index a) (multi_match (hy_query a)) (hy_top_k a * 2) None of
        Inl x \<Rightarrow> (Inl x, w)
      | Inr es_args \<Rightarrow>
          (case elasticsearch_run (tb_es tb) tenant es_args deadline w of (r1, w1) \<Rightarrow>
           case tb_embed tb [hy_query a] deadline w1 of (r2, w2) \<Rightarrow>
             and_then (r1, w2) (\<lambda>es_res _.
             and_then (r2, w2) (\<lambda>embeddings _.
               case bind_res (first_embedding embeddings)
                      (\<lambda>v. new_vector_input (hy_vector_collection a) v (hy_top_k a * 2) None) of
                 Inl x \<Rightarrow> (Inl x, w2)
               | Inr vs_args \<Rightarrow>
                   and_then (vector_run (tb_vectors tb) tenant vs_args deadline w2) (\<lambda>vs_res w3.
                     (Inr (hybrid_results (tb_runtime tb) (tb_order tb) a
                             (list_field ''hits'' es_res) (list_field ''matches'' vs_res)), w3))))))"

section \<open>Semantic search\<close>

record semantic_input =
  se_query :: string
  se_collection :: string
  se_top_k :: int
  se_hydrate :: bool

definition new_semantic_input :: "string \<Rightarrow> string \<Rightarrow> int \<Rightarrow> bool \<Rightarrow> semantic_input outcome" where
  "new_semantic_input query collection top_k hydrate =
     (if py_strip query = '''' \<or> 4000 < length (py_strip query) \<or> 200 < length (py_strip collection)
         \<or> top_k < 1 \<or> 25 < top_k
      then Inl (validation_failed '''')
      else Inr \<lparr>se_query = py_strip query, se_collection = py_strip collection, se_top_k = top_k,
                se_hydrate = hydrate\<rparr>)"

definition without_text :: "json \<Rightarrow> json outcome" where
  "without_text payload =
     (case payload of
        JObj ps \<Rightarrow> Inr (JObj (filter (\<lambda>(k, v). k \<noteq> ''text'') ps))
      | j \<Rightarrow> Inl (no_attribute j ''items''))"

text \<open>\<^verbatim>\<open>(payload.get("text") or "")[:300]\<close>\<close>

definition preview :: "json \<Rightarrow> json outcome" where
  "preview payload =
     bind_res (py_get ''text'' JNull payload) (\<lambda>t.
       if \<not> truthy t then Inr (JStr '''')
       else (case t of
               JStr s \<Rightarrow> Inr (JStr (take 300 s))
             | JList xs \<Rightarrow> Inr (JList (take 300 xs))
             | j \<Rightarrow> Inl (Py_Exc ''TypeError'' ([sq_char] @ py_type j @ [sq_char] @ '' object is not subscriptable''))))"

definition preview_result :: "json \<Rightarrow> json outcome" where
  "preview_result m =
     bind_res (preview (field ''payload'' m)) (\<lambda>p.
     bind_res (without_text (field ''payload'' m)) (\<lambda>md.
       Inr (JObj [(''id'', field ''id'' m), (''score'', field ''score'' m), (''preview'', p), (''metadata'', md)])))"

definition hydrated_result :: "runtime \<Rightarrow> (string, json) odict \<Rightarrow> json \<Rightarrow> json outcome" where
  "hydrated_result rt docs m =
     (let doc = (case map_of docs (py_str rt (field ''id'' m)) of None \<Rightarrow> JObj [] | Some d \<Rightarrow> d)
      in bind_res (without_text (field ''payload'' m)) (\<lambda>md.
           Inr (JObj [(''id'', field ''id'' m), (''score'', field ''score'' m),
             (''title'', field ''title'' doc), (''body'', field ''body'' doc), (''url'', field ''url'' doc),
             (''metadata'', md)])))"

definition hydrate_sql :: string where
  "hydrate_sql = ''SELECT id, title, body, url FROM documents WHERE id = ANY($1::text[])''"

definition query_results :: "string \<Rightarrow> json list \<Rightarrow> args" where
  "query_results query rs = [(''query'', JStr query), (''results'', JList rs)]"

definition semantic_run :: "'w tool_backends \<Rightarrow> string \<Rightarrow> semantic_input \<Rightarrow> ('w, args) coro" where
  "semantic_run tb tenant a deadline w =
     and_then (tb_embed tb [se_query a] deadline w) (\<lambda>vectors w1.
       case bind_res (first_embedding vectors) (\<lambda>v. new_vector_input (se_collection a) v (se_top_k a) None) of
         Inl x \<Rightarrow> (Inl x, w1)
       | Inr vs_args \<Rightarrow>
           and_then (vector_run (tb_vectors tb) tenant vs_args deadline w1) (\<lambda>vs_result w2.
             let matches = list_field ''matches'' vs_result
             in if matches = [] then (Inr (query_results (se_query a) []), w2)
                else if \<not> se_hydrate a then
                  (bind_res (map_res preview_result matches) (\<lambda>rs. Inr (query_results (se_query a) rs)), w2)
                else
                  (let rt = tb_runtime tb; ids = map (\<lambda>m. JStr (py_str rt (field ''id'' m))) matches
                   in case new_postgres_input hydrate_sql [JList ids] (se_top_k a) of
                        Inl x \<Rightarrow> (Inl x, w2)
                      | Inr pg_args \<Rightarrow>
                          and_then (postgres_run (tb_postgres tb) tenant pg_args deadline w2) (\<lambda>pg w3.
                            (bind_res
                               (map_res (hydrated_result rt
                                  (by_id (\<lambda>r. py_str rt (field ''id'' r)) (list_field ''rows'' pg))) matches)
                               (\<lambda>rs. Inr (query_results (se_query a) rs)), w3)))))"

section \<open>The customer context\<close>

record customer_input =
  cu_customer_id :: string
  cu_question :: string
  cu_include_orders :: bool
  cu_include_tickets :: bool
  cu_include_docs :: bool
  cu_orders_limit :: int

text \<open>The pattern \<^verbatim>\<open>^[A-Za-z0-9\-_]{1,64}$\<close>, whose dollar is the end of the text in Pydantic's engine.\<close>

definition customer_id_ok :: "string \<Rightarrow> bool" where
  "customer_id_ok s \<longleftrightarrow> s \<noteq> '''' \<and> length s \<le> 64 \<and>
     list_all (\<lambda>c. is_alpha c \<or> is_digit c \<or> c = CHR ''-'' \<or> c = CHR ''_'') s"

definition new_customer_input ::
    "string \<Rightarrow> string \<Rightarrow> bool \<Rightarrow> bool \<Rightarrow> bool \<Rightarrow> int \<Rightarrow> customer_input outcome" where
  "new_customer_input customer_id question orders tickets docs orders_limit =
     (if \<not> customer_id_ok (py_strip customer_id) \<or> py_strip question = '''' \<or> 2000 < length (py_strip question)
         \<or> orders_limit < 1 \<or> 20 < orders_limit
      then Inl (validation_failed '''')
      else Inr \<lparr>cu_customer_id = py_strip customer_id, cu_question = py_strip question, cu_include_orders = orders,
                cu_include_tickets = tickets, cu_include_docs = docs, cu_orders_limit = orders_limit\<rparr>)"

definition run_postgres ::
    "'w tool_backends \<Rightarrow> string \<Rightarrow> string \<Rightarrow> json list \<Rightarrow> int \<Rightarrow> ('w, args) coro" where
  "run_postgres tb tenant sql params max_rows deadline w =
     (case new_postgres_input sql params max_rows of
        Inl x \<Rightarrow> (Inl x, w)
      | Inr a \<Rightarrow> postgres_run (tb_postgres tb) tenant a deadline w)"

definition profile :: "'w tool_backends \<Rightarrow> string \<Rightarrow> string \<Rightarrow> ('w, json) coro" where
  "profile tb tenant customer_id deadline w =
     shape (run_postgres tb tenant
              ''SELECT id, name, email, tier, created_at FROM customers WHERE id = $1''
              [JStr customer_id] 1 deadline w)
       (\<lambda>result. Inr (case list_field ''rows'' result of [] \<Rightarrow> JObj [] | r # _ \<Rightarrow> r))"

definition recent_orders :: "'w tool_backends \<Rightarrow> string \<Rightarrow> string \<Rightarrow> int \<Rightarrow> ('w, json) coro" where
  "recent_orders tb tenant customer_id lmt deadline w =
     shape (run_postgres tb tenant
              (''SELECT id, status, total_cents, currency, created_at '' @
               ''FROM orders WHERE customer_id = $1 ORDER BY created_at DESC'')
              [JStr customer_id] lmt deadline w)
       (\<lambda>result. Inr (JList (list_field ''rows'' result)))"

definition ticket_query :: "string \<Rightarrow> args" where
  "ticket_query customer_id =
     [(''bool'', JObj [(''must'', JList
         [JObj [(''term'', JObj [(''customer_id'', JStr customer_id)])],
          JObj [(''terms'', JObj [(''status'', JList [JStr ''open'', JStr ''pending''])])]])])]"

text \<open>\<^verbatim>\<open>h["source"] | {"id": h["id"]}\<close>\<close>

definition ticket_of :: "json \<Rightarrow> json outcome" where
  "ticket_of h =
     (case field ''source'' h of
        JObj ps \<Rightarrow> Inr (JObj (AList.update ''id'' (field ''id'' h) ps))
      | j \<Rightarrow> Inl (Py_Exc ''TypeError'' (''unsupported operand type(s) for |: '' @ [sq_char] @ py_type j @ [sq_char]
            @ '' and '' @ [sq_char] @ ''dict'' @ [sq_char])))"

definition open_tickets :: "'w tool_backends \<Rightarrow> string \<Rightarrow> string \<Rightarrow> ('w, json) coro" where
  "open_tickets tb tenant customer_id deadline w =
     (case new_elasticsearch_input ''tickets'' (ticket_query customer_id) 10
             (Some [''subject'', ''status'', ''priority'', ''created_at'']) of
        Inl x \<Rightarrow> (Inl x, w)
      | Inr a \<Rightarrow>
          shape (elasticsearch_run (tb_es tb) tenant a deadline w)
            (\<lambda>result. bind_res (map_res ticket_of (list_field ''hits'' result)) (\<lambda>ts. Inr (JList ts))))"

definition relevant_docs :: "'w tool_backends \<Rightarrow> string \<Rightarrow> string \<Rightarrow> ('w, json) coro" where
  "relevant_docs tb tenant question deadline w =
     (case new_semantic_input question ''support_docs'' 3 False of
        Inl x \<Rightarrow> (Inl x, w)
      | Inr a \<Rightarrow>
          shape (semantic_run tb tenant a deadline w)
            (\<lambda>result. Inr (JList (list_field ''results'' result))))"

text \<open>\<^verbatim>\<open>gather(..., return_exceptions=True)\<close>: every task's outcome, an exception as a value.\<close>

fun gather :: "(string \<times> ('w, json) coro) list \<Rightarrow> rat \<Rightarrow> 'w \<Rightarrow> (string \<times> json outcome) list \<times> 'w" where
  "gather [] deadline w = ([], w)"
| "gather ((k, task) # tasks) deadline w =
     (case task deadline w of (r, w1) \<Rightarrow>
        case gather tasks deadline w1 of (rs, w2) \<Rightarrow> ((k, r) # rs, w2))"

definition context_tasks :: "'w tool_backends \<Rightarrow> string \<Rightarrow> customer_input \<Rightarrow> (string \<times> ('w, json) coro) list" where
  "context_tasks tb tenant a =
     [(''profile'', profile tb tenant (cu_customer_id a))] @
     (if cu_include_orders a then [(''orders'', recent_orders tb tenant (cu_customer_id a) (cu_orders_limit a))] else []) @
     (if cu_include_tickets a then [(''tickets'', open_tickets tb tenant (cu_customer_id a))] else []) @
     (if cu_include_docs a then [(''docs'', relevant_docs tb tenant (cu_question a))] else [])"

fun partial_error :: "exc \<Rightarrow> string" where
  "partial_error (Tool_Exc e) = err_code e"
| "partial_error x = ''internal_error: '' @ exc_type_name x"

fun collect_parts :: "(string \<times> json outcome) list \<Rightarrow> args \<Rightarrow> args \<Rightarrow> args \<times> args" where
  "collect_parts [] ctx errs = (ctx, errs)"
| "collect_parts ((k, r) # rs) ctx errs =
     (case r of
        Inl x \<Rightarrow> collect_parts rs ctx (AList.update k (JStr (partial_error x)) errs)
      | Inr v \<Rightarrow> collect_parts rs (AList.update k v ctx) errs)"

definition customer_context_run :: "'w tool_backends \<Rightarrow> string \<Rightarrow> customer_input \<Rightarrow> ('w, args) coro" where
  "customer_context_run tb tenant a deadline w =
     (case gather (context_tasks tb tenant a) deadline w of
        (rs, w1) \<Rightarrow>
          (case collect_parts rs [(''customer_id'', JStr (cu_customer_id a)), (''question'', JStr (cu_question a))] [] of
             (ctx, errs) \<Rightarrow>
               (Inr (if errs \<noteq> [] then AList.update ''partial_errors'' (JObj errs) ctx else ctx), w1)))"

section \<open>Facts\<close>

lemma ranks_from_other: "i \<notin> set ids \<Longrightarrow> map_of (ranks_from r ids d) i = map_of d i"
  by (induction r ids d rule: ranks_from.induct) auto

lemma ranks_from_last:
  "i \<in> set ids \<Longrightarrow> \<exists>n < length ids. ids ! n = i \<and> i \<notin> set (drop (Suc n) ids) \<and>
     map_of (ranks_from r ids d) i = Some (r + int n)"
proof (induction r ids d rule: ranks_from.induct)
  case (1 rank d)
  then show ?case by simp
next
  case (2 rank j ids d)
  show ?case
  proof (cases "i \<in> set ids")
    case True
    with 2 obtain n where "n < length ids" "ids ! n = i" "i \<notin> set (drop (Suc n) ids)"
      "map_of (ranks_from (rank + 1) ids (AList.update j rank d)) i = Some (rank + 1 + int n)" by blast
    then show ?thesis by (intro exI [of _ "Suc n"]) simp
  next
    case False
    with 2 show ?thesis by (intro exI [of _ 0]) (simp add: ranks_from_other)
  qed
qed

lemma ranks_keys: "set (keys_of (ranks ids)) = set ids"
proof -
  have "set (keys_of (ranks_from r ids d)) = set ids \<union> set (keys_of d)" for r d
    by (induction r ids d rule: ranks_from.induct) (auto simp: update_keys)
  then show ?thesis by (simp add: ranks_def)
qed

text \<open>An order of a set's elements.\<close>

definition lists_sets :: "(string list \<Rightarrow> string list) \<Rightarrow> bool" where
  "lists_sets order \<longleftrightarrow> (\<forall>xs. distinct xs \<longrightarrow> distinct (order xs) \<and> set (order xs) = set xs)"

lemma fused_ids:
  assumes "lists_sets order"
  shows "distinct (map fst (fused order k (ranks a) (ranks b)))"
    "set (map fst (fused order k (ranks a) (ranks b))) = set a \<union> set b"
proof -
  let ?ids = "order (remdups (keys_of (ranks a) @ keys_of (ranks b)))"
  let ?f = "\<lambda>i. (i, rrf_score k (ranks a) (ranks b) i)"
  have ids: "distinct ?ids" "set ?ids = set a \<union> set b"
    using assms by (simp_all add: lists_sets_def ranks_keys [unfolded set_map])
  have m: "mset (map fst (fused order k (ranks a) (ranks b))) = mset ?ids"
    unfolding fused_def by (simp add: image_mset.compositionality comp_def)
  show "distinct (map fst (fused order k (ranks a) (ranks b)))"
    using m ids(1) mset_eq_imp_distinct_iff by blast
  show "set (map fst (fused order k (ranks a) (ranks b))) = set a \<union> set b"
    using m ids(2) mset_eq_setD by blast
qed

lemma fused_scores: "(i, s) \<in> set (fused order k l d) \<Longrightarrow> s = rrf_score k l d i"
  by (auto simp: fused_def)

lemma fused_sorted: "sorted_wrt (\<lambda>p q. snd q \<le> snd p) (fused order k l d)"
proof -
  have "sorted (map (\<lambda>p. - snd p) (fused order k l d))" unfolding fused_def by simp
  then show ?thesis by (simp add: sorted_wrt_map)
qed

lemma take_before_drop:
  "sorted_wrt R xs \<Longrightarrow> p \<in> set (take n xs) \<Longrightarrow> q \<in> set (drop n xs) \<Longrightarrow> R p q"
  by (metis append_take_drop_id sorted_wrt_append)

lemma fused_score_list:
  assumes "lists_sets order" and "lists_sets order'"
  shows "map snd (fused order k (ranks a) (ranks b)) = map snd (fused order' k (ranks a) (ranks b))"
proof -
  let ?l = "ranks a" and ?d = "ranks b"
  let ?u = "remdups (keys_of ?l @ keys_of ?d)" and ?s = "rrf_score k ?l ?d"
  have "mset (order ?u) = mset (order' ?u)"
    using assms by (simp add: lists_sets_def set_eq_iff_mset_eq_distinct [symmetric])
  then have "mset (map ?s (order ?u)) = mset (map ?s (order' ?u))" by simp
  then have m: "mset (map snd (fused order k ?l ?d)) = mset (map snd (fused order' k ?l ?d))"
    unfolding fused_def by (simp add: image_mset.compositionality comp_def)
  have s: "sorted (rev (map snd (fused o' k ?l ?d)))" for o'
    using fused_sorted [of o' k ?l ?d] by (simp add: sorted_wrt_rev sorted_wrt_map)
  have "sort (rev (map snd (fused order' k ?l ?d))) = rev (map snd (fused order k ?l ?d))"
    by (rule properties_for_sort [OF _ s]) (simp only: mset_rev m)
  moreover have "sort (rev (map snd (fused order' k ?l ?d))) = rev (map snd (fused order' k ?l ?d))"
    by (rule properties_for_sort [OF refl s])
  ultimately have "rev (map snd (fused order k ?l ?d)) = rev (map snd (fused order' k ?l ?d))" by simp
  then show ?thesis by (simp only: rev_is_rev_conv)
qed


lemma mem_neq: "x \<in> A \<Longrightarrow> y \<notin> A \<Longrightarrow> x \<noteq> y"
  by blast

lemma gather_outcomes:
  "keys_of (fst (gather tasks d w)) = keys_of tasks"
proof (induction tasks arbitrary: w)
  case (Cons t tasks)
  then show ?case by (cases t) (simp add: case_prod_beta)
qed simp

lemma collect_other:
  "k \<notin> set (keys_of rs) \<Longrightarrow>
     map_of (fst (collect_parts rs ctx errs)) k = map_of ctx k \<and>
     map_of (snd (collect_parts rs ctx errs)) k = map_of errs k"
  by (induction rs ctx errs rule: collect_parts.induct) (auto split: sum.split)

lemma collect_part:
  assumes "distinct (keys_of rs)" and "(k, r) \<in> set rs"
  shows "case r of
      Inr v \<Rightarrow> map_of (fst (collect_parts rs ctx errs)) k = Some v \<and>
              map_of (snd (collect_parts rs ctx errs)) k = map_of errs k
    | Inl x \<Rightarrow> map_of (fst (collect_parts rs ctx errs)) k = map_of ctx k \<and>
              map_of (snd (collect_parts rs ctx errs)) k = Some (JStr (partial_error x))"
  using assms
proof (induction rs ctx errs rule: collect_parts.induct)
  case (2 k' r' rs ctx errs)
  show ?case
  proof (cases "(k, r) = (k', r')")
    case True
    with 2 have "k \<notin> set (keys_of rs)" by simp
    with True show ?thesis by (auto simp: collect_other split: sum.split)
  next
    case False
    with 2 have "(k, r) \<in> set rs" "k \<noteq> k'" by (auto simp: image_iff)
    with 2 show ?thesis by (cases r') (auto split: sum.splits)
  qed
qed simp

lemma collect_errors:
  "snd (collect_parts rs ctx errs) = [] \<longleftrightarrow> errs = [] \<and> (\<forall>(k, r) \<in> set rs. is_ok r)"
proof (induction rs ctx errs rule: collect_parts.induct)
  case (2 k r rs ctx errs)
  have "AList.update k v errs \<noteq> []" for v by (cases errs) (auto split: prod.split)
  with 2 show ?case by (cases r) auto
qed simp

section \<open>Properties\<close>

text \<open>C28: Reciprocal rank fusion. Whatever the two retrievers return, every document either of
  them found is fused once, with the sum of the reciprocals of its ranks; the documents are
  ranked by that sum, so none of those cut off by \<^verbatim>\<open>top_k\<close> scores above one that is returned.
  The order Python takes the set of documents in does not change which scores are returned.\<close>

theorem hybrid_rrf:
  assumes "lists_sets order" and "lists_sets order'"
  shows "distinct (map fst (fused order k (ranks a) (ranks b))) \<and>
    set (map fst (fused order k (ranks a) (ranks b))) = set a \<union> set b \<and>
    (\<forall>(i, s) \<in> set (fused order k (ranks a) (ranks b)).
       s = (case map_of (ranks a) i of None \<Rightarrow> 0 | Some r \<Rightarrow> 1 / of_int (k + r)) +
           (case map_of (ranks b) i of None \<Rightarrow> 0 | Some r \<Rightarrow> 1 / of_int (k + r))) \<and>
    (\<forall>i \<in> set a. \<exists>n < length a. a ! n = i \<and> i \<notin> set (drop (Suc n) a) \<and> map_of (ranks a) i = Some (1 + int n)) \<and>
    (\<forall>n p q. p \<in> set (take n (fused order k (ranks a) (ranks b))) \<and>
       q \<in> set (drop n (fused order k (ranks a) (ranks b))) \<longrightarrow> snd q \<le> snd p) \<and>
    map snd (fused order k (ranks a) (ranks b)) = map snd (fused order' k (ranks a) (ranks b))"
proof (intro conjI)
  show "\<forall>(i, s) \<in> set (fused order k (ranks a) (ranks b)).
       s = (case map_of (ranks a) i of None \<Rightarrow> 0 | Some r \<Rightarrow> 1 / of_int (k + r)) +
           (case map_of (ranks b) i of None \<Rightarrow> 0 | Some r \<Rightarrow> 1 / of_int (k + r))"
    using fused_scores [of _ _ order k "ranks a" "ranks b"]
    by (fastforce simp: rrf_score_def reciprocal_def)
  show "\<forall>i \<in> set a. \<exists>n < length a. a ! n = i \<and> i \<notin> set (drop (Suc n) a) \<and> map_of (ranks a) i = Some (1 + int n)"
    using ranks_from_last [of _ a 1 "[]"] by (simp add: ranks_def)
  show "\<forall>n p q. p \<in> set (take n (fused order k (ranks a) (ranks b))) \<and>
       q \<in> set (drop n (fused order k (ranks a) (ranks b))) \<longrightarrow> snd q \<le> snd p"
    using take_before_drop [OF fused_sorted [of order k "ranks a" "ranks b"]] by blast
qed (rule fused_ids [OF assms(1)] fused_score_list [OF assms])+

theorem hybrid_rrf_witness:
  "map snd (fused (\<lambda>xs. xs) 60 (ranks [''a'', ''b'']) (ranks [''b'', ''c''])) =
   map snd (fused rev 60 (ranks [''a'', ''b'']) (ranks [''b'', ''c'']))"
proof -
  have "lists_sets (\<lambda>xs. xs)" "lists_sets rev" by (simp_all add: lists_sets_def)
  from hybrid_rrf [OF this, of 60 "[''a'', ''b'']" "[''b'', ''c'']"] show ?thesis by blast
qed

lemma gathered_keys:
  assumes "gather (context_tasks tb tenant a) d w = (rs, w1)"
  shows "keys_of rs = [''profile''] @ (if cu_include_orders a then [''orders''] else []) @
      (if cu_include_tickets a then [''tickets''] else []) @ (if cu_include_docs a then [''docs''] else [])"
    and "distinct (keys_of rs)" and "''customer_id'' \<notin> set (keys_of rs)" and "''question'' \<notin> set (keys_of rs)"
    and "''partial_errors'' \<notin> set (keys_of rs)"
proof -
  show keys: "keys_of rs = [''profile''] @ (if cu_include_orders a then [''orders''] else []) @
      (if cu_include_tickets a then [''tickets''] else []) @ (if cu_include_docs a then [''docs''] else [])"
    using gather_outcomes [of "context_tasks tb tenant a" d w] assms by (simp add: context_tasks_def)
  then show "distinct (keys_of rs)" "''customer_id'' \<notin> set (keys_of rs)" "''question'' \<notin> set (keys_of rs)"
    "''partial_errors'' \<notin> set (keys_of rs)"
    by (simp_all split: if_splits)
qed


definition down_backends :: "unit tool_backends" where
  "down_backends = \<lparr>tb_runtime = plain_runtime, tb_order = (\<lambda>xs. xs), tb_es = demo_es, tb_vectors = demo_vectors,
     tb_postgres = \<lparr>pb_fetch = (\<lambda>tenant sql params n d w. (Inl (Py_Exc ''InterfaceError'' ''closed''), w)),
        pb_sqlstate = (\<lambda>_. JNull)\<rparr>,
     tb_embed = (\<lambda>texts d w. (Inl Cancelled, w))\<rparr>"

definition demo_customer :: customer_input where
  "demo_customer = \<lparr>cu_customer_id = ''CUST-1'', cu_question = ''why?'', cu_include_orders = False,
     cu_include_tickets = True, cu_include_docs = False, cu_orders_limit = 5\<rparr>"



end
