(* ===== verification/Builtin_Tools.thy ===== *)
theory Builtin_Tools
  imports Server_Invariant Composed_Tools
begin

text \<open>
  The ten built-in tools as the registry discovers them (\<^verbatim>\<open>ToolRegistry.discover\<close> of
  \<^verbatim>\<open>tools/registry.py\<close>): the metadata each class declares, its input model, and its \<^verbatim>\<open>run\<close> on the
  validated input, over the backends the tools are given.
\<close>

section \<open>Validated input\<close>

text \<open>
  A run gets the object of the input model. The server model carries its dump, which has every
  declared field; these readers give the object back.
\<close>

definition dump_str :: "string \<Rightarrow> args \<Rightarrow> string" where
  "dump_str k a = (case map_of a k of Some (JStr s) \<Rightarrow> s | _ \<Rightarrow> '''')"

definition dump_int :: "string \<Rightarrow> args \<Rightarrow> int" where
  "dump_int k a = (case map_of a k of Some (JInt n) \<Rightarrow> n | _ \<Rightarrow> 0)"

definition dump_bool :: "string \<Rightarrow> args \<Rightarrow> bool" where
  "dump_bool k a = (case map_of a k of Some (JBool b) \<Rightarrow> b | _ \<Rightarrow> False)"

fun json_number :: "json \<Rightarrow> rat" where
  "json_number (JFloat x) = x"
| "json_number (JInt n) = of_int n"
| "json_number j = 0"

fun json_text :: "json \<Rightarrow> string" where
  "json_text (JStr s) = s"
| "json_text j = ''''"

definition dump_number :: "string \<Rightarrow> args \<Rightarrow> rat" where
  "dump_number k a = (case map_of a k of Some j \<Rightarrow> json_number j | None \<Rightarrow> 0)"

definition dump_list :: "string \<Rightarrow> args \<Rightarrow> json list option" where
  "dump_list k a = (case map_of a k of Some (JList xs) \<Rightarrow> Some xs | _ \<Rightarrow> None)"

definition dump_obj :: "string \<Rightarrow> args \<Rightarrow> args option" where
  "dump_obj k a = (case map_of a k of Some (JObj ps) \<Rightarrow> Some ps | _ \<Rightarrow> None)"

definition or_empty :: "'a list option \<Rightarrow> 'a list" where
  "or_empty x = (case x of None \<Rightarrow> [] | Some xs \<Rightarrow> xs)"

definition postgres_args :: "args \<Rightarrow> postgres_input" where
  "postgres_args a = \<lparr>pg_sql = dump_str ''sql'' a, pg_params = or_empty (dump_list ''params'' a),
     pg_max_rows = dump_int ''max_rows'' a\<rparr>"

definition elasticsearch_args :: "args \<Rightarrow> elasticsearch_input" where
  "elasticsearch_args a = \<lparr>es_index = dump_str ''index'' a, es_query = or_empty (dump_obj ''query'' a),
     es_size = dump_int ''size'' a, es_fields = map_option (map json_text) (dump_list ''fields'' a)\<rparr>"

definition vector_args :: "args \<Rightarrow> vector_input" where
  "vector_args a = \<lparr>vs_collection = dump_str ''collection'' a,
     vs_vector = map json_number (or_empty (dump_list ''vector'' a)),
     vs_top_k = dump_int ''top_k'' a, vs_filter = dump_obj ''filter'' a\<rparr>"

definition s3_get_args :: "args \<Rightarrow> s3_get_input" where
  "s3_get_args a = \<lparr>sg_key = dump_str ''key'' a, sg_max_bytes = dump_int ''max_bytes'' a\<rparr>"

definition s3_put_args :: "args \<Rightarrow> s3_put_input" where
  "s3_put_args a = \<lparr>sp_key = dump_str ''key'' a, sp_content = dump_str ''content'' a,
     sp_content_type = dump_str ''content_type'' a\<rparr>"

definition http_args :: "args \<Rightarrow> http_input" where
  "http_args a = \<lparr>hi_url = dump_str ''url'' a, hi_method = dump_str ''method'' a,
     hi_headers = map_option (map (\<lambda>(k, v). (k, json_text v))) (dump_obj ''headers'' a),
     hi_body = dump_obj ''body'' a, hi_timeout_s = dump_number ''timeout_s'' a\<rparr>"

definition semantic_args :: "args \<Rightarrow> semantic_input" where
  "semantic_args a = \<lparr>se_query = dump_str ''query'' a, se_collection = dump_str ''collection'' a,
     se_top_k = dump_int ''top_k'' a, se_hydrate = dump_bool ''hydrate_from_postgres'' a\<rparr>"

definition hybrid_args :: "args \<Rightarrow> hybrid_input" where
  "hybrid_args a = \<lparr>hy_query = dump_str ''query'' a, hy_es_index = dump_str ''es_index'' a,
     hy_vector_collection = dump_str ''vector_collection'' a, hy_top_k = dump_int ''top_k'' a,
     hy_rrf_k = dump_int ''rrf_k'' a\<rparr>"

definition customer_args :: "args \<Rightarrow> customer_input" where
  "customer_args a = \<lparr>cu_customer_id = dump_str ''customer_id'' a, cu_question = dump_str ''question'' a,
     cu_include_orders = dump_bool ''include_orders'' a, cu_include_tickets = dump_bool ''include_tickets'' a,
     cu_include_docs = dump_bool ''include_docs'' a, cu_orders_limit = dump_int ''recent_orders_limit'' a\<rparr>"

definition ping_mode_of :: "args \<Rightarrow> ping_mode" where
  "ping_mode_of a = (if dump_str ''mode'' a = ''silent'' then SILENT else ECHO)"

text \<open>
  The input of the stub (\<^verbatim>\<open>PingInput\<close>): Pydantic bounds the stripped message before the validator
  scrubs it, and an error of the server's own that the validator raises leaves before the mode is read.
\<close>

definition message_must_be_clean :: "string \<Rightarrow> string outcome" where
  "message_must_be_clean value = scrub_text ''message'' 200 value"

definition new_ping_input :: "string \<Rightarrow> string \<Rightarrow> (string \<times> ping_mode) outcome" where
  "new_ping_input message mode =
     (if 200 < length (py_strip message) then Inl (validation_failed '''')
      else case message_must_be_clean (py_strip message) of
             Inl x \<Rightarrow> Inl x
           | Inr m \<Rightarrow>
               if mode = ping_mode_value ECHO then Inr (m, ECHO)
               else if mode = ping_mode_value SILENT then Inr (m, SILENT)
               else Inl (validation_failed ''''))"

lemma new_ping_input_ok:
  "new_ping_input message mode = Inr (m, md) \<longleftrightarrow>
     m = py_strip message \<and> length m \<le> 200 \<and> list_all (\<lambda>c. \<not> control_char c) m \<and> mode = ping_mode_value md"
  by (cases md; cases "message_must_be_clean (py_strip message)")
     (auto simp: new_ping_input_def message_must_be_clean_def scrub_text_def Let_def list_all_iff filter_id_conv
       split: if_splits)

section \<open>The tools\<close>

text \<open>
  What the tools are built on: the backends, and Pydantic, which gives for a tool's name the
  validation of its input model and the schema it publishes.
\<close>

record 'w tool_parts =
  tp_backends :: "'w tool_backends"
  tp_objects :: "'w object_store"
  tp_codec :: codec
  tp_http :: "'w http_client"
  tp_allowlist :: allowlist
  tp_bracket_ok :: "string \<Rightarrow> bool"
  tp_settings :: settings
  tp_schema :: "string \<Rightarrow> args \<Rightarrow> schema_result"
  tp_json_schema :: "string \<Rightarrow> json"

definition tool_of :: "'w tool_parts \<Rightarrow> tool_metadata \<Rightarrow> (string \<Rightarrow> args \<Rightarrow> ('w, args) coro) \<Rightarrow> 'w tool" where
  "tool_of p m run = \<lparr>tl_meta = m, tl_schema = tp_schema p (tm_name m),
     tl_json_schema = tp_json_schema p (tm_name m), tl_run = run\<rparr>"

definition ping_tool :: "'w tool_parts \<Rightarrow> 'w tool" where
  "ping_tool p = tool_of p ping_meta (\<lambda>tenant a. ping_run tenant (dump_str ''message'' a) (ping_mode_of a))"

definition postgres_tool :: "'w tool_parts \<Rightarrow> 'w tool" where
  "postgres_tool p = tool_of p postgres_meta (\<lambda>tenant a. postgres_run (tb_postgres (tp_backends p)) tenant (postgres_args a))"

definition elasticsearch_tool :: "'w tool_parts \<Rightarrow> 'w tool" where
  "elasticsearch_tool p =
     tool_of p elasticsearch_meta (\<lambda>tenant a. elasticsearch_run (tb_es (tp_backends p)) tenant (elasticsearch_args a))"

definition vector_tool :: "'w tool_parts \<Rightarrow> 'w tool" where
  "vector_tool p = tool_of p vector_meta (\<lambda>tenant a. vector_run (tb_vectors (tp_backends p)) tenant (vector_args a))"

definition s3_get_tool :: "'w tool_parts \<Rightarrow> 'w tool" where
  "s3_get_tool p =
     tool_of p s3_get_meta (\<lambda>tenant a. s3_get_run (tp_codec p) (tp_objects p) (tp_settings p) tenant (s3_get_args a))"

definition s3_put_tool :: "'w tool_parts \<Rightarrow> 'w tool" where
  "s3_put_tool p =
     tool_of p s3_put_meta (\<lambda>tenant a. s3_put_run (tp_codec p) (tp_objects p) (tp_settings p) tenant (s3_put_args a))"

definition http_tool :: "'w tool_parts \<Rightarrow> 'w tool" where
  "http_tool p = tool_of p http_meta
     (\<lambda>tenant a. http_run (tp_codec p) (tp_bracket_ok p) (tp_http p) (tp_allowlist p) tenant (http_args a))"

definition semantic_tool :: "'w tool_parts \<Rightarrow> 'w tool" where
  "semantic_tool p = tool_of p semantic_meta (\<lambda>tenant a. semantic_run (tp_backends p) tenant (semantic_args a))"

definition hybrid_tool :: "'w tool_parts \<Rightarrow> 'w tool" where
  "hybrid_tool p = tool_of p hybrid_meta (\<lambda>tenant a. hybrid_run (tp_backends p) tenant (hybrid_args a))"

definition customer_tool :: "'w tool_parts \<Rightarrow> 'w tool" where
  "customer_tool p = tool_of p customer_meta (\<lambda>tenant a. customer_context_run (tp_backends p) tenant (customer_args a))"

text \<open>In the order \<^verbatim>\<open>discover\<close> registers them.\<close>

definition atlas_tools :: "'w tool_parts \<Rightarrow> 'w tool list" where
  "atlas_tools p = [ping_tool p, postgres_tool p, elasticsearch_tool p, vector_tool p, s3_get_tool p,
     s3_put_tool p, http_tool p, semantic_tool p, hybrid_tool p, customer_tool p]"

lemmas atlas_tool_defs = ping_tool_def postgres_tool_def elasticsearch_tool_def vector_tool_def s3_get_tool_def
  s3_put_tool_def http_tool_def semantic_tool_def hybrid_tool_def customer_tool_def tool_of_def

lemma atlas_metas: "map tl_meta (atlas_tools p) = builtin_metas"
  by (simp add: atlas_tools_def atlas_tool_defs builtin_metas_def)

lemma builtin_names:
  "map tm_name builtin_metas = [''server.ping'', ''postgres.query'', ''elasticsearch.search'', ''vector.search'',
     ''s3.get_object'', ''s3.put_object'', ''http.fetch'', ''semantic_search'', ''hybrid_search'',
     ''customer.build_context'']"
  by (simp add: builtin_metas_def builtin_defs semantic_meta_def hybrid_meta_def customer_meta_def)

lemma atlas_names: "map (\<lambda>t. tm_name (tl_meta t)) (atlas_tools p) = map tm_name builtin_metas"
  using arg_cong [OF atlas_metas, of "map tm_name" p] by (simp add: comp_def)

lemma atlas_names_distinct: "inj_on (\<lambda>t. tm_name (tl_meta t)) (set (atlas_tools p))"
proof -
  have "distinct (map (\<lambda>t. tm_name (tl_meta t)) (atlas_tools p))"
    unfolding atlas_names builtin_names by simp
  then show ?thesis by (simp add: distinct_map)
qed

lemma atlas_names_plain: "t \<in> set (atlas_tools p) \<Longrightarrow> CHR '':'' \<notin> set (tm_name (tl_meta t))"
proof -
  assume "t \<in> set (atlas_tools p)"
  then have "tm_name (tl_meta t) \<in> set (map tm_name builtin_metas)"
    unfolding atlas_names [of p, symmetric] by simp
  then show ?thesis unfolding builtin_names by auto
qed

text \<open>Starting the server registers the ten tools and nothing else.\<close>

lemma startup_atlas:
  "startup (atlas_tools p) (new_server cfg rules domains audit_file) =
     (Inr (), (new_server cfg rules domains audit_file)
        \<lparr>sv_registry := \<lparr>rg_tools = map (\<lambda>t. (tm_name (tl_meta t), t)) (atlas_tools p), rg_discovered = True\<rparr>\<rparr>)"
proof -
  have "distinct (map (\<lambda>t. tm_name (tl_meta t)) (atlas_tools p))"
    unfolding atlas_names builtin_names by simp
  then show ?thesis
    using register_all_tools [of new_registry "atlas_tools p"]
    by (simp add: startup_def discover_def new_server_def new_registry_def)
qed

end
