(* ===== verification/Auth.thy ===== *)
theory Auth
  imports Settings Request_Context Py_Strings
begin

text \<open>
  Authentication and tenancy at the HTTP boundary (\<^verbatim>\<open>auth/oauth.py\<close>, \<^verbatim>\<open>auth/middleware.py\<close>,
  \<^verbatim>\<open>governance/tenant.py\<close>, \<^verbatim>\<open>transport/middleware.py\<close>): the token validator, the three
  middlewares and their composition in \<^verbatim>\<open>transport/http.py\<close>, which decides under which identity
  the MCP handlers run.

  Verifying a signed token is PyJWT's work and a parameter of the model: from the state of the
  world (its keys and its clock) and the token to the claims, or to the exception it raises.
\<close>

section \<open>Principals and tokens\<close>

record principal =
  pr_subject :: string
  pr_delegator :: "string option"
  pr_tenant :: string
  pr_scopes :: "string list"
  pr_token_id :: string
  pr_issued_at :: int
  pr_expires_at :: int

definition principal_has_scope :: "principal \<Rightarrow> string \<Rightarrow> bool" where
  "principal_has_scope p required =
     (if required \<in> set (pr_scopes p) then True
      else if startswith required ''tool:'' \<and> ''tool:*:admin'' \<in> set (pr_scopes p) then True
      else False)"

text \<open>
  The claims a decoded token carries. A scope claim is a text or a list; an actor claim may be
  missing or empty, and its subject missing.
\<close>

datatype scope_claim = Scope_Text string | Scope_List "string list"

record jwt_claims =
  jc_sub :: string
  jc_jti :: string
  jc_iat :: int
  jc_exp :: int
  jc_tenant :: "string option"
  jc_scope :: "scope_claim option"
  jc_act_sub :: "string option"

datatype jwt_result =
    Jwt_Claims jwt_claims
  | Jwt_Expired
  | Jwt_Invalid string
  | Jwt_Raised exc

text \<open>What PyJWT verifies a token against.\<close>

record validator =
  va_jwks_url :: string
  va_audience :: string
  va_issuer :: string
  va_dev_token :: "string option"

definition new_validator :: "settings \<Rightarrow> validator" where
  "new_validator cfg = \<lparr>va_jwks_url = auth_jwks_url cfg, va_audience = auth_audience cfg,
     va_issuer = auth_issuer cfg, va_dev_token = auth_dev_token cfg\<rparr>"

record 's auth_env =
  au_decode :: "string \<Rightarrow> string \<Rightarrow> string \<Rightarrow> string \<Rightarrow> 's \<Rightarrow> jwt_result \<times> 's"
  au_time :: "'s \<Rightarrow> rat"

definition auth_error :: "string \<Rightarrow> bool \<Rightarrow> string \<Rightarrow> exc" where
  "auth_error code retryable hint = Tool_Exc (mk_error AuthError code retryable (Some hint) None)"

definition dev_principal :: "rat \<Rightarrow> principal" where
  "dev_principal time =
     (let issued = \<lfloor>time\<rfloor>
      in \<lparr>pr_subject = ''dev:local'', pr_delegator = Some ''user:dev'', pr_tenant = ''acme'',
          pr_scopes = [''tool:*:admin''], pr_token_id = ''dev'', pr_issued_at = issued,
          pr_expires_at = issued + 3600\<rparr>)"

definition scope_set :: "scope_claim option \<Rightarrow> string list" where
  "scope_set c = (case c of None \<Rightarrow> py_split '''' | Some (Scope_Text s) \<Rightarrow> py_split s | Some (Scope_List xs) \<Rightarrow> xs)"

definition principal_of :: "jwt_claims \<Rightarrow> principal" where
  "principal_of c =
     \<lparr>pr_subject = jc_sub c, pr_delegator = jc_act_sub c,
      pr_tenant = (case jc_tenant c of None \<Rightarrow> ''default'' | Some t \<Rightarrow> t),
      pr_scopes = scope_set (jc_scope c), pr_token_id = jc_jti c, pr_issued_at = jc_iat c,
      pr_expires_at = jc_exp c\<rparr>"

definition dev_token_matches :: "validator \<Rightarrow> string \<Rightarrow> bool" where
  "dev_token_matches v bearer =
     (case va_dev_token v of None \<Rightarrow> False | Some t \<Rightarrow> t \<noteq> '''' \<and> bearer = t)"

definition validate_token ::
    "'s auth_env \<Rightarrow> validator \<Rightarrow> string \<Rightarrow> 's \<Rightarrow> principal outcome \<times> 's" where
  "validate_token ev v bearer s =
     (if dev_token_matches v bearer then (Inr (dev_principal (au_time ev s)), s)
      else (case au_decode ev (va_jwks_url v) (va_audience v) (va_issuer v) bearer s of
              (Jwt_Claims c, s1) \<Rightarrow> (Inr (principal_of c), s1)
            | (Jwt_Expired, s1) \<Rightarrow> (Inl (auth_error ''token_expired'' True ''refresh your token''), s1)
            | (Jwt_Invalid msg, s1) \<Rightarrow> (Inl (auth_error ''invalid_token'' False msg), s1)
            | (Jwt_Raised x, s1) \<Rightarrow> (Inl x, s1)))"

text \<open>The module keeps the last validator and the settings it was built from.\<close>

type_synonym validator_cache = "(validator \<times> (string \<times> string \<times> string \<times> string option)) option"

definition validator_key :: "settings \<Rightarrow> string \<times> string \<times> string \<times> string option" where
  "validator_key cfg = (auth_jwks_url cfg, auth_audience cfg, auth_issuer cfg, auth_dev_token cfg)"

definition get_validator :: "settings \<Rightarrow> validator_cache \<Rightarrow> validator \<times> validator_cache" where
  "get_validator cfg cache =
     (case cache of
        None \<Rightarrow> (new_validator cfg, Some (new_validator cfg, validator_key cfg))
      | Some (v, key) \<Rightarrow>
          if key \<noteq> validator_key cfg
          then (new_validator cfg, Some (new_validator cfg, validator_key cfg))
          else (v, cache))"

section \<open>Requests and middleware\<close>

text \<open>Header names are kept in lower case, as the framework compares them.\<close>

record request =
  rq_path :: string
  rq_headers :: "(string \<times> string) list"
  rq_principal :: "principal option"
  rq_tenant :: "string option"

record response =
  rs_status :: int
  rs_body :: json
  rs_headers :: "(string \<times> string) list"

definition header_get :: "request \<Rightarrow> string \<Rightarrow> string option" where
  "header_get rq name = map_of (rq_headers rq) (str_lower name)"

text \<open>
  A handler answers a request; it may read and set the context variable of its task and act on
  the world.
\<close>

type_synonym 's handler = "request \<Rightarrow> context_var \<Rightarrow> 's \<Rightarrow> response outcome \<times> context_var \<times> 's"

definition public_paths :: "string list" where
  "public_paths = [''/.well-known/mcp-server'', ''/healthz'', ''/readyz'', ''/metrics'']"

definition json_response :: "string \<Rightarrow> int \<Rightarrow> response" where
  "json_response error status =
     \<lparr>rs_status = status, rs_body = JObj [(''error'', JStr error)], rs_headers = []\<rparr>"

definition unauthenticated :: "settings \<Rightarrow> string \<Rightarrow> response" where
  "unauthenticated cfg error_code =
     (json_response error_code 401)
       \<lparr>rs_headers := [(''WWW-Authenticate'',
          ''Bearer realm='' @ [dq_char] @ auth_audience cfg @ [dq_char] @ '', error='' @ [dq_char] @ error_code
          @ [dq_char] @ '', authorization_uri='' @ [dq_char] @ auth_issuer cfg @ [dq_char])]\<rparr>"

definition auth_middleware :: "'s auth_env \<Rightarrow> settings \<Rightarrow> validator \<Rightarrow> 's handler \<Rightarrow> 's handler" where
  "auth_middleware ev cfg v call_next rq cv s =
     (if rq_path rq \<in> set public_paths then call_next rq cv s
      else
        (let header = (case header_get rq ''authorization'' of None \<Rightarrow> '''' | Some h \<Rightarrow> h)
         in if \<not> startswith (str_lower header) ''bearer '' then (Inr (unauthenticated cfg ''missing_token''), cv, s)
            else (case validate_token ev v (py_strip (drop 7 header)) s of
                    (Inl (Tool_Exc e), s1) \<Rightarrow>
                      if is_instance e AuthError then (Inr (unauthenticated cfg (err_code e)), cv, s1)
                      else (Inl (Tool_Exc e), cv, s1)
                  | (Inl x, s1) \<Rightarrow> (Inl x, cv, s1)
                  | (Inr p, s1) \<Rightarrow> call_next (rq\<lparr>rq_principal := Some p\<rparr>) cv s1)))"

definition tenant_middleware :: "settings \<Rightarrow> 's handler \<Rightarrow> 's handler" where
  "tenant_middleware cfg call_next rq cv s =
     (if rq_path rq \<in> set public_paths then call_next rq cv s
      else if rq_principal rq = None \<and> require_tenant cfg then (Inr (json_response ''no_principal'' 401), cv, s)
      else
        (let tenant = (case rq_principal rq of Some p \<Rightarrow> pr_tenant p | None \<Rightarrow> ''default'')
         in case header_get rq (tenant_header cfg) of
              None \<Rightarrow> call_next (rq\<lparr>rq_tenant := Some tenant\<rparr>) cv s
            | Some h \<Rightarrow>
                if h \<noteq> '''' \<and> h \<noteq> tenant then
                  (if (case rq_principal rq of None \<Rightarrow> True
                       | Some p \<Rightarrow> \<not> principal_has_scope p ''tenant:*:impersonate'')
                   then (Inr (json_response ''tenant_mismatch'' 403), cv, s)
                   else call_next (rq\<lparr>rq_tenant := Some h\<rparr>) cv s)
                else call_next (rq\<lparr>rq_tenant := Some tenant\<rparr>) cv s))"

definition context_of :: "settings \<Rightarrow> request \<Rightarrow> request_context" where
  "context_of cfg rq =
     (let tenant = (case rq_tenant rq of
            Some t \<Rightarrow> t
          | None \<Rightarrow> (case rq_principal rq of
                Some p \<Rightarrow> pr_tenant p
              | None \<Rightarrow> (case header_get rq (tenant_header cfg) of None \<Rightarrow> ''default'' | Some h \<Rightarrow> h)))
      in case rq_principal rq of
           Some p \<Rightarrow> \<lparr>rc_subject = pr_subject p, rc_tenant = tenant, rc_scopes = pr_scopes p,
                     rc_delegator = pr_delegator p, rc_trace_id = None\<rparr>
         | None \<Rightarrow> dev_context tenant ''dev:local'' [])"

definition context_middleware :: "settings \<Rightarrow> 's handler \<Rightarrow> 's handler" where
  "context_middleware cfg call_next rq cv s =
     (if rq_path rq \<in> set public_paths then call_next rq cv s
      else (case set_context (context_of cfg rq) cv of
              (token, cv1) \<Rightarrow>
                (case call_next rq cv1 s of (r, cv2, s1) \<Rightarrow> (r, reset_context token cv2, s1))))"

text \<open>The application: the first middleware of the list is the outermost.\<close>

definition http_app :: "'s auth_env \<Rightarrow> settings \<Rightarrow> validator \<Rightarrow> 's handler \<Rightarrow> 's handler" where
  "http_app ev cfg v routes =
     auth_middleware ev cfg v (tenant_middleware cfg (context_middleware cfg routes))"

section \<open>The validator\<close>

lemma validator_cached:
  assumes "cache = None \<or> (\<exists>cfg0. cache = Some (new_validator cfg0, validator_key cfg0))"
  shows "fst (get_validator cfg cache) = new_validator cfg"
    "\<exists>cfg0. snd (get_validator cfg cache) = Some (new_validator cfg0, validator_key cfg0)"
  using assms by (auto simp: get_validator_def new_validator_def validator_key_def)

lemma no_dev_token: "auth_dev_token cfg \<in> {None, Some ''''} \<Longrightarrow> \<not> dev_token_matches (new_validator cfg) b"
  by (auto simp: dev_token_matches_def new_validator_def)

lemma has_scope_principal: "principal_has_scope p r = scope_held (pr_scopes p) r"
  by (simp add: principal_has_scope_def scope_held_def)

lemma impersonate_not_admin:
  "principal_has_scope p ''tenant:*:impersonate'' \<longleftrightarrow> ''tenant:*:impersonate'' \<in> set (pr_scopes p)"
  by (simp add: has_scope_principal scope_held_iff startswith_eval)

section \<open>Properties\<close>

text \<open>The tenant a request of a principal runs for.\<close>

definition effective_tenant :: "settings \<Rightarrow> request \<Rightarrow> principal \<Rightarrow> string" where
  "effective_tenant cfg rq p = or_str (header_get rq (tenant_header cfg)) (pr_tenant p)"

definition principal_context :: "principal \<Rightarrow> string \<Rightarrow> request_context" where
  "principal_context p tenant =
     \<lparr>rc_subject = pr_subject p, rc_tenant = tenant, rc_scopes = pr_scopes p,
      rc_delegator = pr_delegator p, rc_trace_id = None\<rparr>"

text \<open>A header value that is a bearer token.\<close>

definition bearer_token :: "request \<Rightarrow> string option" where
  "bearer_token rq =
     (case header_get rq ''authorization'' of
        None \<Rightarrow> None
      | Some h \<Rightarrow> if startswith (str_lower h) ''bearer '' then Some (py_strip (drop 7 h)) else None)"

lemma not_public_token: "\<not> startswith [] ''bearer ''"
  by (simp add: startswith_eval)

lemma tenant_stack:
  assumes "rq_path rq \<notin> set public_paths" and "rq_principal rq = Some p"
  shows "tenant_middleware cfg (context_middleware cfg routes) rq cv s =
    (if effective_tenant cfg rq p \<noteq> pr_tenant p \<and> ''tenant:*:impersonate'' \<notin> set (pr_scopes p)
     then (Inr (json_response ''tenant_mismatch'' 403), cv, s)
     else (case routes (rq\<lparr>rq_tenant := Some (effective_tenant cfg rq p)\<rparr>)
                  (Some (principal_context p (effective_tenant cfg rq p))) s of
             (r, cv1, s1) \<Rightarrow> (r, cv, s1)))"
  using assms
  by (auto simp: tenant_middleware_def context_middleware_def context_of_def set_context_def
      reset_context_def effective_tenant_def principal_context_def or_str_def Let_def
      impersonate_not_admin split: option.split)

text \<open>What checking a request leaves of the world: nothing is checked without a token.\<close>

definition after_check :: "'s auth_env \<Rightarrow> validator \<Rightarrow> request \<Rightarrow> 's \<Rightarrow> 's \<Rightarrow> bool" where
  "after_check ev v rq s s' \<longleftrightarrow>
     (case bearer_token rq of None \<Rightarrow> s' = s | Some token \<Rightarrow> s' = snd (validate_token ev v token s))"

definition may_act_for :: "principal \<Rightarrow> string \<Rightarrow> bool" where
  "may_act_for p tenant \<longleftrightarrow> tenant = pr_tenant p \<or> ''tenant:*:impersonate'' \<in> set (pr_scopes p)"

text \<open>A request with a good token is passed on under its identity.\<close>

lemma http_app_passes:
  assumes "rq_path rq \<notin> set public_paths" and "bearer_token rq = Some token" and "validate_token ev v token s = (Inr p, s')"
    and "tenant = or_str (header_get rq (tenant_header cfg)) (pr_tenant p)" and "may_act_for p tenant"
  shows "http_app ev cfg v h rq cv s =
      (case h (rq\<lparr>rq_principal := Some p, rq_tenant := Some tenant\<rparr>) (Some (principal_context p tenant)) s' of
         (r, cv1, s1) \<Rightarrow> (r, cv, s1))"
proof -
  have "header_get (rq\<lparr>rq_principal := Some p\<rparr>) n = header_get rq n" for n by (simp add: header_get_def)
  with assms show ?thesis
    by (auto simp: http_app_def auth_middleware_def bearer_token_def Let_def tenant_stack [of _ p] may_act_for_def
        effective_tenant_def split: option.splits if_splits)
qed

lemma http_app_identity:
  fixes ev :: "'s auth_env"
  assumes "rq_path rq \<notin> set public_paths"
  shows "(\<exists>resp s'. rs_status resp \<in> {401, 403} \<and> after_check ev v rq s s' \<and>
       (\<forall>routes. http_app ev cfg v routes rq cv s = (Inr resp, cv, s'))) \<or>
    (\<exists>x s'. after_check ev v rq s s' \<and> (\<forall>routes. http_app ev cfg v routes rq cv s = (Inl x, cv, s'))) \<or>
    (\<exists>token p s' tenant. bearer_token rq = Some token \<and> validate_token ev v token s = (Inr p, s') \<and>
       tenant = or_str (header_get rq (tenant_header cfg)) (pr_tenant p) \<and>
       may_act_for p tenant \<and>
       (\<forall>routes. http_app ev cfg v routes rq cv s =
          (case routes (rq\<lparr>rq_principal := Some p, rq_tenant := Some tenant\<rparr>)
                  (Some \<lparr>rc_subject = pr_subject p, rc_tenant = tenant, rc_scopes = pr_scopes p,
                     rc_delegator = pr_delegator p, rc_trace_id = None\<rparr>) s' of
             (r, cv1, s1) \<Rightarrow> (r, cv, s1))))"
proof (cases "bearer_token rq")
  case None
  then have "http_app ev cfg v routes rq cv s = (Inr (unauthenticated cfg ''missing_token''), cv, s)" for routes
    using assms by (auto simp: http_app_def auth_middleware_def bearer_token_def Let_def
        not_public_token split: option.splits if_splits)
  moreover have "rs_status (unauthenticated cfg ''missing_token'') \<in> {401, 403}"
    by (simp add: unauthenticated_def json_response_def)
  moreover have "after_check ev v rq s s" using None by (simp add: after_check_def)
  ultimately show ?thesis by blast
next
  case (Some token)
  obtain r s' where v: "validate_token ev v token s = (r, s')" by force
  let ?next = "\<lambda>routes. tenant_middleware cfg (context_middleware cfg routes)"
  have app: "http_app ev cfg v routes rq cv s =
      (case r of
         Inl (Tool_Exc e) \<Rightarrow>
           if is_instance e AuthError then (Inr (unauthenticated cfg (err_code e)), cv, s')
           else (Inl (Tool_Exc e), cv, s')
       | Inl x \<Rightarrow> (Inl x, cv, s')
       | Inr p \<Rightarrow> ?next routes (rq\<lparr>rq_principal := Some p\<rparr>) cv s')" for routes
    using assms Some v by (auto simp: http_app_def auth_middleware_def bearer_token_def Let_def
        split: option.splits if_splits sum.splits exc.splits)
  have chk: "after_check ev v rq s s'" using Some v by (simp add: after_check_def)
  have st: "rs_status (unauthenticated cfg c) \<in> {401, 403}" "rs_status (json_response c 403) \<in> {401, 403}" for c
    by (simp_all add: unauthenticated_def json_response_def)
  show ?thesis
  proof (cases r)
    case (Inl x)
    show ?thesis
    proof (cases "\<exists>e. x = Tool_Exc e \<and> is_instance e AuthError")
      case True
      then obtain e where "x = Tool_Exc e" "is_instance e AuthError" by blast
      with app Inl have "\<forall>routes. http_app ev cfg v routes rq cv s =
          (Inr (unauthenticated cfg (err_code e)), cv, s')" by simp
      with st(1) chk show ?thesis by blast
    next
      case False
      with app Inl have "\<forall>routes. http_app ev cfg v routes rq cv s = (Inl x, cv, s')"
        by (cases x) auto
      with chk show ?thesis by blast
    qed
  next
    case (Inr p)
    let ?t = "or_str (header_get rq (tenant_header cfg)) (pr_tenant p)"
    have hd: "header_get (rq\<lparr>rq_principal := Some p\<rparr>) n = header_get rq n" for n
      by (simp add: header_get_def)
    show ?thesis
    proof (cases "?t \<noteq> pr_tenant p \<and> ''tenant:*:impersonate'' \<notin> set (pr_scopes p)")
      case True
      with assms app Inr have "\<forall>routes. http_app ev cfg v routes rq cv s =
          (Inr (json_response ''tenant_mismatch'' 403), cv, s')"
        by (simp add: tenant_stack [of _ p] effective_tenant_def hd)
      with st(2) chk show ?thesis by blast
    next
      case False
      with assms app Inr have "\<forall>routes. http_app ev cfg v routes rq cv s =
          (case routes (rq\<lparr>rq_principal := Some p, rq_tenant := Some ?t\<rparr>)
              (Some (principal_context p ?t)) s' of (r, cv1, s1) \<Rightarrow> (r, cv, s1))"
        by (auto simp: tenant_stack [of _ p] effective_tenant_def hd)
      with Some v Inr False show ?thesis unfolding principal_context_def may_act_for_def by blast
    qed
  qed
qed

text \<open>Who a handler runs as. A request to a path that is not public reaches the handlers only
  with a bearer token that the validator accepts; they then run under the token's subject,
  scopes and delegator, and for the token's own tenant, or for the tenant the header names if
  the token holds the impersonation scope itself (the admin scope of the tools does not imply
  it). Every other request is answered with 401 or 403, or the validator's own exception,
  whatever the handlers are; and afterwards the task's context is what it was.\<close>

theorem http_identity:
  fixes ev :: "'s auth_env"
  assumes "rq_path rq \<notin> set public_paths"
  shows "(\<exists>resp s'. rs_status resp \<in> {401, 403} \<and> (\<forall>routes. http_app ev cfg v routes rq cv s = (Inr resp, cv, s'))) \<or>
    (\<exists>x s'. \<forall>routes. http_app ev cfg v routes rq cv s = (Inl x, cv, s')) \<or>
    (\<exists>token p s' tenant. bearer_token rq = Some token \<and> validate_token ev v token s = (Inr p, s') \<and>
       tenant = or_str (header_get rq (tenant_header cfg)) (pr_tenant p) \<and>
       (tenant = pr_tenant p \<or> ''tenant:*:impersonate'' \<in> set (pr_scopes p)) \<and>
       (\<forall>routes. http_app ev cfg v routes rq cv s =
          (case routes (rq\<lparr>rq_principal := Some p, rq_tenant := Some tenant\<rparr>)
                  (Some \<lparr>rc_subject = pr_subject p, rc_tenant = tenant, rc_scopes = pr_scopes p,
                     rc_delegator = pr_delegator p, rc_trace_id = None\<rparr>) s' of
             (r, cv1, s1) \<Rightarrow> (r, cv, s1))))"
  using http_app_identity [OF assms, of ev v s cfg cv] unfolding may_act_for_def by blast

text \<open>A validator whose one good token is the text \<^verbatim>\<open>tok\<close>, and a request that carries it.\<close>

definition demo_claims :: jwt_claims where
  "demo_claims = \<lparr>jc_sub = ''agent'', jc_jti = ''1'', jc_iat = 0, jc_exp = 900, jc_tenant = Some ''acme'',
     jc_scope = Some (Scope_Text ''tool:vector:read''), jc_act_sub = None\<rparr>"

definition demo_auth :: "rat auth_env" where
  "demo_auth = \<lparr>au_decode = (\<lambda>_ _ _ token s. (if token = ''tok'' then Jwt_Claims demo_claims else Jwt_Invalid ''bad'', s)),
     au_time = (\<lambda>s. s)\<rparr>"

definition demo_request :: request where
  "demo_request = \<lparr>rq_path = ''/mcp'',
     rq_headers = [(''authorization'', ''Bearer tok''), (''x-tenant-id'', ''acme'')],
     rq_principal = None, rq_tenant = None\<rparr>"

theorem http_identity_witness:
  "\<exists>p s' tenant. validate_token demo_auth (new_validator default_settings) ''tok'' 0 = (Inr p, s') \<and>
     tenant = or_str (Some ''acme'') (pr_tenant p)"
proof -
  let ?v = "new_validator default_settings" and ?p = "principal_of demo_claims"
  let ?routes = "\<lambda>rq cv s. (Inr (json_response ''reached'' 200), cv, s)"
  have path: "rq_path demo_request \<notin> set public_paths" by (simp add: demo_request_def public_paths_def)
  have tok: "bearer_token demo_request = Some ''tok''" by code_simp
  have val: "validate_token demo_auth ?v ''tok'' 0 = (Inr ?p, 0)"
    by (simp add: validate_token_def no_dev_token demo_auth_def)
  have head: "header_get demo_request (tenant_header default_settings) = Some ''acme''" "pr_tenant ?p = ''acme''"
    by code_simp+
  have app: "http_app demo_auth default_settings ?v ?routes demo_request None 0 =
      (Inr (json_response ''reached'' 200), None, 0)"
    using path tok val head
    by (auto simp: http_app_def auth_middleware_def bearer_token_def Let_def tenant_stack [of _ ?p]
        effective_tenant_def header_get_def or_str_def split: option.splits if_splits)
  from http_identity [OF path, of demo_auth default_settings ?v None 0] show ?thesis
  proof (elim disjE exE conjE)
    fix resp s'
    assume "rs_status resp \<in> {401, 403}"
      and all: "\<forall>routes. http_app demo_auth default_settings ?v routes demo_request None 0 = (Inr resp, None, s')"
    from spec [OF all, of ?routes] app have "resp = json_response ''reached'' 200" by simp
    with \<open>rs_status resp \<in> {401, 403}\<close> show ?thesis by (simp add: json_response_def)
  next
    fix x s'
    assume "\<forall>routes. http_app demo_auth default_settings ?v routes demo_request None 0 = (Inl x, None, s')"
    with app show ?thesis by (metis Pair_inject sum.distinct(1))
  next
    fix token p s' tenant
    assume "bearer_token demo_request = Some token" "validate_token demo_auth ?v token 0 = (Inr p, s')"
      "tenant = or_str (header_get demo_request (tenant_header default_settings)) (pr_tenant p)"
    with tok head(1) show ?thesis by simp
  qed (use tok head(1) in simp)
qed

end
