(* ===== verification/Transport.thy ===== *)
theory Transport
  imports Auth Server_Correct
begin

text \<open>
  The server over HTTP and over the standard streams (\<^verbatim>\<open>transport/http.py\<close>,
  \<^verbatim>\<open>transport/stdio.py\<close>): the routes behind the middlewares, and under which identity a tool call
  arrives at the dispatch pipeline. The session manager of the MCP library is a parameter: what a
  request posted to it asks for, and how a result is answered. It runs the handlers in the task of
  the request, as in its stateless mode, which is the default of the settings.
\<close>

section \<open>The routes\<close>

record 'w session_manager =
  mg_call :: "request \<Rightarrow> 'w \<Rightarrow> (string \<times> args) option"
  mg_answer :: "request \<Rightarrow> handler_result outcome \<Rightarrow> response outcome"
  mg_other :: "request \<Rightarrow> mcp_tool_spec list \<Rightarrow> 'w \<Rightarrow> response outcome"

type_synonym 'w http_state = "'w server \<times> 'w"

definition ok_json :: "json \<Rightarrow> response" where
  "ok_json body = \<lparr>rs_status = 200, rs_body = body, rs_headers = []\<rparr>"

definition healthz :: "response" where
  "healthz = ok_json (JObj [(''status'', JStr ''ok'')])"

definition readyz :: "'w server \<Rightarrow> response" where
  "readyz sv =
     (if length (rg_tools (sv_registry sv)) = 0
      then (ok_json (JObj [(''status'', JStr ''starting'')]))\<lparr>rs_status := 503\<rparr>
      else ok_json (JObj [(''status'', JStr ''ready'')]))"

text \<open>The exposition text is the metrics library's.\<close>

definition metrics_endpoint :: "(metrics \<Rightarrow> string) \<Rightarrow> string \<Rightarrow> 'w server \<Rightarrow> response" where
  "metrics_endpoint exposition content_type sv =
     \<lparr>rs_status = 200, rs_body = JStr (exposition (sv_metrics sv)), rs_headers = [(''content-type'', content_type)]\<rparr>"

definition handle_request :: "'w server_env \<Rightarrow> 'w session_manager \<Rightarrow> 'w http_state handler" where
  "handle_request ev mg rq cv s =
     (case s of (sv, w) \<Rightarrow>
        case mg_call mg rq w of
          None \<Rightarrow> (mg_other mg rq (list_tools cv sv) w, cv, (sv, w))
        | Some (name, arguments) \<Rightarrow>
            (case call_tool ev cv name arguments sv w of
               (r, sv1, w1) \<Rightarrow> (bind_res r (\<lambda>v. mg_answer mg rq (Inr v)), cv, (sv1, w1))))"

definition not_found :: response where
  "not_found = \<lparr>rs_status = 404, rs_body = JStr ''Not Found'', rs_headers = []\<rparr>"

record 'w http_parts =
  hp_auth :: "'w auth_env"
  hp_validator :: validator
  hp_manager :: "'w session_manager"
  hp_exposition :: "metrics \<Rightarrow> string"
  hp_content_type :: string

definition routes :: "'w server_env \<Rightarrow> 'w http_parts \<Rightarrow> 'w http_state handler" where
  "routes ev hp rq cv s =
     (let path = rq_path rq; sv = fst s
      in if path = ''/.well-known/mcp-server''
         then (Inr (ok_json (capability_document (sv_settings sv) (sv_registry sv))), cv, s)
         else if path = ''/healthz'' then (Inr healthz, cv, s)
         else if path = ''/readyz'' then (Inr (readyz sv), cv, s)
         else if path = ''/metrics''
         then (Inr (metrics_endpoint (hp_exposition hp) (hp_content_type hp) sv), cv, s)
         else if path = ''/mcp'' \<or> startswith path ''/mcp/'' then handle_request ev (hp_manager hp) rq cv s
         else (Inr not_found, cv, s))"

text \<open>Checking a token acts on the world and not on the server.\<close>

definition beside_server :: "'w auth_env \<Rightarrow> 'w http_state auth_env" where
  "beside_server au =
     \<lparr>au_decode = (\<lambda>url aud iss token (sv, w). case au_decode au url aud iss token w of (r, w1) \<Rightarrow> (r, (sv, w1))),
      au_time = (\<lambda>(sv, w). au_time au w)\<rparr>"

definition serve :: "'w server_env \<Rightarrow> 'w http_parts \<Rightarrow> settings \<Rightarrow> 'w http_state handler" where
  "serve ev hp cfg = http_app (beside_server (hp_auth hp)) cfg (hp_validator hp) (routes ev hp)"

section \<open>The standard streams\<close>

text \<open>
  \<^verbatim>\<open>run_stdio\<close>: the process has one context, for the tenant of its environment; the server is shut
  down and the context put back whatever the session ends with.
\<close>

definition run_stdio ::
    "(string \<Rightarrow> string option) \<Rightarrow> 'w tool list \<Rightarrow> (context_var \<Rightarrow> 'w http_state \<Rightarrow> unit outcome \<times> 'w http_state)
       \<Rightarrow> context_var \<Rightarrow> 'w http_state \<Rightarrow> unit outcome \<times> context_var \<times> 'w http_state" where
  "run_stdio environ builtin session cv s =
     (case s of (sv, w) \<Rightarrow>
        let tenant = (case environ ''ATLAS_TENANT'' of None \<Rightarrow> ''default'' | Some t \<Rightarrow> t)
        in case set_context (dev_context tenant ''dev:local'' []) cv of
             (token, cv1) \<Rightarrow>
               (case startup builtin sv of
                  (Inl x, sv1) \<Rightarrow> (Inl x, cv1, (sv1, w))
                | (Inr u, sv1) \<Rightarrow>
                    (case session cv1 (sv1, w) of
                       (r, s2) \<Rightarrow> (r, reset_context token cv1, s2))))"

section \<open>Facts\<close>

lemma validate_beside:
  "validate_token (beside_server au) v token (sv, w) =
     (case validate_token au v token w of (r, w1) \<Rightarrow> (r, (sv, w1)))"
  by (simp add: validate_token_def beside_server_def split: prod.split jwt_result.split)

lemma after_check_beside:
  "after_check (beside_server au) v rq (sv, w) s' \<Longrightarrow> fst s' = sv \<and> after_check au v rq w (snd s')"
  by (auto simp: after_check_def validate_beside split: option.splits prod.splits)

lemma routes_state:
  "snd (snd (routes ev hp rq cv (sv, w))) = (sv, w) \<or>
   (\<exists>name arguments. mg_call (hp_manager hp) rq w = Some (name, arguments) \<and>
      snd (snd (routes ev hp rq cv (sv, w))) = snd (call_tool ev cv name arguments sv w))"
  by (auto simp: routes_def handle_request_def Let_def split: option.split prod.split)

lemma call_tool_state:
  "snd (call_tool ev cv name arguments sv w) =
     snd (dispatch ev (current_context cv) (build_envelope (current_context cv) name arguments) sv w)"
  by (simp add: call_tool_def Let_def split: prod.split sum.split exc.split)

lemma dispatch_state:
  assumes "snd (dispatch ev ctx envelope sv w) \<noteq> (sv, w)"
  obtains t vargs where "admitted ev ctx envelope sv t vargs"
  by (rule dispatch_cases [of ev ctx envelope sv w]) (use assms in auto)

lemma admitted_facts:
  assumes "admitted ev ctx envelope sv t vargs"
  shows "map_of (rg_tools (sv_registry sv)) (env_tool envelope) = Some t"
    and "\<forall>s \<in> set (tm_scopes_required (tl_meta t)). scope_held (rc_scopes ctx) s"
    and "policy_check (sv_policy sv) (env_caller envelope) (env_tenant envelope) (tm_name (tl_meta t))
      (tm_name (tl_meta t)) (policy_context_of vargs) = Inr ()"
  using assms by (simp_all add: admitted_def get_tool_def scope_guard_ok has_scope_def policy_action_def
      policy_resource_def split: option.splits)

lemma caller_envelope [simp]:
  "current_context (Some ctx) = ctx" "env_tenant (build_envelope (principal_context pr tenant) name arguments) = tenant"
  "env_caller (build_envelope (principal_context pr tenant) name arguments) = pr_subject pr"
  "rc_scopes (principal_context pr tenant) = pr_scopes pr"
  "env_tool (build_envelope ctx name arguments) = name" "env_arguments (build_envelope ctx name arguments) = arguments"
  by (simp_all add: current_context_def build_envelope_def principal_context_def)

lemma called_state:
  assumes "(sv', w') = snd (snd (routes ev hp rq (Some ctx) (sv, w)))" and "(sv', w') \<noteq> (sv, w)"
  obtains name arguments t vargs where "mg_call (hp_manager hp) rq w = Some (name, arguments)"
    and "admitted ev ctx (build_envelope ctx name arguments) sv t vargs"
proof -
  obtain name arguments where call: "mg_call (hp_manager hp) rq w = Some (name, arguments)"
    and st: "(sv', w') = snd (call_tool ev (Some ctx) name arguments sv w)"
    using routes_state [of ev hp rq "Some ctx" sv w] assms by auto
  have "snd (dispatch ev ctx (build_envelope ctx name arguments) sv w) \<noteq> (sv, w)"
    using st assms(2) by (simp add: call_tool_state current_context_def)
  then obtain t vargs where "admitted ev ctx (build_envelope ctx name arguments) sv t vargs"
    by (rule dispatch_state)
  with call show thesis by (rule that)
qed

text \<open>A request is refused by the middlewares, or the routes act for the identity of its token.\<close>

lemma serve_cases:
  assumes "serve ev hp cfg rq cv (sv, w) = (r, cv', (sv', w'))" and "rq_path rq \<notin> set public_paths"
  obtains (refused) "cv' = cv" and "sv' = sv" and "after_check (hp_auth hp) (hp_validator hp) rq w w'"
      and "case r of Inr resp \<Rightarrow> rs_status resp \<in> {401, 403} | Inl x \<Rightarrow> True"
  | (passed) token pr w1 tenant cv1 where "cv' = cv" and "bearer_token rq = Some token"
      and "validate_token (hp_auth hp) (hp_validator hp) token w = (Inr pr, w1)"
      and "tenant = or_str (header_get rq (tenant_header cfg)) (pr_tenant pr)" and "may_act_for pr tenant"
      and "routes ev hp (rq\<lparr>rq_principal := Some pr, rq_tenant := Some tenant\<rparr>)
             (Some (principal_context pr tenant)) (sv, w1) = (r, cv1, (sv', w'))"
  using http_app_identity [OF assms(2), where ev = "beside_server (hp_auth hp)" and v = "hp_validator hp" and s = "(sv, w)"
      and cfg = cfg and cv = cv]
proof (elim disjE exE conjE)
  fix resp s'
  assume "rs_status resp \<in> {401, 403}" "after_check (beside_server (hp_auth hp)) (hp_validator hp) rq (sv, w) s'"
    and all: "\<forall>routes. http_app (beside_server (hp_auth hp)) cfg (hp_validator hp) routes rq cv (sv, w) = (Inr resp, cv, s')"
  with assms(1) after_check_beside show thesis by (intro refused) (fastforce simp: serve_def)+
next
  fix x s'
  assume "after_check (beside_server (hp_auth hp)) (hp_validator hp) rq (sv, w) s'"
    and all: "\<forall>routes. http_app (beside_server (hp_auth hp)) cfg (hp_validator hp) routes rq cv (sv, w) = (Inl x, cv, s')"
  with assms(1) after_check_beside show thesis by (intro refused) (fastforce simp: serve_def)+
next
  fix token pr s' tenant
  assume facts: "bearer_token rq = Some token" "validate_token (beside_server (hp_auth hp)) (hp_validator hp) token (sv, w) = (Inr pr, s')"
    "tenant = or_str (header_get rq (tenant_header cfg)) (pr_tenant pr)" "may_act_for pr tenant"
    and all: "\<forall>routes. http_app (beside_server (hp_auth hp)) cfg (hp_validator hp) routes rq cv (sv, w) =
        (case routes (rq\<lparr>rq_principal := Some pr, rq_tenant := Some tenant\<rparr>)
                (Some \<lparr>rc_subject = pr_subject pr, rc_tenant = tenant, rc_scopes = pr_scopes pr,
                   rc_delegator = pr_delegator pr, rc_trace_id = None\<rparr>) s' of
           (r, cv1, s1) \<Rightarrow> (r, cv, s1))"
  obtain w1 where val: "validate_token (hp_auth hp) (hp_validator hp) token w = (Inr pr, w1)" "s' = (sv, w1)"
    using facts(2) by (auto simp: validate_beside split: prod.splits)
  obtain r1 cv1 s1 where run: "routes ev hp (rq\<lparr>rq_principal := Some pr, rq_tenant := Some tenant\<rparr>)
      (Some (principal_context pr tenant)) (sv, w1) = (r1, cv1, s1)" by (metis prod_cases3)
  with assms(1) all [THEN spec, of "routes ev hp"] val(2) have "cv' = cv" "r1 = r" "s1 = (sv', w')"
    by (simp_all add: serve_def principal_context_def)
  with run show thesis by (intro passed [OF _ facts(1) val(1) facts(3,4)]) simp_all
qed

lemma serve_passes:
  assumes "rq_path rq \<notin> set public_paths" and "bearer_token rq = Some token"
    and "validate_token (hp_auth hp) (hp_validator hp) token w = (Inr p, w1)"
    and "tenant = or_str (header_get rq (tenant_header cfg)) (pr_tenant p)" and "may_act_for p tenant"
  shows "serve ev hp cfg rq cv (sv, w) =
      (case routes ev hp (rq\<lparr>rq_principal := Some p, rq_tenant := Some tenant\<rparr>) (Some (principal_context p tenant)) (sv, w1) of
         (r, cv1, s1) \<Rightarrow> (r, cv, s1))"
  unfolding serve_def by (rule http_app_passes [OF assms(1,2) _ assms(4,5)]) (simp add: validate_beside assms(3))


definition net_parts :: "demo_world http_parts" where
  "net_parts =
     \<lparr>hp_auth = \<lparr>au_decode = (\<lambda>_ _ _ token w. (if token = ''tok'' then Jwt_Claims demo_claims else Jwt_Invalid ''bad'', w)),
        au_time = (\<lambda>w. 0)\<rparr>,
      hp_validator = new_validator default_settings,
      hp_manager = \<lparr>mg_call = (\<lambda>rq w. Some (''server.ping'', [])),
        mg_answer = (\<lambda>rq r. case r of Inl x \<Rightarrow> Inl x | Inr v \<Rightarrow> Inr (ok_json JNull)),
        mg_other = (\<lambda>rq specs w. Inr (ok_json JNull))\<rparr>,
      hp_exposition = (\<lambda>m. ''''), hp_content_type = ''text/plain''\<rparr>"

abbreviation net_context :: request_context where
  "net_context \<equiv> principal_context (principal_of demo_claims) ''acme''"

lemma net_ping_runs:
  "snd (snd (snd (dispatch demo_env net_context (build_envelope net_context ''server.ping'' []) demo_server (0, 0)))) = 1"
  by (simp add: ping_dispatch build_envelope_def)

lemma net_serve:
  "snd (snd (serve demo_env net_parts default_settings demo_request None (demo_server, (0, 0)))) =
     snd (dispatch demo_env net_context (build_envelope net_context ''server.ping'' []) demo_server (0, 0))"
proof -
  let ?p = "principal_of demo_claims"
  have rq: "rq_path demo_request \<notin> set public_paths" "bearer_token demo_request = Some ''tok''"
    "''acme'' = or_str (header_get demo_request (tenant_header default_settings)) (pr_tenant ?p)" "may_act_for ?p ''acme''"
    by code_simp+
  have "validate_token (hp_auth net_parts) (hp_validator net_parts) ''tok'' w = (Inr ?p, w)" for w
    by (simp add: validate_token_def no_dev_token net_parts_def)
  from serve_passes [OF rq(1,2) this rq(3,4)] show ?thesis
    by (simp add: routes_def handle_request_def net_parts_def demo_request_def call_tool_state case_prod_beta)
qed


text \<open>A local host gets only what needs no scope. Over the standard streams every call comes in
  under a context without scopes, so a call of a tool that requires one is refused with
  \<^verbatim>\<open>insufficient_scope\<close> or an earlier error, and changes neither the server nor the world; of the
  built-in tools only \<^verbatim>\<open>server.ping\<close> requires none.\<close>

theorem stdio_only_unscoped:
  assumes "map_of (rg_tools (sv_registry sv)) name = Some t" and "tm_scopes_required (tl_meta t) \<noteq> []"
  shows "(\<exists>e. dispatch ev (dev_context tenant ''dev:local'' []) (build_envelope (dev_context tenant ''dev:local'' []) name arguments) sv w
      = (Inl e, sv, w)) \<and>
    filter (\<lambda>m. tm_scopes_required m = []) builtin_metas = [ping_meta]"
proof
  let ?ctx = "dev_context tenant ''dev:local'' []"
  show "\<exists>e. dispatch ev ?ctx (build_envelope ?ctx name arguments) sv w = (Inl e, sv, w)"
  proof (rule dispatch_cases [of ev ?ctx "build_envelope ?ctx name arguments" sv w])
    fix x assume "dispatch ev ?ctx (build_envelope ?ctx name arguments) sv w = (Inl x, sv, w)"
    then show ?thesis by blast
  next
    fix t' vargs assume adm: "admitted ev ?ctx (build_envelope ?ctx name arguments) sv t' vargs"
    have "t' = t" using admitted_facts(1) [OF adm] assms(1) by (simp add: build_envelope_def)
    then have "scope_held [] (hd (tm_scopes_required (tl_meta t)))"
      using admitted_facts(2) [OF adm] hd_in_set [OF assms(2)] by (simp add: dev_context_def)
    then show ?thesis by (simp add: scope_held_iff)
  qed
  show "filter (\<lambda>m. tm_scopes_required m = []) builtin_metas = [ping_meta]" by (simp add: builtin_defs)
qed

theorem stdio_only_unscoped_witness:
  "\<exists>e. dispatch demo_env (dev_context ''acme'' ''dev:local'' [])
     (build_envelope (dev_context ''acme'' ''dev:local'' []) ''s3.put_object'' []) approved_server (0, 0) = (Inl e, approved_server, (0, 0))"
proof -
  have "tm_scopes_required (tl_meta (counting_tool s3_put_meta)) \<noteq> []"
    by (simp add: counting_tool_def s3_put_meta_def metadata_def)
  from stdio_only_unscoped [OF demo_tools(2) this, THEN conjunct1] show ?thesis .
qed


end
