(* ===== verification/Agent_Base.thy ===== *)
theory Agent_Base
  imports Py_Json
begin

text \<open>
  What every agent of the copilot rests on (\<^verbatim>\<open>agents/base.py\<close>, \<^verbatim>\<open>agents/mcp_client.py\<close>): the
  accounting of a turn, a completion by the language model, the lenient reading of its JSON, and
  the client that calls the server's tools. The model and the HTTP exchange are parameters.
\<close>

section \<open>A turn\<close>

record agent_run =
  ag_run_id :: string
  ag_tokens_in :: int
  ag_tokens_out :: int
  ag_tool_calls :: int

definition new_run :: "string \<Rightarrow> agent_run" where
  "new_run run_id = \<lparr>ag_run_id = run_id, ag_tokens_in = 0, ag_tokens_out = 0, ag_tool_calls = 0\<rparr>"

record message =
  ms_role :: string
  ms_content :: string

text \<open>
  The model: from the system prompt, the messages and the limit to a response dictionary, with
  the effect on the world. A response carries its text blocks and its token counts.
\<close>

record llm_response =
  lr_blocks :: "(string \<times> string) list"
  lr_input_tokens :: int
  lr_output_tokens :: int

type_synonym 'w llm = "string \<Rightarrow> message list \<Rightarrow> int \<Rightarrow> 'w \<Rightarrow> llm_response outcome \<times> 'w"

fun first_text_block :: "(string \<times> string) list \<Rightarrow> string" where
  "first_text_block [] = ''''"
| "first_text_block ((ty, text) # blocks) = (if ty = ''text'' then text else first_text_block blocks)"

definition complete_text ::
    "'w llm \<Rightarrow> string \<Rightarrow> message list \<Rightarrow> int \<Rightarrow> agent_run \<Rightarrow> 'w \<Rightarrow> string outcome \<times> agent_run \<times> 'w" where
  "complete_text llm system messages max_tokens run w =
     (case llm system messages max_tokens w of
        (Inl x, w1) \<Rightarrow> (Inl x, run, w1)
      | (Inr resp, w1) \<Rightarrow>
          (Inr (first_text_block (lr_blocks resp)),
           run\<lparr>ag_tokens_in := ag_tokens_in run + lr_input_tokens resp,
               ag_tokens_out := ag_tokens_out run + lr_output_tokens resp\<rparr>, w1))"

definition strip_fence :: "string \<Rightarrow> string" where
  "strip_fence text =
     (if startswith text ''```'' then
        (let parts = split_str ''```'' text;
             t = (if 2 \<le> length parts then parts ! 1 else text)
         in if startswith t (''json'' @ [CHR 0x0A]) then drop 5 t else t)
      else text)"

text \<open>The text from the first opening brace to the last closing one is read as JSON.\<close>

definition brace_span :: "string \<Rightarrow> string option" where
  "brace_span text =
     (case (find_char (CHR ''{'') text, rfind_char (CHR ''}'') text) of
        (Some start, Some stop) \<Rightarrow> Some (drop start (take (Suc stop) text))
      | _ \<Rightarrow> None)"

definition parse_json_lenient :: "runtime \<Rightarrow> string \<Rightarrow> json outcome" where
  "parse_json_lenient rt text0 =
     (let text = strip_fence (py_strip text0)
      in case brace_span text of
           None \<Rightarrow> Inl (Py_Exc ''ValueError'' (''no JSON object in LLM output: '' @ py_repr (take 200 text)))
         | Some spn \<Rightarrow>
             (case loads rt spn of
                None \<Rightarrow> Inl (Py_Exc ''JSONDecodeError'' '''')
              | Some v \<Rightarrow> Inr v))"

definition complete_json ::
    "runtime \<Rightarrow> 'w llm \<Rightarrow> string \<Rightarrow> message list \<Rightarrow> int \<Rightarrow> agent_run \<Rightarrow> 'w \<Rightarrow> json outcome \<times> agent_run \<times> 'w" where
  "complete_json rt llm system messages max_tokens run w =
     (case complete_text llm system messages max_tokens run w of
        (Inl x, run1, w1) \<Rightarrow> (Inl x, run1, w1)
      | (Inr text, run1, w1) \<Rightarrow> (parse_json_lenient rt text, run1, w1))"

section \<open>The client of the tools\<close>

text \<open>
  The client reads the answers by the types the protocol gives them: an error object has an
  integer code, a text and possibly an object for its data; a result is an object.
\<close>

definition dict_get :: "string \<Rightarrow> json \<Rightarrow> (string \<times> json) list \<Rightarrow> json" where
  "dict_get k d ps = (case map_of ps k of None \<Rightarrow> d | Some v \<Rightarrow> v)"

record tool_result =
  tr_ok :: bool
  tr_value :: json
  tr_error_code :: "string option"
  tr_retryable :: bool
  tr_hint :: "string option"

text \<open>
  \<^verbatim>\<open>json.dumps(..., indent=2)\<close>: the layout is the library's, the value is the observation's.
\<close>

definition observation_value :: "tool_result \<Rightarrow> json" where
  "observation_value r =
     (if tr_ok r then JObj [(''ok'', JBool True), (''result'', tr_value r)]
      else JObj [(''ok'', JBool False), (''error'', json_opt_str (tr_error_code r)),
             (''retryable'', JBool (tr_retryable r)), (''hint'', json_opt_str (tr_hint r))])"

record mcp_exc =
  mx_code :: int
  mx_message :: string
  mx_data :: "(string \<times> json) list option"

text \<open>
  An exchange: the posted request gives the body of the answer, or raises. The session of the
  client is the one the server gave at the start.
\<close>

record 'w mcp_transport =
  mt_post :: "(string \<times> json) list \<Rightarrow> (string \<times> string) list \<Rightarrow> 'w \<Rightarrow> (string \<times> json) list outcome \<times> 'w"
  mt_new_id :: "'w \<Rightarrow> string"
  mt_session_id :: "string option"
  mt_layout :: "json \<Rightarrow> string"

datatype rpc_result = Rpc_Result "(string \<times> json) list" | Rpc_Error mcp_exc | Rpc_Raised exc

definition json_int_or :: "int \<Rightarrow> json \<Rightarrow> int" where
  "json_int_or d j = (case j of JInt n \<Rightarrow> n | _ \<Rightarrow> d)"

definition json_str_or :: "string \<Rightarrow> json \<Rightarrow> string" where
  "json_str_or d j = (case j of JStr s \<Rightarrow> s | _ \<Rightarrow> d)"

definition json_obj :: "json \<Rightarrow> (string \<times> json) list" where
  "json_obj j = (case j of JObj ps \<Rightarrow> ps | _ \<Rightarrow> [])"

definition mcp_exc_of :: "json \<Rightarrow> mcp_exc" where
  "mcp_exc_of err =
     \<lparr>mx_code = json_int_or (- 32000) (dict_get ''code'' (JInt (- 32000)) (json_obj err)),
      mx_message = json_str_or '''' (dict_get ''message'' (JStr '''') (json_obj err)),
      mx_data = (case dict_get ''data'' JNull (json_obj err) of JObj ps \<Rightarrow> Some ps | _ \<Rightarrow> None)\<rparr>"

definition rpc :: "'w mcp_transport \<Rightarrow> string \<Rightarrow> (string \<times> json) list \<Rightarrow> 'w \<Rightarrow> rpc_result \<times> 'w" where
  "rpc mt meth params w =
     (case mt_post mt
             [(''jsonrpc'', JStr ''2.0''), (''id'', JStr (mt_new_id mt w)), (''method'', JStr meth),
              (''params'', JObj params)]
             (case mt_session_id mt of
                None \<Rightarrow> [] | Some s \<Rightarrow> if s = '''' then [] else [(''Mcp-Session-Id'', s)]) w of
        (Inl x, w1) \<Rightarrow> (Rpc_Raised x, w1)
      | (Inr body, w1) \<Rightarrow>
          (case map_of body ''error'' of
             Some err \<Rightarrow> (Rpc_Error (mcp_exc_of err), w1)
           | None \<Rightarrow> (Rpc_Result (json_obj (dict_get ''result'' (JObj []) body)), w1)))"

definition initialize :: "'w mcp_transport \<Rightarrow> 'w \<Rightarrow> 'w mcp_transport outcome \<times> 'w" where
  "initialize mt w =
     (case rpc mt ''initialize''
             [(''protocolVersion'', JStr ''2025-11''), (''capabilities'', JObj [(''tools'', JObj [])]),
              (''clientInfo'', JObj [(''name'', JStr ''atlas-agent''), (''version'', JStr ''0.1.0'')])] w of
        (Rpc_Result resp, w1) \<Rightarrow>
          (Inr (mt\<lparr>mt_session_id := (case map_of resp ''sessionId'' of Some (JStr s) \<Rightarrow> Some s | _ \<Rightarrow> None)\<rparr>), w1)
      | (Rpc_Error e, w1) \<Rightarrow> (Inl (Py_Exc ''MCPError'' (str_of_int (mx_code e) @ '': '' @ mx_message e)), w1)
      | (Rpc_Raised x, w1) \<Rightarrow> (Inl x, w1))"

definition mcp_list_tools :: "'w mcp_transport \<Rightarrow> 'w \<Rightarrow> json list outcome \<times> 'w" where
  "mcp_list_tools mt w =
     (case rpc mt ''tools/list'' [] w of
        (Rpc_Result resp, w1) \<Rightarrow>
          (Inr (case dict_get ''tools'' (JList []) resp of JList ts \<Rightarrow> ts | _ \<Rightarrow> []), w1)
      | (Rpc_Error e, w1) \<Rightarrow> (Inl (Py_Exc ''MCPError'' (str_of_int (mx_code e) @ '': '' @ mx_message e)), w1)
      | (Rpc_Raised x, w1) \<Rightarrow> (Inl x, w1))"

definition opt_or :: "json \<Rightarrow> string \<Rightarrow> string" where
  "opt_or j d = (case j of JStr s \<Rightarrow> if s = '''' then d else s | _ \<Rightarrow> d)"

definition failed_result :: "mcp_exc \<Rightarrow> tool_result" where
  "failed_result e =
     (let data = (case mx_data e of None \<Rightarrow> [] | Some d \<Rightarrow> d)
      in \<lparr>tr_ok = False, tr_value = JNull,
          tr_error_code = Some (opt_or (dict_get ''code'' JNull data) (str_of_int (mx_code e))),
          tr_retryable = truthy (dict_get ''retryable'' JNull data),
          tr_hint = Some (opt_or (dict_get ''hint'' JNull data) (mx_message e))\<rparr>)"

text \<open>The first content item, if it is a text, is read as JSON when it is JSON.\<close>

definition content_value :: "runtime \<Rightarrow> (string \<times> json) list \<Rightarrow> json" where
  "content_value rt resp =
     (case dict_get ''content'' JNull resp of
        JList (JObj item # _) \<Rightarrow>
          if map_of item ''type'' = Some (JStr ''text'') then
            (case map_of item ''text'' of
               Some (JStr text) \<Rightarrow> (case loads rt text of Some v \<Rightarrow> v | None \<Rightarrow> JStr text)
             | _ \<Rightarrow> JObj resp)
          else JObj resp
      | _ \<Rightarrow> JObj resp)"

definition mcp_call_tool ::
    "runtime \<Rightarrow> 'w mcp_transport \<Rightarrow> string \<Rightarrow> json \<Rightarrow> 'w \<Rightarrow> tool_result outcome \<times> 'w" where
  "mcp_call_tool rt mt name arguments w =
     (case rpc mt ''tools/call'' [(''name'', JStr name), (''arguments'', arguments)] w of
        (Rpc_Raised x, w1) \<Rightarrow> (Inl x, w1)
      | (Rpc_Error e, w1) \<Rightarrow> (Inr (failed_result e), w1)
      | (Rpc_Result resp, w1) \<Rightarrow>
          (Inr \<lparr>tr_ok = True, tr_value = content_value rt resp, tr_error_code = None,
                tr_retryable = False, tr_hint = None\<rparr>, w1))"

end
