(* ===== verification/Process.thy ===== *)
theory Process
  imports Transport Outbound_Tools Agent_Base
begin

text \<open>
  The edges of the program: how the process is started (\<^verbatim>\<open>main\<close>, \<^verbatim>\<open>run_http\<close> of \<^verbatim>\<open>server.py\<close>), the
  production client of the language model (\<^verbatim>\<open>agents/base.py\<close>), the discovery of the authorization
  server (\<^verbatim>\<open>auth/oauth.py\<close>), where the embedding client gets its address and key, and the registry
  as a collection (\<^verbatim>\<open>tools/registry.py\<close>). The HTTP exchange and the environment are parameters.
\<close>

section \<open>Starting\<close>

text \<open>What is started: a session on the standard streams, or a web server with its log level.\<close>

datatype launch = Launch_Stdio | Launch_Http string int "string option"

definition main_launch :: "settings \<Rightarrow> launch" where
  "main_launch cfg =
     (if transport cfg = ''stdio'' then Launch_Stdio
      else Launch_Http (http_host cfg) (http_port cfg) None)"

definition run_http_launch :: "settings \<Rightarrow> launch" where
  "run_http_launch cfg = Launch_Http (http_host cfg) (http_port cfg) (Some (str_lower (log_level cfg)))"

text \<open>\<^verbatim>\<open>shutdown\<close> does nothing.\<close>

definition shutdown :: "'w server \<Rightarrow> 'w server" where
  "shutdown sv = sv"

text \<open>\<^verbatim>\<open>get_settings\<close> of \<^verbatim>\<open>config.py\<close>: the environment is read once, then the result is kept.\<close>

definition get_settings :: "('e \<Rightarrow> settings) \<Rightarrow> 'e \<Rightarrow> settings option \<Rightarrow> settings \<times> settings option" where
  "get_settings read environ cached =
     (case cached of Some s \<Rightarrow> (s, cached) | None \<Rightarrow> (let s = read environ in (s, Some s)))"

lemma get_settings_once:
  "get_settings read environ cached = (s, cached1) \<Longrightarrow> get_settings read' environ' cached1 = (s, cached1)"
  by (auto simp: get_settings_def Let_def split: option.splits)

section \<open>Requests of the process itself\<close>

type_synonym headers = "(string \<times> string) list"

definition http_status_error :: exc where
  "http_status_error = Py_Exc ''HTTPStatusError'' ''''"

text \<open>\<^verbatim>\<open>raise_for_status\<close>, then \<^verbatim>\<open>json\<close>.\<close>

definition json_of_reply :: "http_reply \<Rightarrow> json outcome" where
  "json_of_reply reply =
     (if hr_status reply < 200 \<or> 299 < hr_status reply then Inl http_status_error else Inr (hr_body reply))"

text \<open>\<^verbatim>\<open>given or os.environ.get(name, default)\<close>: an empty text counts as not given.\<close>

definition or_environ :: "string option \<Rightarrow> (string \<Rightarrow> string option) \<Rightarrow> string \<Rightarrow> string \<Rightarrow> string" where
  "or_environ given environ name fallback =
     (let env = (case environ name of None \<Rightarrow> fallback | Some v \<Rightarrow> v)
      in case given of None \<Rightarrow> env | Some v \<Rightarrow> if v = '''' then env else v)"

subsection \<open>The language model\<close>

record llm_client =
  lc_api_key :: string
  lc_model :: string
  lc_base_url :: string

definition new_llm_client :: "(string \<Rightarrow> string option) \<Rightarrow> string option \<Rightarrow> string \<Rightarrow> llm_client" where
  "new_llm_client environ api_key model =
     \<lparr>lc_api_key = or_environ api_key environ ''ANTHROPIC_API_KEY'' '''', lc_model = model,
      lc_base_url = ''https://api.anthropic.com/v1''\<rparr>"

definition message_json :: "message \<Rightarrow> json" where
  "message_json m = JObj [(''role'', JStr (ms_role m)), (''content'', JStr (ms_content m))]"

definition llm_body :: "llm_client \<Rightarrow> string \<Rightarrow> message list \<Rightarrow> int \<Rightarrow> args" where
  "llm_body lc system messages max_tokens =
     [(''model'', JStr (lc_model lc)), (''max_tokens'', JInt max_tokens), (''system'', JStr system),
      (''messages'', JList (map message_json messages))]"

definition llm_headers :: "llm_client \<Rightarrow> headers" where
  "llm_headers lc =
     [(''x-api-key'', lc_api_key lc), (''anthropic-version'', ''2023-06-01''),
      (''content-type'', ''application/json'')]"

definition llm_complete ::
    "(string \<Rightarrow> args \<Rightarrow> headers \<Rightarrow> 'w \<Rightarrow> http_reply outcome \<times> 'w) \<Rightarrow> llm_client \<Rightarrow> string
       \<Rightarrow> message list \<Rightarrow> int \<Rightarrow> 'w \<Rightarrow> json outcome \<times> 'w" where
  "llm_complete post lc system messages max_tokens w =
     (case post (lc_base_url lc @ ''/messages'') (llm_body lc system messages max_tokens) (llm_headers lc) w of
        (r, w1) \<Rightarrow> (bind_res r json_of_reply, w1))"

subsection \<open>The authorization server and the embedding service\<close>

definition discovery_url :: "string \<Rightarrow> string" where
  "discovery_url issuer = rstrip_char (CHR ''/'') issuer @ ''/.well-known/oauth-authorization-server''"

definition discover_authorization_server ::
    "(string \<Rightarrow> 'w \<Rightarrow> http_reply outcome \<times> 'w) \<Rightarrow> string \<Rightarrow> 'w \<Rightarrow> json outcome \<times> 'w" where
  "discover_authorization_server fetch issuer w =
     (case fetch (discovery_url issuer) w of (r, w1) \<Rightarrow> (bind_res r json_of_reply, w1))"

definition embedding_address :: "(string \<Rightarrow> string option) \<Rightarrow> string option \<Rightarrow> string option \<Rightarrow> string \<times> string" where
  "embedding_address environ base_url api_key =
     (or_environ base_url environ ''ATLAS_EMBEDDING_URL'' ''https://api.openai.com/v1'',
      or_environ api_key environ ''ATLAS_EMBEDDING_KEY'' '''')"

section \<open>The registry as a collection\<close>

definition registry_len :: "'w registry \<Rightarrow> nat" where
  "registry_len rg = length (rg_tools rg)"

definition registry_contains :: "'w registry \<Rightarrow> string \<Rightarrow> bool" where
  "registry_contains rg name \<longleftrightarrow> name \<in> set (keys_of (rg_tools rg))"

definition registry_iter :: "'w registry \<Rightarrow> 'w tool list" where
  "registry_iter rg = map snd (rg_tools rg)"

definition well_known_endpoint :: "settings \<Rightarrow> 'w registry \<Rightarrow> response" where
  "well_known_endpoint cfg rg = ok_json (capability_document cfg rg)"

section \<open>Facts\<close>

text \<open>The three views agree with the lookup that \<^verbatim>\<open>dispatch\<close> makes.\<close>

lemma registry_views:
  assumes "registry_wf rg"
  shows "registry_contains rg n \<longleftrightarrow> is_ok (get_tool rg n)"
    and "t \<in> set (registry_iter rg) \<longleftrightarrow> get_tool rg (tm_name (tl_meta t)) = Inr t"
    and "registry_len rg = length (registry_iter rg)"
proof -
  show "registry_contains rg n \<longleftrightarrow> is_ok (get_tool rg n)"
    using map_of_eq_None_iff [of "rg_tools rg" n]
    by (cases "map_of (rg_tools rg) n") (simp_all add: registry_contains_def get_tool_def)
  have wf: "distinct (keys_of (rg_tools rg))" "\<And>k u. (k, u) \<in> set (rg_tools rg) \<Longrightarrow> tm_name (tl_meta u) = k"
    using assms by (auto simp: registry_wf_def wf_odict_def)
  have "t \<in> set (registry_iter rg) \<longleftrightarrow> (tm_name (tl_meta t), t) \<in> set (rg_tools rg)"
  proof
    assume "t \<in> set (registry_iter rg)"
    then obtain k where "(k, t) \<in> set (rg_tools rg)" by (auto simp: registry_iter_def)
    with wf(2) [OF this] show "(tm_name (tl_meta t), t) \<in> set (rg_tools rg)" by simp
  next
    assume "(tm_name (tl_meta t), t) \<in> set (rg_tools rg)"
    then show "t \<in> set (registry_iter rg)" by (force simp: registry_iter_def)
  qed
  also have "\<dots> \<longleftrightarrow> get_tool rg (tm_name (tl_meta t)) = Inr t"
    unfolding map_of_eq_Some_iff [OF wf(1), symmetric] by (simp add: get_tool_def split: option.split)
  finally show "t \<in> set (registry_iter rg) \<longleftrightarrow> get_tool rg (tm_name (tl_meta t)) = Inr t" .
  show "registry_len rg = length (registry_iter rg)"
    by (simp add: registry_len_def registry_iter_def)
qed

text \<open>The public route answers what the registry's own endpoint would.\<close>

lemma well_known_route:
  "rq_path rq = ''/.well-known/mcp-server'' \<Longrightarrow>
     routes ev hp rq cv s = (Inr (well_known_endpoint (sv_settings (fst s)) (sv_registry (fst s))), cv, s)"
  by (simp add: routes_def well_known_endpoint_def Let_def)

text \<open>The advertised metadata address is the one discovery asks, unless the issuer ends in a slash.\<close>

lemma rstrip_char_same: "rstrip_char c s = s \<longleftrightarrow> s = '''' \<or> last s \<noteq> c"
proof
  assume "rstrip_char c s = s"
  with rstrip_char_last [of c s] show "s = '''' \<or> last s \<noteq> c" by simp
next
  assume "s = '''' \<or> last s \<noteq> c"
  then show "rstrip_char c s = s"
    by (cases s rule: rev_cases) (auto simp: rstrip_char_def)
qed

lemma advertised_metadata_address:
  "auth_issuer cfg @ ''/.well-known/oauth-authorization-server'' = discovery_url (auth_issuer cfg)
     \<longleftrightarrow> \<not> endswith (auth_issuer cfg) ''/''"
proof -
  have "endswith s ''/'' \<longleftrightarrow> s \<noteq> '''' \<and> last s = CHR ''/''" for s
    by (cases s rule: rev_cases) (auto simp: endswith_def suffix_def)
  then show ?thesis
    using rstrip_char_same [of "CHR ''/''" "auth_issuer cfg"]
    unfolding discovery_url_def append_same_eq by metis
qed

text \<open>The key of the model's service travels in one header only, never in the address or the body.\<close>

lemma llm_complete_sends:
  "llm_complete post (new_llm_client environ key model) system messages max_tokens w =
     (case post ''https://api.anthropic.com/v1/messages''
             [(''model'', JStr model), (''max_tokens'', JInt max_tokens), (''system'', JStr system),
              (''messages'', JList (map message_json messages))]
             [(''x-api-key'', or_environ key environ ''ANTHROPIC_API_KEY'' ''''),
              (''anthropic-version'', ''2023-06-01''), (''content-type'', ''application/json'')] w of
        (r, w1) \<Rightarrow> (bind_res r json_of_reply, w1))"
  by (simp add: llm_complete_def new_llm_client_def llm_body_def llm_headers_def)

lemma shipped_launch: "main_launch default_settings = Launch_Http ''0.0.0.0'' 8080 None"
  by (simp add: main_launch_def default_settings_def)

end
