(* ===== verification/Wiring.thy ===== *)
theory Wiring
  imports Builtin_Tools Process
begin

text \<open>
  The production wiring: the connections the adapters of \<^verbatim>\<open>tools/clients\<close> open when they are first
  used and close at the end, and the backends each tool builds from the settings when none is
  injected (\<^verbatim>\<open>_get_backend\<close> of the atomic tools, the constructors of the composed ones).
\<close>

section \<open>Connections\<close>

text \<open>
  A handle that is there once the connection is open. Opening the pool of \<^verbatim>\<open>AsyncpgBackend\<close> awaits,
  so it is two steps with other tasks in between: a caller that finds no pool goes on to open one,
  and stores it when it is open.
\<close>

definition pool_min_size :: int where "pool_min_size = 2"
definition pool_max_size :: int where "pool_max_size = 10"

definition finish_open :: "'h outcome \<Rightarrow> 'h option \<Rightarrow> 'h outcome \<times> 'h option" where
  "finish_open opened pool =
     (case opened of Inl x \<Rightarrow> (Inl x, pool) | Inr h \<Rightarrow> (Inr h, Some h))"

definition ensure_pool ::
    "(string \<Rightarrow> int \<Rightarrow> int \<Rightarrow> rat \<Rightarrow> ('w, 'h) coro) \<Rightarrow> string \<Rightarrow> rat \<Rightarrow> 'h option \<Rightarrow> rat \<Rightarrow> 'w
       \<Rightarrow> 'h outcome \<times> 'h option \<times> 'w" where
  "ensure_pool create dsn command_timeout pool deadline w =
     (case pool of
        Some h \<Rightarrow> (Inr h, pool, w)
      | None \<Rightarrow>
          (case create dsn pool_min_size pool_max_size command_timeout deadline w of
             (opened, w1) \<Rightarrow> (case finish_open opened pool of (r, pool1) \<Rightarrow> (r, pool1, w1))))"

definition pool_fetch ::
    "(string \<Rightarrow> int \<Rightarrow> int \<Rightarrow> rat \<Rightarrow> ('w, 'h) coro) \<Rightarrow> ('h \<Rightarrow> 'w pg_connection) \<Rightarrow> string \<Rightarrow> rat \<Rightarrow> 'h option
       \<Rightarrow> string \<Rightarrow> string \<Rightarrow> json list \<Rightarrow> int \<Rightarrow> rat \<Rightarrow> 'w \<Rightarrow> args list outcome \<times> 'h option \<times> 'w" where
  "pool_fetch create conn dsn command_timeout pool tenant sql params max_rows deadline w =
     (case ensure_pool create dsn command_timeout pool deadline w of
        (Inl x, pool1, w1) \<Rightarrow> (Inl x, pool1, w1)
      | (Inr h, pool1, w1) \<Rightarrow>
          (case asyncpg_fetch (conn h) tenant sql params max_rows deadline w1 of
             (r, w2) \<Rightarrow> (r, pool1, w2)))"

text \<open>\<^verbatim>\<open>close\<close>: the handle is dropped only when closing it succeeds.\<close>

definition close_handle :: "('h \<Rightarrow> 'w \<Rightarrow> unit outcome \<times> 'w) \<Rightarrow> 'h option \<Rightarrow> 'w \<Rightarrow> unit outcome \<times> 'h option \<times> 'w" where
  "close_handle close handle w =
     (case handle of
        None \<Rightarrow> (Inr (), None, w)
      | Some h \<Rightarrow>
          (case close h w of
             (Inl x, w1) \<Rightarrow> (Inl x, handle, w1)
           | (Inr u, w1) \<Rightarrow> (Inr (), None, w1)))"

text \<open>The client of Elasticsearch and the session of S3 are made without awaiting.\<close>

definition lazy_client :: "'h \<Rightarrow> 'h option \<Rightarrow> 'h \<times> 'h option" where
  "lazy_client fresh handle = (case handle of None \<Rightarrow> (fresh, Some fresh) | Some h \<Rightarrow> (h, handle))"

section \<open>Backends from the settings\<close>

text \<open>
  The libraries behind the adapters. A connection of a pool, the exchange with Elasticsearch, with
  Qdrant and with S3 at an address, the embedding service, the HTTP client, the environment, the
  YAML of a file, and Pydantic.
\<close>

record 'w client_libs =
  li_runtime :: runtime
  li_order :: "string list \<Rightarrow> string list"
  li_pg :: "string \<Rightarrow> int \<Rightarrow> int \<Rightarrow> rat \<Rightarrow> 'w pg_connection"
  li_sqlstate :: "exc \<Rightarrow> json"
  li_es :: "string \<Rightarrow> string \<Rightarrow> args \<Rightarrow> ('w, json) coro"
  li_es_status_code :: "exc \<Rightarrow> int option"
  li_es_status :: "exc \<Rightarrow> int option"
  li_qdrant :: "rat \<Rightarrow> 'w qdrant_env"
  li_s3_get :: "string option \<Rightarrow> string \<Rightarrow> string \<Rightarrow> string \<Rightarrow> ('w, string) coro"
  li_s3_put :: "string option \<Rightarrow> string \<Rightarrow> string \<Rightarrow> string \<Rightarrow> string \<Rightarrow> (string \<times> string) list \<Rightarrow> ('w, unit) coro"
  li_s3_response :: "exc \<Rightarrow> json option"
  li_post :: "string \<Rightarrow> args \<Rightarrow> (string \<times> string) list \<Rightarrow> ('w, http_reply) coro"
  li_status_text :: "int \<Rightarrow> string"
  li_request_error :: "exc \<Rightarrow> bool"
  li_http :: "'w http_client"
  li_codec :: codec
  li_bracket_ok :: "string \<Rightarrow> bool"
  li_environ :: "string \<Rightarrow> string option"
  li_allowlist_yaml :: "string \<Rightarrow> allowlist option"
  li_schema :: "string \<Rightarrow> args \<Rightarrow> schema_result"
  li_json_schema :: "string \<Rightarrow> json"

definition timeout_seconds :: "tool_metadata \<Rightarrow> rat" where
  "timeout_seconds m = of_int (tm_timeout_ms m) / 1000"

definition postgres_backend_of :: "'w client_libs \<Rightarrow> settings \<Rightarrow> 'w postgres_backend" where
  "postgres_backend_of li cfg =
     \<lparr>pb_fetch = asyncpg_fetch (li_pg li (postgres_dsn cfg) pool_min_size pool_max_size (timeout_seconds postgres_meta)),
      pb_sqlstate = li_sqlstate li\<rparr>"

text \<open>The tenant is an argument of the adapter's \<^verbatim>\<open>search\<close>, which does not use it.\<close>

definition elasticsearch_search ::
    "(string \<Rightarrow> args \<Rightarrow> ('w, json) coro) \<Rightarrow> string \<Rightarrow> string \<Rightarrow> args \<Rightarrow> ('w, json) coro" where
  "elasticsearch_search client tenant index body = client index body"

definition elasticsearch_backend_of :: "'w client_libs \<Rightarrow> settings \<Rightarrow> 'w elasticsearch_backend" where
  "elasticsearch_backend_of li cfg =
     \<lparr>eb_search = elasticsearch_search (li_es li (elasticsearch_url cfg)),
      eb_status_code = li_es_status_code li, eb_status = li_es_status li\<rparr>"

definition vector_backend_of :: "'w client_libs \<Rightarrow> settings \<Rightarrow> 'w vector_backend" where
  "vector_backend_of li cfg =
     \<lparr>vb_search = qdrant_search (li_qdrant li (timeout_seconds vector_meta)) (vector_db_url cfg)\<rparr>"

definition s3_put_object ::
    "(string \<Rightarrow> string \<Rightarrow> string \<Rightarrow> string \<Rightarrow> (string \<times> string) list \<Rightarrow> ('w, unit) coro) \<Rightarrow> string \<Rightarrow> string \<Rightarrow> string
       \<Rightarrow> string \<Rightarrow> (string \<times> string) list \<Rightarrow> ('w, unit) coro" where
  "s3_put_object client bucket key body content_type md = client bucket key body content_type md"

definition object_store_of :: "'w client_libs \<Rightarrow> settings \<Rightarrow> 'w object_store" where
  "object_store_of li cfg =
     \<lparr>ob_get = s3_get_object (li_s3_get li (s3_endpoint cfg)),
      ob_put = s3_put_object (li_s3_put li (s3_endpoint cfg)), ob_response = li_s3_response li\<rparr>"

definition embedding_client_of :: "'w client_libs \<Rightarrow> 'w embedding_client" where
  "embedding_client_of li =
     (case embedding_address (li_environ li) None None of
        (url, key) \<Rightarrow>
          \<lparr>em_base_url = url, em_api_key = key, em_model = ''text-embedding-3-small'', em_post = li_post li,
           em_status_text = li_status_text li, em_request_error = li_request_error li\<rparr>)"

definition http_allowlist_of :: "'w client_libs \<Rightarrow> settings \<Rightarrow> allowlist" where
  "http_allowlist_of li cfg = allowlist_from_file (li_allowlist_yaml li (http_allowlist_file cfg))"

text \<open>The composed tools make their own atomic tools, on backends from the same settings.\<close>

definition production_backends :: "'w client_libs \<Rightarrow> settings \<Rightarrow> 'w tool_backends" where
  "production_backends li cfg =
     \<lparr>tb_runtime = li_runtime li, tb_order = li_order li, tb_es = elasticsearch_backend_of li cfg,
      tb_vectors = vector_backend_of li cfg, tb_postgres = postgres_backend_of li cfg,
      tb_embed = embed (embedding_client_of li)\<rparr>"

definition production_parts :: "'w client_libs \<Rightarrow> settings \<Rightarrow> 'w tool_parts" where
  "production_parts li cfg =
     \<lparr>tp_backends = production_backends li cfg, tp_objects = object_store_of li cfg, tp_codec = li_codec li,
      tp_http = li_http li, tp_allowlist = http_allowlist_of li cfg, tp_bracket_ok = li_bracket_ok li,
      tp_settings = cfg, tp_schema = li_schema li, tp_json_schema = li_json_schema li\<rparr>"

section \<open>Facts\<close>

text \<open>An open pool is used as it is; a failed opening is tried again by the next call.\<close>

lemma ensure_pool_open: "ensure_pool create dsn tmo (Some h) d w = (Inr h, Some h, w)"
  by (simp add: ensure_pool_def)

lemma ensure_pool_failed:
  "create dsn 2 10 tmo d w = (Inl x, w1) \<Longrightarrow> ensure_pool create dsn tmo None d w = (Inl x, None, w1)"
  by (simp add: ensure_pool_def finish_open_def pool_min_size_def pool_max_size_def)

lemma ensure_pool_first:
  "create dsn 2 10 tmo d w = (Inr h, w1) \<Longrightarrow> ensure_pool create dsn tmo None d w = (Inr h, Some h, w1)"
  by (simp add: ensure_pool_def finish_open_def pool_min_size_def pool_max_size_def)

text \<open>
  Two callers that both found no pool each open one. The pool stored first is overwritten, and
  closing the adapter closes the other: the first is never closed.
\<close>

lemma second_pool_leaks_first:
  assumes "finish_open (Inr h1) None = (r1, pool1)" and "finish_open (Inr h2) pool1 = (r2, pool2)"
  shows "r1 = Inr h1 \<and> pool2 = Some h2 \<and> close_handle close pool2 w =
    (case close h2 w of (Inl x, w1) \<Rightarrow> (Inl x, Some h2, w1) | (Inr u, w1) \<Rightarrow> (Inr (), None, w1))"
  using assms by (auto simp: finish_open_def close_handle_def)

text \<open>Closing twice, or what was never open, does nothing.\<close>

lemma close_handle_idempotent:
  "close_handle close handle w = (Inr (), handle1, w1) \<Longrightarrow> close_handle close handle1 w1 = (Inr (), None, w1)"
  by (auto simp: close_handle_def split: option.splits prod.splits sum.splits)

lemma lazy_client_stable: "lazy_client fresh handle = (h, handle1) \<Longrightarrow> lazy_client fresh' handle1 = (h, handle1)"
  by (auto simp: lazy_client_def split: option.splits)

text \<open>
  What the vector service promises of the clauses it is sent is what the tool relies on: the
  adapter sends the filter unchanged and returns the service's points unchanged.
\<close>

definition qdrant_honours_must :: "'w qdrant_env \<Rightarrow> bool" where
  "qdrant_honours_must qd \<longleftrightarrow>
     (\<forall>url body d w reply w' flt ms m f v.
        qd_post qd url body d w = (Inr reply, w') \<longrightarrow> map_of body ''filter'' = Some (JObj flt) \<longrightarrow>
        hr_status reply \<in> {200..299} \<longrightarrow> py_get ''result'' (JList []) (hr_body reply) = Inr (JList ms) \<longrightarrow>
        m \<in> set ms \<longrightarrow> (f, v) \<in> set (must_matches flt) \<longrightarrow> field_of ''payload'' f m = Some v)"

lemma vector_backend_honours:
  assumes "qdrant_honours_must (li_qdrant li (timeout_seconds vector_meta))"
  shows "honours_must (vector_backend_of li cfg)"
  unfolding honours_must_def
proof (intro allI impI)
  fix coll vec n flt d w ms w' m f v
  let ?qd = "li_qdrant li (timeout_seconds vector_meta)"
  let ?body = "[(''vector'', JList (map JFloat vec)), (''limit'', JInt n), (''filter'', JObj flt), (''with_payload'', JBool True)]"
  let ?url = "qdrant_url (vector_db_url cfg) coll"
  assume s: "vb_search (vector_backend_of li cfg) coll vec n flt d w = (Inr (JList ms), w')"
    and m: "m \<in> set ms" "(f, v) \<in> set (must_matches flt)"
  from s obtain reply w1 where post: "qd_post ?qd ?url ?body d w = (Inr reply, w1)"
    and ok: "hr_status reply \<in> {200..299}" "py_get ''result'' (JList []) (hr_body reply) = Inr (JList ms)"
    by (auto simp: vector_backend_of_def qdrant_search_def split: prod.splits sum.splits if_splits)
  have "map_of ?body ''filter'' = Some (JObj flt)" by simp
  with assms post ok m show "field_of ''payload'' f m = Some v"
    unfolding qdrant_honours_must_def by blast
qed

lemma production_tools: "map tl_meta (atlas_tools (production_parts li cfg)) = builtin_metas"
  by (rule atlas_metas)

end
