(* ===== verification/Tenant_Data.thy ===== *)
theory Tenant_Data
  imports Builtin_Tools
begin

text \<open>
  Where the properties of the server and those of its tools meet: what a tool confines, the
  server's answers keep confined, through the caches and over any history; and what the object
  store holds changes only by an approved write of the tenant whose prefix it is under.
\<close>

section \<open>Confinement through the server\<close>

lemma s3_get_origin:
  assumes "honours_objects ob view" and "s3_get_run cd ob cfg tenant a d w = (Inr v, w1)"
  shows "\<exists>obj. view w (s3_bucket cfg, tenant_key tenant (sg_key a)) = Some obj
    \<and> map_of v ''content'' = Some (JStr (cd_decode cd (take (nat (sg_max_bytes a)) obj)))"
proof -
  from assms(2) obtain body where get: "ob_get ob (s3_bucket cfg) (tenant_key tenant (sg_key a)) (sg_max_bytes a) d w = (Inr body, w1)"
    and v: "map_of v ''content'' = Some (JStr (cd_decode cd body))"
    by (auto simp: s3_get_run_def shape_def res_simps split: prod.splits)
  from honours_get [OF assms(1) get] v show ?thesis by auto
qed

text \<open>What is known of the value that a run of a tool returned, for a tenant and validated input.\<close>

definition tenant_data :: "'w tool_parts \<Rightarrow> ('w \<Rightarrow> objects) \<Rightarrow> string \<Rightarrow> string \<Rightarrow> args \<Rightarrow> args \<Rightarrow> bool" where
  "tenant_data p view tenant name a v \<longleftrightarrow>
     (name = ''elasticsearch.search'' \<longrightarrow> (\<exists>hs. map_of v ''hits'' = Some (JList hs) \<and>
        (\<forall>j \<in> set hs. field_of ''source'' ''_tenant'' j = Some (JStr tenant)))) \<and>
     (name = ''vector.search'' \<longrightarrow> (\<exists>ms. map_of v ''matches'' = Some (JList ms) \<and>
        (\<forall>j \<in> set ms. field_of ''payload'' ''tenant'' j = Some (JStr tenant)))) \<and>
     (name = ''s3.get_object'' \<longrightarrow> (\<exists>w0 obj.
        view w0 (s3_bucket (tp_settings p), tenant_key tenant (dump_str ''key'' a)) = Some obj \<and>
        map_of v ''content'' = Some (JStr (cd_decode (tp_codec p) (take (nat (dump_int ''max_bytes'' a)) obj)))))"

lemma tool_of_simps [simp]:
  "tl_meta (tool_of p m run) = m" "tl_run (tool_of p m run) = run" "tl_schema (tool_of p m run) = tp_schema p (tm_name m)"
  by (simp_all add: tool_of_def)

lemma searching_names:
  "tm_name elasticsearch_meta = ''elasticsearch.search''" "tm_name vector_meta = ''vector.search''"
  "tm_name s3_get_meta = ''s3.get_object''"
  by (simp_all add: builtin_defs)

lemma ran_tenant_data:
  assumes "t \<in> set (atlas_tools p)" and "ran t tenant a v"
    and es: "honours_term_filters (tb_es (tp_backends p))" and vb: "honours_must (tb_vectors (tp_backends p))"
    and ob: "honours_objects (tp_objects p) view"
  shows "\<exists>ps. v = JObj ps \<and> tenant_data p view tenant (tm_name (tl_meta t)) a ps"
proof -
  obtain d w ps where "fst (tl_run t tenant a d w) = Inr ps" and v: "v = JObj ps"
    using assms(2) by (auto simp: ran_def)
  then obtain w1 where run: "tl_run t tenant a d w = (Inr ps, w1)" by (metis prod.collapse)
  have same: "u \<in> set (atlas_tools p) \<Longrightarrow> tm_name (tl_meta t) = tm_name (tl_meta u) \<Longrightarrow> t = u" for u
    using inj_onD [OF atlas_names_distinct _ assms(1)] by blast
  have mem: "elasticsearch_tool p \<in> set (atlas_tools p)" "vector_tool p \<in> set (atlas_tools p)"
    "s3_get_tool p \<in> set (atlas_tools p)" by (simp_all add: atlas_tools_def)
  have "tenant_data p view tenant (tm_name (tl_meta t)) a ps"
    unfolding tenant_data_def
  proof (intro conjI impI)
    assume "tm_name (tl_meta t) = ''elasticsearch.search''"
    then have "t = elasticsearch_tool p"
      using same [OF mem(1)] by (simp add: elasticsearch_tool_def searching_names)
    then show "\<exists>hs. map_of ps ''hits'' = Some (JList hs) \<and>
        (\<forall>j \<in> set hs. field_of ''source'' ''_tenant'' j = Some (JStr tenant))"
      using run es_confined [OF es, of tenant "elasticsearch_args a" d w ps w1] by (simp add: elasticsearch_tool_def)
  next
    assume "tm_name (tl_meta t) = ''vector.search''"
    then have "t = vector_tool p"
      using same [OF mem(2)] by (simp add: vector_tool_def searching_names)
    then show "\<exists>ms. map_of ps ''matches'' = Some (JList ms) \<and>
        (\<forall>j \<in> set ms. field_of ''payload'' ''tenant'' j = Some (JStr tenant))"
      using run vector_confined [OF vb, of tenant "vector_args a" d w ps w1] by (simp add: vector_tool_def)
  next
    assume "tm_name (tl_meta t) = ''s3.get_object''"
    then have "t = s3_get_tool p"
      using same [OF mem(3)] by (simp add: s3_get_tool_def searching_names)
    then show "\<exists>w0 obj. view w0 (s3_bucket (tp_settings p), tenant_key tenant (dump_str ''key'' a)) = Some obj \<and>
        map_of ps ''content'' = Some (JStr (cd_decode (tp_codec p) (take (nat (dump_int ''max_bytes'' a)) obj)))"
      using run s3_get_origin [OF ob, of "tp_codec p" "tp_settings p" tenant "s3_get_args a" d w ps w1]
      by (simp add: s3_get_tool_def s3_get_args_def) blast
  qed
  with v show ?thesis by blast
qed

lemma dispatch_tenant_data:
  assumes "sound_setup ev cfg builtin" and "lives ev cfg builtin sv w" and "set builtin \<subseteq> set (atlas_tools p)"
    and "dispatch ev ctx envelope sv w = (Inr v, sv', w')"
    and "honours_term_filters (tb_es (tp_backends p))" and "honours_must (tb_vectors (tp_backends p))"
    and "honours_objects (tp_objects p) view"
    and "\<And>s. CHR '':'' \<notin> set (sha256_hex (se_runtime ev) s)"
  shows "\<exists>t vargs run_args ps. get_tool (sv_registry sv) (env_tool envelope) = Inr t
    \<and> validate (se_runtime ev) t (env_arguments envelope) = Inr vargs
    \<and> args_digest (se_runtime ev) run_args = args_digest (se_runtime ev) vargs
    \<and> v = JObj ps \<and> tenant_data p view (env_tenant envelope) (env_tool envelope) run_args ps"
proof -
  have inj: "inj_on (\<lambda>t. tm_name (tl_meta t)) (set builtin)"
    by (rule inj_on_subset [OF atlas_names_distinct assms(3)])
  have plain: "t \<in> set builtin \<Longrightarrow> CHR '':'' \<notin> set (tm_name (tl_meta t))" for t
    by (rule atlas_names_plain [OF subsetD [OF assms(3)]])
  obtain t vargs run_args where t: "t \<in> set builtin" "tm_name (tl_meta t) = env_tool envelope"
    and adm: "admitted ev ctx envelope sv t vargs" and ran: "ran t (env_tenant envelope) run_args v"
    and digest: "args_digest (se_runtime ev) run_args = args_digest (se_runtime ev) vargs"
    using answer_origin [OF assms(1,2,4) inj plain assms(8)] by blast
  from t(1) assms(3) have "t \<in> set (atlas_tools p)" by (rule subsetD [rotated])
  from ran_tenant_data [OF this ran assms(5-7)] obtain ps where "v = JObj ps"
    "tenant_data p view (env_tenant envelope) (env_tool envelope) run_args ps" by (auto simp: t(2))
  moreover have "get_tool (sv_registry sv) (env_tool envelope) = Inr t"
    "validate (se_runtime ev) t (env_arguments envelope) = Inr vargs"
    using adm by (simp_all add: admitted_def)
  ultimately show ?thesis using digest by (intro exI conjI)
qed


text \<open>A server with the object tool alone, a store of one object, and a call that reads it.\<close>

definition stored :: objects where
  "stored = [(''atlas-mcp-data'', ''acme/a'') \<mapsto> ''hello'']"

definition read_only_store :: "demo_world object_store" where
  "read_only_store = \<lparr>ob_get = (\<lambda>b k n d w. case stored (b, k) of
       None \<Rightarrow> (Inl (Py_Exc ''ClientError'' ''''), w) | Some body \<Rightarrow> (Inr (take (nat n) body), w)),
     ob_put = (\<lambda>b k v ct md d w. (Inl (Py_Exc ''ClientError'' ''''), w)), ob_response = (\<lambda>_. None)\<rparr>"

definition down_backends :: "demo_world tool_backends" where
  "down_backends = \<lparr>tb_runtime = plain_runtime, tb_order = (\<lambda>xs. xs),
     tb_es = \<lparr>eb_search = (\<lambda>tenant ix body d w. (Inl Cancelled, w)), eb_status_code = (\<lambda>_. None), eb_status = (\<lambda>_. None)\<rparr>,
     tb_vectors = \<lparr>vb_search = (\<lambda>c v n flt d w. (Inl Cancelled, w))\<rparr>,
     tb_postgres = \<lparr>pb_fetch = (\<lambda>tenant sql ps n d w. (Inl Cancelled, w)), pb_sqlstate = (\<lambda>_. JNull)\<rparr>,
     tb_embed = (\<lambda>texts d w. (Inl Cancelled, w))\<rparr>"

text \<open>Pydantic fills in the default of the field that is not given.\<close>

definition demo_parts :: "demo_world tool_parts" where
  "demo_parts = \<lparr>tp_backends = down_backends, tp_objects = read_only_store, tp_codec = demo_codec,
     tp_http = \<lparr>hc_request = (\<lambda>t m u hs b d w. (Inl Cancelled, w)), hc_timeout_error = (\<lambda>_. False), hc_request_error = (\<lambda>_. False)\<rparr>,
     tp_allowlist = [], tp_bracket_ok = (\<lambda>_. True), tp_settings = default_settings,
     tp_schema = (\<lambda>name a. Valid (a @ [(''max_bytes'', JInt 4)])), tp_json_schema = (\<lambda>name. JObj [])\<rparr>"

definition uncached_settings :: settings where
  "uncached_settings = demo_settings\<lparr>cache_enabled := False\<rparr>"

definition s3_server :: "demo_world server" where
  "s3_server = snd (startup [s3_get_tool demo_parts] (new_server uncached_settings None None ''''))"

definition s3_context :: request_context where
  "s3_context = dev_context ''acme'' ''agent'' [''tool:s3:read'']"

definition s3_call :: tool_call_envelope where
  "s3_call = build_envelope s3_context ''s3.get_object'' [(''key'', JStr ''a'')]"

lemma s3_call_simps:
  "env_tool s3_call = ''s3.get_object''" "env_tenant s3_call = ''acme''" "env_arguments s3_call = [(''key'', JStr ''a'')]"
  by (simp_all add: s3_call_def s3_context_def dev_context_def build_envelope_def)

lemma s3_server_eq:
  "s3_server = (new_server uncached_settings None None '''')
     \<lparr>sv_registry := \<lparr>rg_tools = [(''s3.get_object'', s3_get_tool demo_parts)], rg_discovered = True\<rparr>\<rparr>"
  by (simp add: s3_server_def startup_def discover_def new_server_def new_registry_def register_tool_def Let_def
      s3_get_tool_def searching_names)

lemma s3_run:
  "tl_run (s3_get_tool demo_parts) ''acme'' [(''key'', JStr ''a''), (''max_bytes'', JInt 4)] d w =
     (Inr [(''key'', JStr ''a''), (''size_bytes'', JInt 4), (''content'', JStr ''hell'')], w)"
proof -
  have key: "tenant_key ''acme'' ''a'' = ''acme/a''" by code_simp
  have "s3_bucket default_settings = ''atlas-mcp-data''" by (simp add: default_settings_def)
  with key show ?thesis
    by (simp add: s3_get_tool_def s3_get_run_def s3_get_args_def dump_str_def dump_int_def demo_parts_def
        read_only_store_def stored_def shape_def convert_errors_def demo_codec_def res_simps)
qed

lemma s3_sound: "sound_setup demo_env uncached_settings [s3_get_tool demo_parts]"
proof -
  have "sane_settings uncached_settings"
    by (simp add: sane_settings_def sane_cache_def sane_limits_def uncached_settings_def demo_settings_def default_settings_def)
  moreover have "sound_tool demo_env (s3_get_tool demo_parts)"
    by (auto simp: sound_tool_def s3_get_tool_def s3_get_run_def demo_parts_def read_only_store_def shape_def
        res_simps wf_json.simps split: option.splits sum.splits)
  moreover have "sound_env demo_env uncached_settings mk" for mk
    by (auto simp: sound_env_def sound_sleeps_def sound_pauses_def demo_env_def interruptible_def)
  ultimately show ?thesis by (simp add: sound_setup_def)
qed

lemma s3_lives: "lives demo_env uncached_settings [s3_get_tool demo_parts] s3_server (0, 0)"
  unfolding lives_def s3_server_def by (metis server_run.starts prod.collapse)

lemma s3_admitted:
  "admitted demo_env s3_context s3_call s3_server (s3_get_tool demo_parts) [(''key'', JStr ''a''), (''max_bytes'', JInt 4)]"
proof -
  have "length (json_str ''key'') = 5" "length (json_str ''a'') = 3" by code_simp+
  then have "bound_argument_tree plain_runtime [(''key'', JStr ''a'')] = Inr [(''key'', JStr ''a'')]"
    by (simp add: bound_argument_tree_def check_depth.simps [of 0] check_depth.simps [of "Suc 0"]
        max_argument_bytes_def max_object_keys_def max_nesting_depth_def)
  moreover have "scope_guard s3_context (tm_scopes_required s3_get_meta) = Inr ()" by code_simp
  ultimately show ?thesis
    by (simp add: admitted_def validate_ok s3_call_simps s3_server_eq get_tool_def demo_env_def s3_get_tool_def
        demo_parts_def http_guard_def policy_check_ok_iff new_server_def policy_from_file_def or_default_def
        uncached_settings_def demo_settings_def)
qed

lemma s3_answer:
  "fst (dispatch demo_env s3_context s3_call s3_server (0, 0)) =
     Inr (JObj [(''key'', JStr ''a''), (''size_bytes'', JInt 4), (''content'', JStr ''hell'')])"
proof (rule fresh_dispatch(1) [OF s3_admitted])
  show "fresh_server uncached_settings s3_server"
    by (simp add: fresh_server_def s3_server_eq new_server_def new_atba_def uncached_settings_def demo_settings_def
        default_settings_def)
  show "\<not> cacheable (s3_get_tool demo_parts) \<or> \<not> cache_enabled uncached_settings"
    by (simp add: uncached_settings_def)
  show "tl_run (s3_get_tool demo_parts) (env_tenant s3_call) [(''key'', JStr ''a''), (''max_bytes'', JInt 4)] d (0, 0) =
      (Inr [(''key'', JStr ''a''), (''size_bytes'', JInt 4), (''content'', JStr ''hell'')], (0, 0))" for d
    by (simp add: s3_call_simps s3_run)
qed (simp add: approval_guard_def s3_get_tool_def s3_get_meta_def metadata_def)

lemma s3_facts:
  "set [s3_get_tool demo_parts] \<subseteq> set (atlas_tools demo_parts)"
  "honours_term_filters (tb_es (tp_backends demo_parts))" "honours_must (tb_vectors (tp_backends demo_parts))"
  "honours_objects (tp_objects demo_parts) (\<lambda>_. stored)"
  "CHR '':'' \<notin> set (sha256_hex (se_runtime demo_env) s)"
  "s3_bucket (tp_settings demo_parts) = ''atlas-mcp-data''" "cd_decode (tp_codec demo_parts) x = x"
  by (auto simp: atlas_tools_def honours_term_filters_def honours_must_def demo_parts_def down_backends_def
      honours_objects_def read_only_store_def demo_env_def plain_hex default_settings_def demo_codec_def split: option.splits)


section \<open>Who writes objects\<close>

text \<open>The other services do not write into the object store.\<close>

definition apart_from_objects :: "'w tool_parts \<Rightarrow> ('w \<Rightarrow> objects) \<Rightarrow> bool" where
  "apart_from_objects p view \<longleftrightarrow>
     (\<forall>tenant ix body d w. view (snd (eb_search (tb_es (tp_backends p)) tenant ix body d w)) = view w) \<and>
     (\<forall>c v n flt d w. view (snd (vb_search (tb_vectors (tp_backends p)) c v n flt d w)) = view w) \<and>
     (\<forall>tenant sql ps n d w. view (snd (pb_fetch (tb_postgres (tp_backends p)) tenant sql ps n d w)) = view w) \<and>
     (\<forall>texts d w. view (snd (tb_embed (tp_backends p) texts d w)) = view w) \<and>
     (\<forall>t m u hs b d w. view (snd (hc_request (tp_http p) t m u hs b d w)) = view w)"

lemma apartD:
  assumes "apart_from_objects p view"
  shows "view (snd (elasticsearch_run (tb_es (tp_backends p)) tenant ea d w)) = view w"
    and "view (snd (vector_run (tb_vectors (tp_backends p)) tenant va d w)) = view w"
    and "view (snd (postgres_run (tb_postgres (tp_backends p)) tenant pa d w)) = view w"
    and "view (snd (tb_embed (tp_backends p) texts d w)) = view w"
    and "view (snd (http_run cd bracket_ok (tp_http p) al tenant ha d w)) = view w"
proof -
  show "view (snd (elasticsearch_run (tb_es (tp_backends p)) tenant ea d w)) = view w"
    using assms by (simp add: elasticsearch_run_def apart_from_objects_def case_prod_beta)
  show "view (snd (vector_run (tb_vectors (tp_backends p)) tenant va d w)) = view w"
    using assms by (simp add: vector_run_def apart_from_objects_def case_prod_beta split: sum.split)
  show "view (snd (postgres_run (tb_postgres (tp_backends p)) tenant pa d w)) = view w"
    using assms by (simp add: postgres_run_def apart_from_objects_def case_prod_beta)
  show "view (snd (tb_embed (tp_backends p) texts d w)) = view w"
    using assms by (simp add: apart_from_objects_def)
  have "snd (http_run cd bracket_ok (tp_http p) al tenant ha d w) = w \<or>
      (\<exists>t m u hs b. snd (http_run cd bracket_ok (tp_http p) al tenant ha d w) = snd (hc_request (tp_http p) t m u hs b d w))"
    by (auto simp: http_run_def split: sum.split prod.split) (metis snd_conv)+
  then show "view (snd (http_run cd bracket_ok (tp_http p) al tenant ha d w)) = view w"
    using assms by (auto simp: apart_from_objects_def)
qed

text \<open>
  Rules for a coroutine that leaves \<open>view\<close> alone, one per construct that sequences coroutines.
\<close>

lemma and_then_view:
  assumes "view (snd rw) = V" and "\<And>v w. view w = V \<Longrightarrow> view (snd (f v w)) = V"
  shows "view (snd (and_then rw f)) = V"
  using assms by (cases rw) (auto simp: and_then_def split: sum.split)

lemma case_res_view:
  assumes "\<And>x. view (snd (f x)) = V" and "\<And>v. view (snd (g v)) = V"
  shows "view (snd (case r of Inl x \<Rightarrow> f x | Inr v \<Rightarrow> g v)) = V"
  using assms by (cases r) simp_all

lemma case_pair_view: "view (snd (f (fst rw) (snd rw))) = V \<Longrightarrow> view (snd (case rw of (r, w) \<Rightarrow> f r w)) = V"
  by (simp add: case_prod_beta)

lemma if_view: "(c \<Longrightarrow> view (snd a) = V) \<Longrightarrow> (\<not> c \<Longrightarrow> view (snd b) = V) \<Longrightarrow> view (snd (if c then a else b)) = V"
  by simp

lemmas view_intros = and_then_view case_res_view case_pair_view if_view

lemma gather_view:
  assumes "\<And>k task w. (k, task) \<in> set ts \<Longrightarrow> view (snd (task d w)) = view w"
  shows "view (snd (gather ts d w)) = view w"
  using assms
proof (induction ts arbitrary: w)
  case (Cons kt ts)
  obtain k task where kt: "kt = (k, task)" by fastforce
  have "view (snd (gather ts d (snd (task d w)))) = view (snd (task d w))"
    by (rule Cons.IH, rule Cons.prems [OF list.set_intros(2)], assumption)
  then show ?case using Cons.prems [of k task w] by (simp add: kt case_prod_beta)
qed simp

lemma composed_apart:
  assumes "apart_from_objects p view"
  shows "view (snd (semantic_run (tp_backends p) tenant sa d w)) = view w"
    and "view (snd (hybrid_run (tp_backends p) tenant hy d w)) = view w"
    and "view (snd (customer_context_run (tp_backends p) tenant cu d w)) = view w"
proof -
  note apart = apartD [OF assms]
  show sem: "view (snd (semantic_run (tp_backends p) tenant sa d w)) = view w" for sa w
    unfolding semantic_run_def Let_def by (intro view_intros [where view = view]) (simp_all add: apart)
  show "view (snd (hybrid_run (tp_backends p) tenant hy d w)) = view w"
    unfolding hybrid_run_def by (intro view_intros [where view = view]) (simp_all add: apart)
  have pg: "view (snd (run_postgres (tp_backends p) tenant sql ps n d w)) = view w" for sql ps n w
    unfolding run_postgres_def by (intro view_intros [where view = view]) (simp_all add: apart)
  have "view (snd (profile (tp_backends p) tenant c d w)) = view w"
    "view (snd (recent_orders (tp_backends p) tenant c n d w)) = view w" for c n w
    by (simp_all add: profile_def recent_orders_def pg)
  moreover have "view (snd (open_tickets (tp_backends p) tenant c d w)) = view w"
    "view (snd (relevant_docs (tp_backends p) tenant c d w)) = view w" for c w
    unfolding open_tickets_def relevant_docs_def by (intro view_intros [where view = view], simp_all add: apart sem)+
  ultimately have "view (snd (gather (context_tasks (tp_backends p) tenant cu) d w)) = view w"
    by (intro gather_view) (auto simp: context_tasks_def split: if_splits)
  then show "view (snd (customer_context_run (tp_backends p) tenant cu d w)) = view w"
    by (simp add: customer_context_run_def case_prod_beta)
qed

lemma other_tools_apart:
  assumes "t \<in> set (atlas_tools p)" and "t \<noteq> s3_put_tool p"
    and apart: "apart_from_objects p view" and ob: "honours_objects (tp_objects p) view"
  shows "view (snd (tl_run t tenant a d w)) = view w"
proof -
  have get: "view (snd (s3_get_run cd (tp_objects p) cfg tenant ga d w)) = view w" for cd cfg ga
  proof -
    obtain r w1 where g: "ob_get (tp_objects p) (s3_bucket cfg) (tenant_key tenant (sg_key ga)) (sg_max_bytes ga) d w = (r, w1)"
      by fastforce
    with ob have "view w1 = view w" unfolding honours_objects_def by blast
    with g show ?thesis by (simp add: s3_get_run_def)
  qed
  show ?thesis
    using assms(1,2) by (auto simp: atlas_tools_def ping_tool_def postgres_tool_def elasticsearch_tool_def vector_tool_def
        s3_get_tool_def http_tool_def semantic_tool_def hybrid_tool_def customer_tool_def ping_run_def
        apartD [OF apart] composed_apart [OF apart] get)
qed

text \<open>A write for a tenant reaches objects under the tenant's prefix only.\<close>

definition tenant_prefix :: "'w tool_parts \<Rightarrow> string \<Rightarrow> string \<times> string \<Rightarrow> bool" where
  "tenant_prefix p tenant bk \<longleftrightarrow> (\<exists>key. bk = (s3_bucket (tp_settings p), tenant_key tenant key))"

lemma put_writes_prefix:
  assumes "honours_objects (tp_objects p) view" and "\<not> tenant_prefix p tenant bk"
  shows "view (snd (tl_run (s3_put_tool p) tenant a d w)) bk = view w bk"
proof -
  let ?pa = "s3_put_args a"
  let ?key = "tenant_key tenant (sp_key ?pa)"
  obtain r w1 where put: "ob_put (tp_objects p) (s3_bucket (tp_settings p)) ?key
      (cd_encode (tp_codec p) (sp_content ?pa)) (sp_content_type ?pa) [(''tenant'', tenant)] d w = (r, w1)"
    by fastforce
  have "bk \<noteq> (s3_bucket (tp_settings p), ?key)" using assms(2) by (auto simp: tenant_prefix_def)
  with honours_put [OF assms(1) put] have "view w1 bk = view w bk" by auto
  with put show ?thesis by (simp add: s3_put_tool_def s3_put_run_def Let_def)
qed

definition idle_keeps :: "'w server_env \<Rightarrow> ('w \<Rightarrow> objects) \<Rightarrow> bool" where
  "idle_keeps ev view \<longleftrightarrow>
     (\<forall>d dl w. view (snd (se_sleep ev d dl w)) = view w) \<and>
     (\<forall>d s. view (bk_world (cw_rest (snd (se_pause ev d s)))) = view (bk_world (cw_rest s)))"

lemma dispatch_keeps_view:
  assumes "dispatch ev ctx envelope sv w = (r, sv', w')" and "idle_keeps ev view"
    and "\<And>t a d w. map_of (rg_tools (sv_registry sv)) (env_tool envelope) = Some t \<Longrightarrow>
      view (snd (tl_run t (env_tenant envelope) a d w)) bk = view w bk"
  shows "view w' bk = view w bk"
  using dispatch_keeps [OF assms(1), of "\<lambda>u. view u bk = view w bk"] assms(2,3)
  by (simp add: idle_keeps_def)

lemma s3_put_facts:
  "tm_name s3_put_meta = ''s3.put_object''" "tm_destructive s3_put_meta" "tm_scopes_required s3_put_meta = [''tool:s3:write'']"
  by (simp_all add: s3_put_meta_def metadata_def)


text \<open>A store that takes one object, and a server whose gate holds an approved write of it.\<close>

definition one_object :: "demo_world \<Rightarrow> objects" where
  "one_object w = (if snd w = 0 then Map.empty else [(''atlas-mcp-data'', ''acme/a'') \<mapsto> ''x''])"

definition one_object_store :: "demo_world object_store" where
  "one_object_store = \<lparr>ob_get = (\<lambda>b k n d w. (Inl (Py_Exc ''ClientError'' ''''), w)),
     ob_put = (\<lambda>b k v ct md d w.
       if b = ''atlas-mcp-data'' \<and> k = ''acme/a'' \<and> v = ''x'' then (Inr (), fst w, Suc (snd w))
       else (Inl (Py_Exc ''ClientError'' ''''), w)),
     ob_response = (\<lambda>_. None)\<rparr>"

definition put_parts :: "demo_world tool_parts" where
  "put_parts = demo_parts\<lparr>tp_objects := one_object_store,
     tp_schema := (\<lambda>name a. Valid (a @ [(''content'', JStr ''x''), (''content_type'', JStr ''text/plain'')]))\<rparr>"

definition put_server :: "demo_world server" where
  "put_server = fold (\<lambda>e. decide e demo_env) gate_demo
     (snd (startup [s3_put_tool put_parts] (new_server demo_settings None None '''')))"

lemma put_server_eq:
  "put_server = (new_server demo_settings None None '''')
     \<lparr>sv_registry := \<lparr>rg_tools = [(''s3.put_object'', s3_put_tool put_parts)], rg_discovered = True\<rparr>,
      sv_approvals := fold (gate_step plain_runtime) gate_demo []\<rparr>"
  by (simp add: put_server_def startup_def discover_def new_server_def new_registry_def register_tool_def Let_def
      s3_put_tool_def s3_put_facts decide_def gate_demo_def demo_env_def)

lemma put_server_lives: "lives demo_env demo_settings [s3_put_tool put_parts] put_server (3610, 0)"
proof -
  obtain r sv0 where s: "startup [s3_put_tool put_parts] (new_server demo_settings None None '''') = (r, sv0)"
    by fastforce
  have "server_run demo_env mk (sv0, (3610, 0)) (put_server, (3610, 0))" for mk
    unfolding put_server_def s gate_demo_def by (simp add: server_run.intros)
  with s show ?thesis unfolding lives_def by blast
qed

lemma put_sound: "sound_setup demo_env demo_settings [s3_put_tool put_parts]"
proof -
  have "sane_settings demo_settings"
    by (simp add: sane_settings_def sane_cache_def sane_limits_def demo_settings_def default_settings_def)
  moreover have "sound_tool demo_env (s3_put_tool put_parts)"
    by (auto simp: sound_tool_def s3_put_tool_def s3_put_run_def put_parts_def demo_parts_def one_object_store_def
        shape_def res_simps wf_json.simps Let_def demo_env_def split: if_splits sum.splits)
  moreover have "sound_env demo_env demo_settings mk" for mk
    by (auto simp: sound_env_def sound_sleeps_def sound_pauses_def demo_env_def interruptible_def)
  ultimately show ?thesis by (simp add: sound_setup_def)
qed

lemma put_run:
  "tl_run (s3_put_tool put_parts) ''acme'' [(''key'', JStr ''a''), (''content'', JStr ''x''), (''content_type'', JStr ''text/plain'')] d w =
     (Inr [(''key'', JStr ''a''), (''bytes_written'', JInt 1)], fst w, Suc (snd w))"
proof -
  have key: "tenant_key ''acme'' ''a'' = ''acme/a''" by code_simp
  have "s3_bucket default_settings = ''atlas-mcp-data''" by (simp add: default_settings_def)
  with key show ?thesis
    by (simp add: s3_put_tool_def s3_put_run_def s3_put_args_def dump_str_def put_parts_def demo_parts_def
        one_object_store_def shape_def convert_errors_def demo_codec_def res_simps Let_def)
qed

lemma put_call_simps:
  "env_tool put_call = ''s3.put_object''" "env_tenant put_call = ''acme''" "env_arguments put_call = [(''key'', JStr ''a'')]"
  by (simp_all add: put_call_def demo_context_def dev_context_def build_envelope_def)

lemma put_server_admits:
  "admitted demo_env demo_context put_call put_server (s3_put_tool put_parts)
     [(''key'', JStr ''a''), (''content'', JStr ''x''), (''content_type'', JStr ''text/plain'')]"
proof -
  have "bound_argument_tree plain_runtime [(''key'', JStr ''a'')] = Inr [(''key'', JStr ''a'')]"
    using put_admitted by (simp add: admitted_def validate_ok put_call_simps demo_env_def)
  moreover have "scope_guard demo_context (tm_scopes_required s3_put_meta) = Inr ()" by code_simp
  ultimately show ?thesis
    by (simp add: admitted_def validate_ok put_call_simps put_server_eq get_tool_def demo_env_def s3_put_tool_def
        put_parts_def http_guard_def policy_check_ok_iff new_server_def policy_from_file_def or_default_def
        demo_settings_def)
qed

lemma put_server_writes: "snd (snd (dispatch demo_env demo_context put_call put_server (3610, 0))) = (3610, 1)"
proof (rule fresh_dispatch(2) [OF put_server_admits])
  show "fresh_server demo_settings put_server"
    by (simp add: fresh_server_def put_server_eq new_server_def new_atba_def demo_settings_def default_settings_def)
  show "\<not> cacheable (s3_put_tool put_parts) \<or> \<not> cache_enabled demo_settings"
    by (simp add: cacheable_def s3_put_tool_def s3_put_meta_def)
  show "tl_run (s3_put_tool put_parts) (env_tenant put_call)
      [(''key'', JStr ''a''), (''content'', JStr ''x''), (''content_type'', JStr ''text/plain'')] d (3610, 0) =
      (Inr [(''key'', JStr ''a''), (''bytes_written'', JInt 1)], (3610, 1))" for d
    by (simp add: put_call_simps put_run)
  have req: "approval_request_of (s3_put_tool put_parts) put_call = put_request"
    by (simp add: approval_request_of_def put_request_def put_call_def demo_context_def dev_context_def
        build_envelope_def s3_put_tool_def s3_put_facts)
  have "fst (enforce plain_runtime 3610 ''now'' put_request (fold (gate_step plain_runtime) gate_demo [])) = Inr ()"
    using gate_demo_view
    by (elim conjE exE, rule_tac enforce_cases [of plain_runtime _ 3610 put_request "''now''"]) auto
  then show "fst (approval_guard demo_env (s3_put_tool put_parts) put_call
      (snd (rate_guard demo_env (s3_put_tool put_parts) put_call put_server (3610, 0))) (3610, 0)) = Inr ()"
    using req rate_guard_core(2) [of demo_env "s3_put_tool put_parts" put_call put_server "(3610, 0)"]
    by (simp add: approval_guard_def demo_env_def case_prod_beta put_server_eq)
qed


end
