(* ===== verification/Network.thy ===== *)
theory Network
  imports Tenant_Data Transport
begin

text \<open>
  The whole way of a request: the middlewares of the HTTP transport, the dispatch pipeline and the
  built-in tools over their backends. What the tools confine to a tenant stays confined to the
  tenant of the token a request carries, and a server that has served a request still lives.
\<close>

section \<open>Serving keeps a server alive\<close>

text \<open>Checking a token may wait for the signing keys: time passes, and does not go back.\<close>

definition timely :: "'w server_env \<Rightarrow> 'w auth_env \<Rightarrow> bool" where
  "timely ev au \<longleftrightarrow> (\<forall>url aud iss token w. se_clock ev w \<le> se_clock ev (snd (au_decode au url aud iss token w)))"

lemma timely_check:
  assumes "timely ev au"
  shows "se_clock ev w \<le> se_clock ev (snd (validate_token au v token w))"
    and "after_check au v rq w w1 \<Longrightarrow> se_clock ev w \<le> se_clock ev w1"
proof -
  have val: "se_clock ev w \<le> se_clock ev (snd (validate_token au v token w))" for token
    using assms by (auto simp: timely_def validate_token_def Let_def split: prod.split jwt_result.split) (metis snd_conv)+
  then show "se_clock ev w \<le> se_clock ev (snd (validate_token au v token w))" .
  show "after_check au v rq w w1 \<Longrightarrow> se_clock ev w \<le> se_clock ev w1"
    using val by (auto simp: after_check_def split: option.splits)
qed

section \<open>What a request is answered with\<close>

text \<open>The call that a request carries, if it is one that the routes pass to the session manager.\<close>

definition posted_call :: "'w http_parts \<Rightarrow> request \<Rightarrow> 'w \<Rightarrow> (string \<times> args) option" where
  "posted_call hp rq w =
     (if rq_path rq = ''/mcp'' \<or> startswith (rq_path rq) ''/mcp/'' then mg_call (hp_manager hp) rq w else None)"

lemma routes_posted:
  "case posted_call hp rq w of
     None \<Rightarrow> snd (snd (routes ev hp rq cv (sv, w))) = (sv, w)
   | Some (name, arguments) \<Rightarrow>
       routes ev hp rq cv (sv, w) =
         (bind_res (fst (call_tool ev cv name arguments sv w)) (\<lambda>v. mg_answer (hp_manager hp) rq (Inr v)), cv,
          snd (call_tool ev cv name arguments sv w))"
  by (auto simp: posted_call_def routes_def handle_request_def startswith_def Let_def case_prod_beta split: option.splits)

lemma called_structured:
  "fst (call_tool ev cv name arguments sv w) = Inr (Structured v) \<Longrightarrow>
   fst (dispatch ev (current_context cv) (build_envelope (current_context cv) name arguments) sv w) = Inr v"
  by (auto simp: call_tool_def Let_def split: prod.splits sum.splits exc.splits)

lemma lives_routes:
  assumes "lives ev cfg builtin sv w" and "snd (snd (routes ev hp rq (Some ctx) (sv, w))) = (sv', w')"
  shows "lives ev cfg builtin sv' w'"
  using routes_state [of ev hp rq "Some ctx" sv w]
proof (elim disjE exE conjE)
  assume "snd (snd (routes ev hp rq (Some ctx) (sv, w))) = (sv, w)"
  with assms show ?thesis by simp
next
  fix name arguments assume "snd (snd (routes ev hp rq (Some ctx) (sv, w))) = snd (call_tool ev (Some ctx) name arguments sv w)"
  then have "snd (dispatch ev ctx (build_envelope ctx name arguments) sv w) = (sv', w')"
    using assms(2) by (simp add: call_tool_state)
  then show ?thesis by (metis assms(1) lives_dispatched prod.collapse)
qed

text \<open>
  A request is answered within a tenant: when it carries no call, the server is left as it was; when
  it carries one, what it is answered with is the rendering of what the call returns for the
  identity, and what is known of the value for that tenant holds.
\<close>

definition answered_within ::
    "'w server_env \<Rightarrow> 'w http_parts \<Rightarrow> 'w tool_parts \<Rightarrow> ('w \<Rightarrow> objects) \<Rightarrow> principal \<Rightarrow> string \<Rightarrow> request \<Rightarrow> 'w server \<Rightarrow> 'w
       \<Rightarrow> response outcome \<Rightarrow> 'w server \<Rightarrow> bool" where
  "answered_within ev hp p view pr tenant rq sv w r sv' \<longleftrightarrow>
     (case posted_call hp rq w of
        None \<Rightarrow> sv' = sv
      | Some (name, arguments) \<Rightarrow>
          (let called = fst (call_tool ev (Some (principal_context pr tenant)) name arguments sv w)
           in r = bind_res called (\<lambda>v. mg_answer (hp_manager hp) rq (Inr v)) \<and>
              (\<forall>v. called = Inr (Structured v) \<longrightarrow>
                 (\<exists>t vargs run_args ps. get_tool (sv_registry sv) name = Inr t
                    \<and> validate (se_runtime ev) t arguments = Inr vargs
                    \<and> args_digest (se_runtime ev) run_args = args_digest (se_runtime ev) vargs
                    \<and> v = JObj ps \<and> tenant_data p view tenant name run_args ps))))"


text \<open>A request for the one stored object, under a token of its tenant.\<close>

definition s3_claims :: jwt_claims where
  "s3_claims = demo_claims\<lparr>jc_scope := Some (Scope_Text ''tool:s3:read'')\<rparr>"

definition s3_net :: "demo_world http_parts" where
  "s3_net = net_parts\<lparr>
     hp_auth := \<lparr>au_decode = (\<lambda>_ _ _ token w. (if token = ''tok'' then Jwt_Claims s3_claims else Jwt_Invalid ''bad'', w)),
       au_time = (\<lambda>w. 0)\<rparr>,
     hp_manager := \<lparr>mg_call = (\<lambda>rq w. Some (''s3.get_object'', [(''key'', JStr ''a'')])),
       mg_answer = (\<lambda>rq r. case r of Inr (Structured v) \<Rightarrow> Inr (ok_json v) | _ \<Rightarrow> Inr not_found),
       mg_other = (\<lambda>rq specs w. Inr (ok_json JNull))\<rparr>\<rparr>"

lemma s3_identity:
  "principal_of s3_claims = \<lparr>pr_subject = ''agent'', pr_delegator = None, pr_tenant = ''acme'',
     pr_scopes = [''tool:s3:read''], pr_token_id = ''1'', pr_issued_at = 0, pr_expires_at = 900\<rparr>"
  by code_simp

lemma s3_caller: "principal_context (principal_of s3_claims) ''acme'' = s3_context"
  by (simp add: principal_context_def s3_context_def dev_context_def s3_identity)

lemma s3_token:
  "validate_token (hp_auth s3_net) (hp_validator s3_net) ''tok'' w = (Inr (principal_of s3_claims), w)"
  by (simp add: validate_token_def s3_net_def net_parts_def no_dev_token)

lemma s3_posted:
  "posted_call s3_net (demo_request\<lparr>rq_principal := pr, rq_tenant := tn\<rparr>) w = Some (''s3.get_object'', [(''key'', JStr ''a'')])"
  by (simp add: posted_call_def s3_net_def demo_request_def)

abbreviation s3_object :: json where
  "s3_object \<equiv> JObj [(''key'', JStr ''a''), (''size_bytes'', JInt 4), (''content'', JStr ''hell'')]"

lemma s3_called:
  "fst (call_tool demo_env (Some s3_context) ''s3.get_object'' [(''key'', JStr ''a'')] s3_server (0, 0)) =
     Inr (Structured s3_object)"
  using s3_answer by (simp add: call_tool_def current_context_def s3_call_def case_prod_beta)

lemma s3_request:
  "rq_path demo_request \<notin> set public_paths" "bearer_token demo_request = Some ''tok''"
  "header_get demo_request (tenant_header uncached_settings) = Some ''acme''"
  by code_simp+

lemma s3_served:
  "fst (serve demo_env s3_net uncached_settings demo_request None (s3_server, (0, 0))) = Inr (ok_json s3_object)"
proof -
  let ?pr = "principal_of s3_claims"
  have "''acme'' = or_str (header_get demo_request (tenant_header uncached_settings)) (pr_tenant ?pr)" "may_act_for ?pr ''acme''"
    by (simp_all add: s3_request or_str_def may_act_for_def s3_identity)
  from serve_passes [OF s3_request(1,2) s3_token this] show ?thesis
    by (simp add: s3_caller routes_def handle_request_def s3_net_def demo_request_def s3_called case_prod_beta)
qed


end
