(* ===== verification/Single_Flight.thy ===== *)
theory Single_Flight
  imports Cache_Correct
begin

text \<open>
  The stampede protection of \<^verbatim>\<open>get_or_compute\<close> under interleaving: any number of callers of one
  key, each between two awaits of its run, over the in-memory tier. The steps are the atomic
  steps \<open>get_or_compute\<close> is composed of.
\<close>

section \<open>Callers\<close>

text \<open>
  A caller computes under the lock since a time; or waits with some looks left, since when it
  came and its last look; or computes without the lock after its last look, since when it came.
\<close>

datatype flight = Leading rat | Waiting nat rat rat | Alone rat

record flights =
  fl_cache :: "mem_l2 cache_manager"
  fl_tasks :: "nat \<Rightarrow> flight option"
  fl_now :: rat

definition lock_of :: "string \<Rightarrow> mem_l2 cache_manager \<Rightarrow> rat option" where
  "lock_of key cm = map_of (m2_locks (cm_l2 cm)) (lock_key_of key)"

text \<open>The flight is prompt when no lead outlasts the lock it holds.\<close>

definition prompt :: "flights \<Rightarrow> rat \<Rightarrow> bool" where
  "prompt s t \<longleftrightarrow> (\<forall>i t0. fl_tasks s i = Some (Leading t0) \<longrightarrow> t < t0 + 5)"

text \<open>What a look at the cache makes of a caller that has come at \<open>t0\<close> and may look \<open>n\<close> times more.\<close>

definition after_look :: "nat \<Rightarrow> rat \<Rightarrow> rat \<Rightarrow> json option outcome \<Rightarrow> flight option" where
  "after_look n t0 t r =
     (case r of Inr None \<Rightarrow> Some (if n = 0 then Alone t0 else Waiting n t0 t) | _ \<Rightarrow> None)"

definition after_enter :: "rat \<Rightarrow> entry_outcome \<Rightarrow> flight option" where
  "after_enter t r =
     (case r of Lead \<Rightarrow> Some (Leading t) | Wait \<Rightarrow> Some (Waiting stampede_max_waits t t) | _ \<Rightarrow> None)"

inductive flight_step ::
    "(flights \<Rightarrow> rat \<Rightarrow> bool) \<Rightarrow> runtime \<Rightarrow> settings \<Rightarrow> string \<Rightarrow> int option \<Rightarrow> flights \<Rightarrow> flights \<Rightarrow> bool"
  for ok rt cfg key ttl where
  enter: "fl_tasks s i = None \<Longrightarrow> fl_now s \<le> t \<Longrightarrow> ok s t \<Longrightarrow>
    enter_flight in_memory_l2 rt cfg t key (fl_cache s) = (r, cm) \<Longrightarrow>
    flight_step ok rt cfg key ttl s
      \<lparr>fl_cache = cm, fl_tasks = (fl_tasks s)(i := after_enter t r), fl_now = t\<rparr>"
| look: "fl_tasks s i = Some (Waiting (Suc n) t0 t1) \<Longrightarrow> fl_now s \<le> t \<Longrightarrow> ok s t \<Longrightarrow>
    t1 + of_int stampede_wait_ms / 1000 \<le> t \<Longrightarrow>
    cache_get in_memory_l2 rt cfg t key (fl_cache s) = (r, cm) \<Longrightarrow>
    flight_step ok rt cfg key ttl s
      \<lparr>fl_cache = cm, fl_tasks = (fl_tasks s)(i := after_look n t0 t r), fl_now = t\<rparr>"
| finish_lead: "fl_tasks s i = Some (Leading t0) \<Longrightarrow> fl_now s \<le> t \<Longrightarrow> ok s t \<Longrightarrow>
    store_computed in_memory_l2 rt cfg t key ttl r (fl_cache s) = (r', cm) \<Longrightarrow>
    flight_step ok rt cfg key ttl s
      \<lparr>fl_cache = release_flight in_memory_l2 key cm, fl_tasks = (fl_tasks s)(i := None), fl_now = t\<rparr>"
| finish_alone: "fl_tasks s i = Some (Alone t0) \<Longrightarrow> fl_now s \<le> t \<Longrightarrow> ok s t \<Longrightarrow>
    store_computed in_memory_l2 rt cfg t key ttl r (fl_cache s) = (r', cm) \<Longrightarrow>
    flight_step ok rt cfg key ttl s
      \<lparr>fl_cache = cm, fl_tasks = (fl_tasks s)(i := None), fl_now = t\<rparr>"
| others: "fl_now s \<le> t \<Longrightarrow> ok s t \<Longrightarrow> lock_of key cm = lock_of key (fl_cache s) \<Longrightarrow>
    flight_step ok rt cfg key ttl s \<lparr>fl_cache = cm, fl_tasks = fl_tasks s, fl_now = t\<rparr>"

inductive flight_reach ::
    "(flights \<Rightarrow> rat \<Rightarrow> bool) \<Rightarrow> runtime \<Rightarrow> settings \<Rightarrow> string \<Rightarrow> int option \<Rightarrow> flights \<Rightarrow> bool"
  for ok rt cfg key ttl where
  init: "flight_reach ok rt cfg key ttl \<lparr>fl_cache = cm, fl_tasks = (\<lambda>_. None), fl_now = t\<rparr>"
| step: "flight_reach ok rt cfg key ttl s \<Longrightarrow> flight_step ok rt cfg key ttl s s' \<Longrightarrow>
    flight_reach ok rt cfg key ttl s'"

section \<open>The lock under each step\<close>

lemma lock_after_get [simp]:
  "m2_locks (cm_l2 (snd (cache_get in_memory_l2 rt cfg t k cm))) = m2_locks (cm_l2 cm)"
  by (simp add: cache_get_def mem_l2_get_def split: prod.split option.split sum.split)

lemma lock_after_set [simp]:
  "m2_locks (cm_l2 (snd (cache_set in_memory_l2 rt cfg t k v ttl cm))) = m2_locks (cm_l2 cm)"
  by (simp add: cache_set_def Let_def mem_l2_set_def split: prod.split sum.split)

lemma lock_after_store [simp]:
  "lock_of key (snd (store_computed in_memory_l2 rt cfg t k ttl r cm)) = lock_of key cm"
proof (cases r)
  case (Inr v)
  obtain o' cm' where "cache_set in_memory_l2 rt cfg t k v ttl cm = (o', cm')"
    by (cases "cache_set in_memory_l2 rt cfg t k v ttl cm")
  with Inr lock_after_set [of rt cfg t k v ttl cm] show ?thesis
    by (simp add: store_computed_def lock_of_def split: sum.split)
qed (simp add: store_computed_def)

lemma enter_flight_lock:
  assumes "enter_flight in_memory_l2 rt cfg t key cm = (r, cm')"
  shows "if r = Lead
    then (\<forall>e. lock_of key cm = Some e \<longrightarrow> e \<le> t) \<and> lock_of key cm' = Some (t + 5)
    else lock_of key cm' = lock_of key cm"
proof -
  obtain g cm1 where g: "cache_get in_memory_l2 rt cfg t key cm = (g, cm1)"
    by (cases "cache_get in_memory_l2 rt cfg t key cm")
  have l: "m2_locks (cm_l2 cm1) = m2_locks (cm_l2 cm)"
    using lock_after_get [of rt cfg t key cm] g by simp
  show ?thesis
    using assms g l
    by (auto simp: enter_flight_def lock_of_def mem_l2_acquire_lock_def stampede_lock_ttl_ms_def
        split: sum.splits option.splits if_splits)
qed

section \<open>At most one lead\<close>

definition flight_inv :: "string \<Rightarrow> flights \<Rightarrow> bool" where
  "flight_inv key s \<longleftrightarrow>
     (\<forall>i t0. fl_tasks s i = Some (Leading t0) \<longrightarrow> t0 \<le> fl_now s \<and> lock_of key (fl_cache s) = Some (t0 + 5)) \<and>
     (\<forall>i j t0 t1. fl_tasks s i = Some (Leading t0) \<longrightarrow> fl_tasks s j = Some (Leading t1) \<longrightarrow> i = j) \<and>
     (\<forall>i n t0 t1. fl_tasks s i = Some (Waiting n t0 t1) \<longrightarrow>
        t1 \<le> fl_now s \<and> n \<le> 40 \<and> t0 + (40 - of_nat n) / 40 \<le> t1) \<and>
     (\<forall>i t0. fl_tasks s i = Some (Alone t0) \<longrightarrow> t0 + 1 \<le> fl_now s)"

lemma flight_inv_tasks:
  assumes "flight_inv key s" and "fl_now s \<le> t"
    and "lock_of key cm = lock_of key (fl_cache s) \<or> (\<forall>j t0. j \<noteq> i \<longrightarrow> fl_tasks s j \<noteq> Some (Leading t0))"
    and "case f of None \<Rightarrow> True
      | Some (Leading t0) \<Rightarrow> t0 \<le> t \<and> lock_of key cm = Some (t0 + 5) \<and>
          (\<forall>j t1. j \<noteq> i \<longrightarrow> fl_tasks s j \<noteq> Some (Leading t1))
      | Some (Waiting n t0 t1) \<Rightarrow> t1 \<le> t \<and> n \<le> 40 \<and> t0 + (40 - of_nat n) / 40 \<le> t1
      | Some (Alone t0) \<Rightarrow> t0 + 1 \<le> t"
  shows "flight_inv key \<lparr>fl_cache = cm, fl_tasks = (fl_tasks s)(i := f), fl_now = t\<rparr>"
proof -
  have lead: "t0 \<le> t \<and> lock_of key cm = Some (t0 + 5)"
    if "((fl_tasks s)(i := f)) j = Some (Leading t0)" for j t0
    using that assms unfolding flight_inv_def by (cases "j = i") (auto intro: order_trans [OF _ assms(2)])
  have one: "j = k"
    if "((fl_tasks s)(i := f)) j = Some (Leading t0)" "((fl_tasks s)(i := f)) k = Some (Leading t1)" for j k t0 t1
    using that assms(1,4) unfolding flight_inv_def by (cases "j = i"; cases "k = i") auto
  have wait: "t1 \<le> t \<and> n \<le> 40 \<and> t0 + (40 - of_nat n) / 40 \<le> t1"
    if "((fl_tasks s)(i := f)) j = Some (Waiting n t0 t1)" for j n t0 t1
    using that assms(1,2,4) unfolding flight_inv_def by (cases "j = i") (auto intro: order_trans [OF _ assms(2)])
  have alone: "t0 + 1 \<le> t" if "((fl_tasks s)(i := f)) j = Some (Alone t0)" for j t0
  proof (cases "j = i")
    case True
    with that assms(4) show ?thesis by simp
  next
    case False
    with that assms(1) have "t0 + 1 \<le> fl_now s" unfolding flight_inv_def by auto
    with assms(2) show ?thesis by linarith
  qed
  show ?thesis
    unfolding flight_inv_def flights.simps
  proof (intro conjI)
    show "\<forall>j t0. ((fl_tasks s)(i := f)) j = Some (Leading t0) \<longrightarrow> t0 \<le> t \<and> lock_of key cm = Some (t0 + 5)"
      using lead by blast
    show "\<forall>j k t0 t1. ((fl_tasks s)(i := f)) j = Some (Leading t0) \<longrightarrow>
        ((fl_tasks s)(i := f)) k = Some (Leading t1) \<longrightarrow> j = k"
      using one by blast
    show "\<forall>j n t0 t1. ((fl_tasks s)(i := f)) j = Some (Waiting n t0 t1) \<longrightarrow>
        t1 \<le> t \<and> n \<le> 40 \<and> t0 + (40 - of_nat n) / 40 \<le> t1"
      using wait by blast
    show "\<forall>j t0. ((fl_tasks s)(i := f)) j = Some (Alone t0) \<longrightarrow> t0 + 1 \<le> t"
      using alone by blast
  qed
qed

lemma flight_step_inv:
  assumes "flight_step ok rt cfg key ttl s s'" and "\<And>s t. ok s t \<Longrightarrow> prompt s t" and "flight_inv key s"
  shows "flight_inv key s'"
  using assms(1)
proof cases
  case (enter i t r cm)
  note lk = enter_flight_lock [OF enter(5)]
  show ?thesis
  proof (cases "r = Lead")
    case True
    have "fl_tasks s j \<noteq> Some (Leading t1)" for j t1
    proof
      assume a: "fl_tasks s j = Some (Leading t1)"
      then have "lock_of key (fl_cache s) = Some (t1 + 5)" using assms(3) by (simp add: flight_inv_def)
      with True lk have "t1 + 5 \<le> t" by simp
      moreover have "t < t1 + 5" using assms(2) [OF enter(4)] a by (simp add: prompt_def)
      ultimately show False by simp
    qed
    with True lk show ?thesis
      unfolding enter(1) by (intro flight_inv_tasks [OF assms(3) enter(3)]) (auto simp: after_enter_def)
  next
    case False
    with lk have "lock_of key cm = lock_of key (fl_cache s)" by simp
    then show ?thesis
      unfolding enter(1) using False
      by (intro flight_inv_tasks [OF assms(3) enter(3)])
         (auto simp: after_enter_def stampede_max_waits_def split: entry_outcome.split)
  qed
next
  case (look i n t0 t1 t r cm)
  have "lock_of key cm = lock_of key (fl_cache s)"
    using lock_after_get [of rt cfg t key "fl_cache s"] look(6) by (simp add: lock_of_def)
  moreover from assms(3) look(2)
  have w: "t1 \<le> fl_now s" "Suc n \<le> 40" "t0 + (40 - of_nat (Suc n)) / 40 \<le> t1"
    unfolding flight_inv_def by blast+
  have "t0 + (40 - of_nat n) / 40 \<le> t"
    using w(3) look(5) by (simp add: stampede_wait_ms_def field_simps)
  ultimately show ?thesis
    unfolding look(1) using w(2)
    by (intro flight_inv_tasks [OF assms(3) look(3)])
       (auto simp: after_look_def split: sum.split option.split)
next
  case (finish_lead i t0 t r r' cm)
  have "fl_tasks s j \<noteq> Some (Leading t1)" if "j \<noteq> i" for j t1
    using assms(3) finish_lead(2) that unfolding flight_inv_def by blast
  then show ?thesis
    unfolding finish_lead(1) by (intro flight_inv_tasks [OF assms(3) finish_lead(3)]) auto
next
  case (finish_alone i t0 t r r' cm)
  have "lock_of key cm = lock_of key (fl_cache s)"
    using lock_after_store [of key rt cfg t key ttl r "fl_cache s"] finish_alone(5) by simp
  then show ?thesis
    unfolding finish_alone(1) by (intro flight_inv_tasks [OF assms(3) finish_alone(3)]) auto
next
  case (others t cm)
  show ?thesis
    using assms(3) others(1,4) unfolding flight_inv_def
    by (auto intro: order_trans [OF _ others(2)])
qed

lemma flight_reach_inv:
  assumes "flight_reach ok rt cfg key ttl s" and "\<And>s t. ok s t \<Longrightarrow> prompt s t"
  shows "flight_inv key s"
  using assms(1)
proof (induction rule: flight_reach.induct)
  case (init cm t)
  then show ?case by (simp add: flight_inv_def)
next
  case (step s s')
  then show ?case using flight_step_inv assms(2) by blast
qed

section \<open>Properties\<close>

text \<open>C17: Single flight. However the callers of one key interleave with each other and with the
  rest of the program, as long as no computation under the lock outlasts the lock, at most one
  caller at a time computes under it; and a caller computes without it only after it has waited
  for a whole second.\<close>

theorem single_flight:
  assumes "flight_reach prompt rt cfg key ttl s"
  shows "(\<forall>i j t0 t1. fl_tasks s i = Some (Leading t0) \<and> fl_tasks s j = Some (Leading t1) \<longrightarrow> i = j) \<and>
    (\<forall>i t0. fl_tasks s i = Some (Alone t0) \<longrightarrow> t0 + 1 \<le> fl_now s)"
  using flight_reach_inv [OF assms] unfolding flight_inv_def by blast

definition flight0 :: flights where
  "flight0 = \<lparr>fl_cache = new_cache default_settings new_mem_l2, fl_tasks = (\<lambda>_. None), fl_now = 0\<rparr>"

definition flight1 :: flights where
  "flight1 = \<lparr>fl_cache = snd (enter_flight in_memory_l2 plain_runtime default_settings 0 ''k'' (fl_cache flight0)),
     fl_tasks = (\<lambda>_. None)(7 := Some (Leading 0)), fl_now = 0\<rparr>"

lemma enter_empty:
  "fst (enter_flight in_memory_l2 plain_runtime default_settings 0 ''k'' (fl_cache flight0)) = Lead"
  by (simp add: flight0_def enter_flight_def cache_get_def new_cache_def new_l1_def l1_get_def
      mem_l2_get_def ttl_dict_get_def new_mem_l2_def mem_l2_acquire_lock_def)

lemma reach_flight1: "flight_reach prompt plain_runtime default_settings ''k'' None flight1"
proof -
  let ?r = "enter_flight in_memory_l2 plain_runtime default_settings 0 ''k'' (fl_cache flight0)"
  have "flight_reach prompt plain_runtime default_settings ''k'' None flight0"
    unfolding flight0_def by (rule flight_reach.init)
  moreover have "flight_step prompt plain_runtime default_settings ''k'' None flight0
      \<lparr>fl_cache = snd ?r, fl_tasks = (fl_tasks flight0)(7 := after_enter 0 (fst ?r)), fl_now = 0\<rparr>"
    by (rule flight_step.enter) (simp_all add: flight0_def prompt_def)
  ultimately have "flight_reach prompt plain_runtime default_settings ''k'' None
      \<lparr>fl_cache = snd ?r, fl_tasks = (fl_tasks flight0)(7 := after_enter 0 (fst ?r)), fl_now = 0\<rparr>"
    by (rule flight_reach.step)
  then show ?thesis by (simp add: flight1_def enter_empty after_enter_def) (simp add: flight0_def)
qed

theorem single_flight_witness:
  "fl_tasks flight1 7 = Some (Leading 0) \<and>
   (\<nexists>j. j \<noteq> 7 \<and> (\<exists>t1. fl_tasks flight1 j = Some (Leading t1)))"
proof -
  have lead: "fl_tasks flight1 7 = Some (Leading 0)" by (simp add: flight1_def)
  with single_flight [OF reach_flight1] show ?thesis by blast
qed

end
