(* ===== verification/Redis_L2.thy ===== *)
theory Redis_L2
  imports Cache_Correct
begin

text \<open>
  The second cache tier on a Redis server (\<^verbatim>\<open>RedisL2\<close> of \<^verbatim>\<open>cache/manager.py\<close>). The server is a
  parameter: its commands, with their documented effect on what a key holds and until when. Values
  and locks share the server's one keyspace, which the in-memory tier keeps apart. The connection
  is open; a refused command is not modelled.
\<close>

section \<open>The server\<close>

datatype set_expiry = In_Seconds int | In_Millis int

fun expiry_seconds :: "set_expiry \<Rightarrow> rat" where
  "expiry_seconds (In_Seconds s) = of_int s"
| "expiry_seconds (In_Millis ms) = of_int ms / 1000"

record 'r redis_server =
  rk_get :: "rat \<Rightarrow> string \<Rightarrow> 'r \<Rightarrow> string option"
  rk_set :: "rat \<Rightarrow> string \<Rightarrow> string \<Rightarrow> set_expiry \<Rightarrow> bool \<Rightarrow> 'r \<Rightarrow> bool \<times> 'r"
  rk_delete :: "string \<Rightarrow> 'r \<Rightarrow> 'r"
  rk_scan :: "rat \<Rightarrow> string \<Rightarrow> 'r \<Rightarrow> string list"

text \<open>A text that a glob pattern matches only literally.\<close>

definition plain_text :: "string \<Rightarrow> bool" where
  "plain_text p = list_all (\<lambda>c. c \<notin> {CHR ''*'', CHR ''?'', CHR ''['', CHR '']'', CHR 0x5C}) p"

text \<open>
  The documented commands: \<^verbatim>\<open>SET\<close> with a positive expiry, unless \<^verbatim>\<open>NX\<close> finds the key, \<^verbatim>\<open>GET\<close>,
  \<^verbatim>\<open>DEL\<close>, and \<^verbatim>\<open>SCAN\<close>, which reports the live keys that match, some perhaps more than once. Of the
  patterns, a plain text with a final star matches its extensions, and a star in the middle any
  text.
\<close>

definition redis_laws ::
    "'r redis_server \<Rightarrow> ('r \<Rightarrow> string \<Rightarrow> (string \<times> rat) option) \<Rightarrow> (string \<Rightarrow> string \<Rightarrow> bool) \<Rightarrow> bool" where
  "redis_laws rd view glob \<longleftrightarrow>
     (\<forall>now k r. rk_get rd now k r = unexpired now (view r k)) \<and>
     (\<forall>now k v e nx r. 0 < expiry_seconds e \<longrightarrow>
        (let taken = nx \<and> unexpired now (view r k) \<noteq> None
         in fst (rk_set rd now k v e nx r) = (\<not> taken) \<and>
            view (snd (rk_set rd now k v e nx r)) =
              (if taken then view r else (view r)(k \<mapsto> (v, now + expiry_seconds e))))) \<and>
     (\<forall>k r. view (rk_delete rd k r) = (view r)(k := None)) \<and>
     (\<forall>now pat r. set (rk_scan rd now pat r) = {k. unexpired now (view r k) \<noteq> None \<and> glob pat k}) \<and>
     (\<forall>p k. plain_text p \<longrightarrow> glob (p @ ''*'') k = startswith k p) \<and>
     (\<forall>p q x y. plain_text p \<and> plain_text q \<longrightarrow> glob (p @ ''*'' @ q @ ''*'') (p @ x @ q @ y))"

section \<open>The tier\<close>

definition redis_l2_get :: "'r redis_server \<Rightarrow> rat \<Rightarrow> string \<Rightarrow> 'r \<Rightarrow> string option" where
  "redis_l2_get rd now key r = rk_get rd now key r"

definition redis_l2_set :: "'r redis_server \<Rightarrow> rat \<Rightarrow> string \<Rightarrow> string \<Rightarrow> int \<Rightarrow> 'r \<Rightarrow> 'r" where
  "redis_l2_set rd now key v ttl_seconds r = snd (rk_set rd now key v (In_Seconds ttl_seconds) False r)"

definition redis_l2_delete :: "'r redis_server \<Rightarrow> string \<Rightarrow> 'r \<Rightarrow> 'r" where
  "redis_l2_delete rd key r = rk_delete rd key r"

fun delete_each :: "'r redis_server \<Rightarrow> nat \<Rightarrow> string list \<Rightarrow> 'r \<Rightarrow> nat \<times> 'r" where
  "delete_each rd deleted [] r = (deleted, r)"
| "delete_each rd deleted (k # ks) r = delete_each rd (deleted + 1) ks (rk_delete rd k r)"

definition redis_l2_delete_prefix :: "'r redis_server \<Rightarrow> rat \<Rightarrow> string \<Rightarrow> 'r \<Rightarrow> nat \<times> 'r" where
  "redis_l2_delete_prefix rd now p r = delete_each rd 0 (rk_scan rd now (p @ ''*'') r) r"

definition redis_l2_acquire_lock :: "'r redis_server \<Rightarrow> rat \<Rightarrow> string \<Rightarrow> int \<Rightarrow> 'r \<Rightarrow> bool \<times> 'r" where
  "redis_l2_acquire_lock rd now lock_key ttl_ms r = rk_set rd now lock_key ''1'' (In_Millis ttl_ms) True r"

definition redis_l2_release_lock :: "'r redis_server \<Rightarrow> string \<Rightarrow> 'r \<Rightarrow> 'r" where
  "redis_l2_release_lock rd lock_key r = rk_delete rd lock_key r"

section \<open>What the operations do to the keys\<close>

lemma delete_each_fst: "fst (delete_each rd n ks r) = n + length ks"
  by (induction ks arbitrary: n r) auto


lemma redis_get:
  "redis_laws rd view glob \<Longrightarrow> redis_l2_get rd now k r = unexpired now (view r k)"
  by (simp add: redis_laws_def redis_l2_get_def)

lemma redis_set:
  "redis_laws rd view glob \<Longrightarrow> 0 < ttl \<Longrightarrow>
     view (redis_l2_set rd now k v ttl r) = (view r)(k \<mapsto> (v, now + of_int ttl))"
  by (simp add: redis_laws_def redis_l2_set_def Let_def)

lemma redis_delete:
  "redis_laws rd view glob \<Longrightarrow> view (redis_l2_delete rd k r) = (view r)(k := None)"
  "redis_laws rd view glob \<Longrightarrow> view (redis_l2_release_lock rd k r) = (view r)(k := None)"
  by (simp_all add: redis_laws_def redis_l2_delete_def redis_l2_release_lock_def)

lemma redis_lock:
  assumes "redis_laws rd view glob" and "0 < ms"
  shows "fst (redis_l2_acquire_lock rd now k ms r) = (unexpired now (view r k) = None)"
    and "view (snd (redis_l2_acquire_lock rd now k ms r)) =
      (if unexpired now (view r k) = None then (view r)(k \<mapsto> (''1'', now + of_int ms / 1000)) else view r)"
proof -
  have "0 < expiry_seconds (In_Millis ms)" using assms(2) by simp
  with assms(1) show "fst (redis_l2_acquire_lock rd now k ms r) = (unexpired now (view r k) = None)"
    "view (snd (redis_l2_acquire_lock rd now k ms r)) =
      (if unexpired now (view r k) = None then (view r)(k \<mapsto> (''1'', now + of_int ms / 1000)) else view r)"
    unfolding redis_laws_def redis_l2_acquire_lock_def Let_def by simp_all
qed

lemma delete_each_view:
  assumes "redis_laws rd view glob"
  shows "view (snd (delete_each rd n ks r)) k = (if k \<in> set ks then None else view r k)"
proof (induction ks arbitrary: n r)
  case (Cons k' ks)
  with assms show ?case by (simp add: redis_laws_def)
qed simp

lemma scan_keys:
  "redis_laws rd view glob \<Longrightarrow> set (rk_scan rd now pat r) = {k. unexpired now (view r k) \<noteq> None \<and> glob pat k}"
  by (simp add: redis_laws_def)

lemma redis_delete_prefix:
  assumes "redis_laws rd view glob"
  shows "view (snd (redis_l2_delete_prefix rd now p r)) k =
    (if unexpired now (view r k) \<noteq> None \<and> glob (p @ ''*'') k then None else view r k)"
  using delete_each_view [OF assms] scan_keys [OF assms] by (simp add: redis_l2_delete_prefix_def)

section \<open>The tier as a store of values\<close>

definition is_lock_key :: "string \<Rightarrow> bool" where
  "is_lock_key k = endswith k '':lock''"

datatype l2_op =
    L2_Get string
  | L2_Set string string int
  | L2_Delete string
  | L2_Drop string
  | L2_Lock string int
  | L2_Unlock string

text \<open>
  The operations the manager makes: values under keys that are not locks, with a positive time to
  live, prefixes without pattern characters, and locks under their own keys.
\<close>

fun l2_op_ok :: "l2_op \<Rightarrow> bool" where
  "l2_op_ok (L2_Get k) = (\<not> is_lock_key k)"
| "l2_op_ok (L2_Set k v ttl) = (\<not> is_lock_key k \<and> 0 < ttl)"
| "l2_op_ok (L2_Delete k) = (\<not> is_lock_key k)"
| "l2_op_ok (L2_Drop p) = plain_text p"
| "l2_op_ok (L2_Lock k ms) = (is_lock_key k \<and> 0 < ms)"
| "l2_op_ok (L2_Unlock k) = is_lock_key k"

fun redis_step :: "'r redis_server \<Rightarrow> rat \<Rightarrow> l2_op \<Rightarrow> 'r \<Rightarrow> 'r" where
  "redis_step rd now (L2_Get k) r = r"
| "redis_step rd now (L2_Set k v ttl) r = redis_l2_set rd now k v ttl r"
| "redis_step rd now (L2_Delete k) r = redis_l2_delete rd k r"
| "redis_step rd now (L2_Drop p) r = snd (redis_l2_delete_prefix rd now p r)"
| "redis_step rd now (L2_Lock k ms) r = snd (redis_l2_acquire_lock rd now k ms r)"
| "redis_step rd now (L2_Unlock k) r = redis_l2_release_lock rd k r"

fun mem_step :: "rat \<Rightarrow> l2_op \<Rightarrow> mem_l2 \<Rightarrow> mem_l2" where
  "mem_step now (L2_Get k) b = snd (mem_l2_get now k b)"
| "mem_step now (L2_Set k v ttl) b = mem_l2_set now k v ttl b"
| "mem_step now (L2_Delete k) b = mem_l2_delete k b"
| "mem_step now (L2_Drop p) b = snd (mem_l2_delete_prefix p b)"
| "mem_step now (L2_Lock k ms) b = snd (mem_l2_acquire_lock now k ms b)"
| "mem_step now (L2_Unlock k) b = mem_l2_release_lock k b"

definition same_values ::
    "('r \<Rightarrow> string \<Rightarrow> (string \<times> rat) option) \<Rightarrow> rat \<Rightarrow> 'r \<Rightarrow> mem_l2 \<Rightarrow> bool" where
  "same_values view now r b \<longleftrightarrow>
     (\<forall>t k. now \<le> t \<and> \<not> is_lock_key k \<longrightarrow> unexpired t (view r k) = unexpired t (map_of (m2_store b) k))"

lemma same_valuesD:
  "same_values view now r b \<Longrightarrow> now \<le> t \<Longrightarrow> \<not> is_lock_key k \<Longrightarrow>
     unexpired t (view r k) = unexpired t (map_of (m2_store b) k)"
  by (simp add: same_values_def)

lemma same_values_later: "same_values view now r b \<Longrightarrow> now \<le> now' \<Longrightarrow> same_values view now' r b"
  by (auto simp: same_values_def)

lemma mem_drop_map:
  "map_of (m2_store (snd (mem_l2_delete_prefix p b))) k = (if startswith k p then None else map_of (m2_store b) k)"
  by (simp add: mem_l2_delete_prefix_def drop_prefix_map case_prod_beta)

lemma unexpired_mono: "now \<le> t \<Longrightarrow> unexpired now x = None \<Longrightarrow> unexpired t x = None"
  by (auto simp: unexpired_def split: option.splits if_splits)

lemma same_values_step:
  assumes "redis_laws rd view glob" and "same_values view now r b" and "l2_op_ok op"
  shows "same_values view now (redis_step rd now op r) (mem_step now op b)"
proof (cases op)
  case (L2_Get k)
  have "unexpired t (map_of (m2_store (snd (mem_l2_get now k b))) k') = unexpired t (map_of (m2_store b) k')"
    if "now \<le> t" for t k'
    using ttl_dict.get_inert [OF that] by simp
  with L2_Get assms(2) show ?thesis by (simp add: same_values_def)
next
  case (L2_Set k v ttl)
  with assms show ?thesis by (simp add: same_values_def redis_set ttl_dict.put_state)
next
  case (L2_Delete k)
  with assms show ?thesis by (simp add: same_values_def redis_delete)
next
  case (L2_Drop p)
  have "glob (p @ ''*'') k = startswith k p" for k
    using assms(1,3) L2_Drop by (simp add: redis_laws_def)
  with L2_Drop assms show ?thesis
    by (auto simp: same_values_def redis_delete_prefix mem_drop_map dest: unexpired_mono)
next
  case (L2_Lock k ms)
  with assms have "k' \<noteq> k" if "\<not> is_lock_key k'" for k' using that by auto
  with L2_Lock assms show ?thesis by (simp add: same_values_def redis_lock)
next
  case (L2_Unlock k)
  with assms have "k' \<noteq> k" if "\<not> is_lock_key k'" for k' using that by auto
  with L2_Unlock assms show ?thesis by (simp add: same_values_def redis_delete)
qed


fun redis_reads :: "'r redis_server \<Rightarrow> (rat \<times> l2_op) list \<Rightarrow> 'r \<Rightarrow> string option list" where
  "redis_reads rd [] r = []"
| "redis_reads rd ((now, op) # es) r =
     (case op of L2_Get k \<Rightarrow> [redis_l2_get rd now k r] | _ \<Rightarrow> []) @ redis_reads rd es (redis_step rd now op r)"

fun mem_reads :: "(rat \<times> l2_op) list \<Rightarrow> mem_l2 \<Rightarrow> string option list" where
  "mem_reads [] b = []"
| "mem_reads ((now, op) # es) b =
     (case op of L2_Get k \<Rightarrow> [fst (mem_l2_get now k b)] | _ \<Rightarrow> []) @ mem_reads es (mem_step now op b)"

lemma redis_reads_equal:
  assumes "redis_laws rd view glob" and "same_values view now r b"
    and "sorted (map fst es)" and "\<forall>e \<in> set es. now \<le> fst e \<and> l2_op_ok (snd e)"
  shows "redis_reads rd es r = mem_reads es b"
  using assms(2-)
proof (induction es arbitrary: now r b)
  case (Cons e es)
  obtain t op where e: "e = (t, op)" by (rule prod.exhaust)
  have same: "same_values view t r b" using Cons.prems(1,3) e by (auto intro: same_values_later)
  have ok: "l2_op_ok op" using Cons.prems(3) e by auto
  have "redis_reads rd es (redis_step rd t op r) = mem_reads es (mem_step t op b)"
    using Cons.prems(2,3) e by (intro Cons.IH [of t] same_values_step [OF assms(1) same ok]) auto
  moreover have "redis_l2_get rd t k r = fst (mem_l2_get t k b)" if "op = L2_Get k" for k
    using same_valuesD [OF same, of t k] ok that by (simp add: redis_get [OF assms(1)] ttl_dict.get_result)
  ultimately show ?case using e by (cases op) simp_all
qed simp


text \<open>A server for concrete evaluations: one dictionary, and patterns of plain texts and stars.\<close>

fun star_glob :: "string \<Rightarrow> string \<Rightarrow> bool" where
  "star_glob [] k = (k = [])"
| "star_glob (c # p) k =
     (if c = CHR ''*'' then list_ex (star_glob p) (suffixes k)
      else k \<noteq> [] \<and> hd k = c \<and> star_glob p (tl k))"

definition one_dict :: "ttl_dict redis_server" where
  "one_dict =
     \<lparr>rk_get = \<lambda>now k d. unexpired now (map_of d k),
      rk_set = \<lambda>now k v e nx d.
        if nx \<and> unexpired now (map_of d k) \<noteq> None then (False, d)
        else (True, AList.update k (v, now + expiry_seconds e) d),
      rk_delete = AList.delete,
      rk_scan = \<lambda>now pat d. filter (\<lambda>k. unexpired now (map_of d k) \<noteq> None \<and> star_glob pat k) (keys_of d)\<rparr>"

lemma star_glob_any: "star_glob ''*'' k"
  by (induction k) auto

lemma star_glob_plain: "plain_text p \<Longrightarrow> star_glob (p @ q) k \<longleftrightarrow> (\<exists>r. k = p @ r \<and> star_glob q r)"
proof (induction p arbitrary: k)
  case (Cons c p)
  then have "c \<noteq> CHR ''*''" and "plain_text p" by (simp_all add: plain_text_def)
  with Cons.IH [of "tl k"] show ?case by (cases k) auto
qed simp

lemma star_glob_infix:
  assumes "plain_text q"
  shows "star_glob (CHR ''*'' # q @ ''*'') (x @ q @ y)"
proof -
  have "star_glob (q @ ''*'') (q @ y)" using star_glob_plain [OF assms] star_glob_any by blast
  moreover have "q @ y \<in> set (suffixes (x @ q @ y))" by (simp add: suffixI)
  ultimately show ?thesis by (auto simp: list_ex_iff)
qed

lemma one_dict_laws: "redis_laws one_dict map_of star_glob"
proof -
  have plain: "star_glob (p @ ''*'') k = startswith k p" if "plain_text p" for p k
    using star_glob_plain [OF that] star_glob_any by (auto simp: startswith_iff)
  have twice: "star_glob (p @ ''*'' @ q @ ''*'') (p @ x @ q @ y)" if "plain_text p" "plain_text q" for p q x y
    using star_glob_plain [OF that(1)] star_glob_infix [OF that(2)] by auto
  have keys: "{k \<in> set (keys_of d). unexpired now (map_of d k) \<noteq> None \<and> P k} =
      {k. unexpired now (map_of d k) \<noteq> None \<and> P k}" for d :: ttl_dict and now P
    by (auto simp: unexpired_def split: option.splits dest: map_of_SomeD intro: image_eqI [rotated])
  show ?thesis
    unfolding redis_laws_def one_dict_def using plain twice keys
    by (simp add: Let_def)
qed


definition l2_demo :: "(rat \<times> l2_op) list" where
  "l2_demo = [(0, L2_Set ''atlas:a:x'' ''1'' 5), (0, L2_Set ''atlas:b:x'' ''2'' 5), (1, L2_Lock ''atlas:a:x:lock'' 5000),
     (2, L2_Drop ''atlas:a:''), (3, L2_Get ''atlas:a:x''), (4, L2_Get ''atlas:b:x''), (6, L2_Get ''atlas:b:x'')]"


section \<open>Where the tiers differ\<close>

text \<open>
  Locks live among the values, so dropping a prefix also drops the locks under it and the next
  caller computes again; and a tenant whose name is a star drops the entries of every tenant.
\<close>

lemma invalidation_drops_locks:
  assumes "redis_laws rd view glob" and "plain_text p" and "startswith k p" and "0 < ms"
  shows "fst (redis_l2_acquire_lock rd now k ms (snd (redis_l2_delete_prefix rd now p r)))"
proof -
  have "glob (p @ ''*'') k" using assms(1-3) by (simp add: redis_laws_def)
  with assms(1) show ?thesis by (simp add: redis_lock(1) [OF assms(1,4)] redis_delete_prefix)
qed

lemma star_tenant_drops_others:
  assumes "redis_laws rd view glob" and "plain_text tenant"
  shows "unexpired now (view (snd (redis_l2_delete_prefix rd now (tenant_prefix ''*'') r))
    (tenant_prefix tenant @ rest)) = None"
proof -
  have "plain_text ''atlas:''" "plain_text '':''" by code_simp+
  with assms(1) have "glob (''atlas:'' @ ''*'' @ '':'' @ ''*'') (''atlas:'' @ tenant @ '':'' @ rest)"
    unfolding redis_laws_def by blast
  then have "glob (tenant_prefix ''*'' @ ''*'') (tenant_prefix tenant @ rest)"
    by (simp add: tenant_prefix_def)
  then show ?thesis by (simp add: redis_delete_prefix [OF assms(1)])
qed


end
