(* ===== verification/Redis_Bucket.thy ===== *)
theory Redis_Bucket
  imports Rate_Limit
begin

text \<open>
  The token bucket on Redis as an object with a connection (\<^verbatim>\<open>RedisTokenBucket\<close> of
  \<^verbatim>\<open>ratelimit/limiter.py\<close>): the lazily opened client, the script it loads, and the calls of the
  script by its digest. What the script computes is \<open>redis_consume\<close> of \<open>Rate_Limit\<close>; the server
  that holds scripts is a parameter with the documented laws of SCRIPT LOAD and EVALSHA.
\<close>

section \<open>The server of scripts\<close>

text \<open>
  \<open>sh_evalsha\<close> gets the digest the client object holds, which is nothing while none was loaded,
  the key and the four arguments in the order of the call.
\<close>

record 'r script_host =
  sh_load :: "string \<Rightarrow> 'r \<Rightarrow> string outcome \<times> 'r"
  sh_evalsha :: "string option \<Rightarrow> string \<Rightarrow> int \<Rightarrow> rat \<Rightarrow> int \<Rightarrow> int \<Rightarrow> 'r \<Rightarrow> (int \<times> int) outcome \<times> 'r"

section \<open>The client object\<close>

record token_client =
  tc_open :: bool
  tc_sha :: "string option"

definition new_token_client :: token_client where
  "new_token_client = \<lparr>tc_open = False, tc_sha = None\<rparr>"

text \<open>
  \<^verbatim>\<open>_ensure\<close>: the client object is stored before the script is loaded, and stays stored when
  loading fails.
\<close>

definition token_ensure :: "'r script_host \<Rightarrow> string \<Rightarrow> token_client \<times> 'r \<Rightarrow> unit outcome \<times> token_client \<times> 'r" where
  "token_ensure h script s =
     (case s of (c, r) \<Rightarrow>
        if \<not> tc_open c then
          (case sh_load h script r of
             (Inl x, r1) \<Rightarrow> (Inl x, c\<lparr>tc_open := True\<rparr>, r1)
           | (Inr sha, r1) \<Rightarrow> (Inr (), c\<lparr>tc_open := True, tc_sha := Some sha\<rparr>, r1))
        else (Inr (), c, r))"

definition token_consume ::
    "'r script_host \<Rightarrow> string \<Rightarrow> token_client \<times> 'r \<Rightarrow> string \<Rightarrow> int \<Rightarrow> rat \<Rightarrow> int \<Rightarrow> int
       \<Rightarrow> (int \<times> int) outcome \<times> token_client \<times> 'r" where
  "token_consume h script s key capacity refill_per_s cost now_ms =
     (case token_ensure h script s of
        (Inl x, s1) \<Rightarrow> (Inl x, s1)
      | (Inr u, c1, r1) \<Rightarrow>
          (case sh_evalsha h (tc_sha c1) key capacity refill_per_s now_ms cost r1 of
             (v, r2) \<Rightarrow> (v, c1, r2)))"

definition token_disconnect :: "token_client \<Rightarrow> token_client" where
  "token_disconnect c = (if tc_open c then c\<lparr>tc_open := False\<rparr> else c)"

section \<open>The limiter over a backend that may fail\<close>

text \<open>\<^verbatim>\<open>acquire\<close> lets what the backend raises pass.\<close>

definition try_acquire ::
    "('s \<Rightarrow> string \<Rightarrow> int \<Rightarrow> rat \<Rightarrow> int \<Rightarrow> int \<Rightarrow> (int \<times> int) outcome \<times> 's)
       \<Rightarrow> settings \<Rightarrow> 's \<Rightarrow> string \<Rightarrow> string \<Rightarrow> int \<Rightarrow> rat \<Rightarrow> unit outcome \<times> 's" where
  "try_acquire consume cfg s tenant tool cost time =
     (let quota = quota_for cfg tool
      in case consume s (rl_key tenant tool) (quota_capacity quota) (refill_rate quota) cost \<lfloor>time * 1000\<rfloor> of
           (Inl x, s1) \<Rightarrow> (Inl x, s1)
         | (Inr (allowed, retry_after_ms), s1) \<Rightarrow>
             if allowed = 0
             then (Inl (Tool_Exc (rate_limit_error (of_int retry_after_ms / 1000) None)), s1)
             else (Inr (), s1))"

lemma try_acquire_total:
  "try_acquire (\<lambda>s k c r x t. case consume s k c r x t of (s1, a, m) \<Rightarrow> (Inr (a, m), s1)) cfg s tenant tool cost time
     = acquire consume cfg s tenant tool cost time"
  by (simp add: try_acquire_def acquire_def Let_def split: prod.split)

section \<open>The laws of scripts\<close>

text \<open>
  A loaded script is known by its digest until the scripts are flushed; a call by a known digest
  runs it atomically; a call by an unknown digest is refused with \<^verbatim>\<open>NOSCRIPT\<close>, and the client
  library refuses to send a digest that is \<^verbatim>\<open>None\<close>.
\<close>

definition script_laws ::
    "'r script_host \<Rightarrow> string \<Rightarrow> int \<Rightarrow> ('r \<Rightarrow> string set) \<Rightarrow> ('r \<Rightarrow> redis_buckets) \<Rightarrow> bool" where
  "script_laws h script inf_reply known buckets \<longleftrightarrow>
     (\<forall>r sha r1. sh_load h script r = (Inr sha, r1) \<longrightarrow> sha \<in> known r1 \<and> buckets r1 = buckets r) \<and>
     (\<forall>r sha key c rt now cost. sha \<in> known r \<longrightarrow>
        (\<exists>a m r1. sh_evalsha h (Some sha) key c rt now cost r = (Inr (a, m), r1) \<and>
          known r1 = known r \<and> redis_consume inf_reply (buckets r) key c rt cost now = (buckets r1, a, m))) \<and>
     (\<forall>r sha key c rt now cost. sha \<notin> known r \<longrightarrow>
        sh_evalsha h (Some sha) key c rt now cost r = (Inl (Py_Exc ''NoScriptError'' ''''), r)) \<and>
     (\<forall>r key c rt now cost.
        sh_evalsha h None key c rt now cost r = (Inl (Py_Exc ''DataError'' ''''), r))"

lemma script_lawsD:
  assumes "script_laws h script inf_reply known buckets"
  shows script_laws_load: "sh_load h script r = (Inr sha, r1) \<Longrightarrow> sha \<in> known r1 \<and> buckets r1 = buckets r"
    and script_laws_known: "sha \<in> known r \<Longrightarrow>
      \<exists>a m r1. sh_evalsha h (Some sha) key c rt now cost r = (Inr (a, m), r1) \<and>
        known r1 = known r \<and> redis_consume inf_reply (buckets r) key c rt cost now = (buckets r1, a, m)"
    and script_laws_unknown: "sha \<notin> known r \<Longrightarrow>
      sh_evalsha h (Some sha) key c rt now cost r = (Inl (Py_Exc ''NoScriptError'' ''''), r)"
    and script_laws_none: "sh_evalsha h None key c rt now cost r = (Inl (Py_Exc ''DataError'' ''''), r)"
proof -
  show "sh_load h script r = (Inr sha, r1) \<Longrightarrow> sha \<in> known r1 \<and> buckets r1 = buckets r"
    using assms unfolding script_laws_def by metis
qed (use assms in \<open>simp_all add: script_laws_def\<close>)

section \<open>Calls in a row\<close>

type_synonym bucket_call = "string \<times> int \<times> rat \<times> int \<times> int"

fun token_calls ::
    "'r script_host \<Rightarrow> string \<Rightarrow> bucket_call list \<Rightarrow> token_client \<times> 'r
       \<Rightarrow> (int \<times> int) outcome list \<times> token_client \<times> 'r" where
  "token_calls h script [] s = ([], s)"
| "token_calls h script ((key, c, rt, cost, now) # cs) s =
     (case token_consume h script s key c rt cost now of
        (v, s1) \<Rightarrow> (case token_calls h script cs s1 of (vs, s2) \<Rightarrow> (v # vs, s2)))"

fun script_calls :: "int \<Rightarrow> bucket_call list \<Rightarrow> redis_buckets \<Rightarrow> (int \<times> int) list \<times> redis_buckets" where
  "script_calls inf_reply [] b = ([], b)"
| "script_calls inf_reply ((key, c, rt, cost, now) # cs) b =
     (case redis_consume inf_reply b key c rt cost now of
        (b1, a, m) \<Rightarrow> (case script_calls inf_reply cs b1 of (vs, b2) \<Rightarrow> ((a, m) # vs, b2)))"

lemma open_calls:
  assumes "script_laws h script inf_reply known buckets"
  shows "tc_open c \<Longrightarrow> tc_sha c = Some sha \<Longrightarrow> sha \<in> known r \<Longrightarrow>
    \<exists>r'. token_calls h script cs (c, r) = (map Inr (fst (script_calls inf_reply cs (buckets r))), c, r')
      \<and> buckets r' = snd (script_calls inf_reply cs (buckets r))"
proof (induction cs arbitrary: r)
  case (Cons call cs)
  obtain key cp rt cost now where call: "call = (key, cp, rt, cost, now)" by (metis prod.exhaust)
  obtain a m r1 where e: "sh_evalsha h (Some sha) key cp rt now cost r = (Inr (a, m), r1)"
    "known r1 = known r" "redis_consume inf_reply (buckets r) key cp rt cost now = (buckets r1, a, m)"
    using script_laws_known [OF assms Cons.prems(3)] by meson
  have "token_consume h script (c, r) key cp rt cost now = (Inr (a, m), c, r1)"
    using Cons.prems e by (simp add: token_consume_def token_ensure_def)
  with Cons.IH [of r1] Cons.prems e call show ?case by (auto split: prod.split)
qed simp

section \<open>Properties\<close>

text \<open>C22: The limiter on Redis computes what the script computes. From a client that was never
  used, if loading the script succeeds and nobody flushes the scripts, the answers of any sequence
  of calls, and the buckets they leave in Redis, are those of the script run on the same calls one
  after the other; loading the script changes no bucket and happens once.\<close>

theorem redis_bucket_runs_script:
  assumes "script_laws h script inf_reply known buckets"
    and "sh_load h script r = (Inr sha, r1)" and "calls \<noteq> []"
  shows "\<exists>r'. token_calls h script calls (new_token_client, r)
      = (map Inr (fst (script_calls inf_reply calls (buckets r))), \<lparr>tc_open = True, tc_sha = Some sha\<rparr>, r')
    \<and> buckets r' = snd (script_calls inf_reply calls (buckets r))"
proof -
  let ?c = "\<lparr>tc_open = True, tc_sha = Some sha\<rparr>"
  have known: "sha \<in> known r1" and same: "buckets r1 = buckets r"
    using script_laws_load [OF assms(1,2)] by simp_all
  obtain key cp rt cost now cs where calls: "calls = (key, cp, rt, cost, now) # cs"
    using assms(3) by (metis list.exhaust prod.exhaust)
  have "token_calls h script calls (new_token_client, r) = token_calls h script calls (?c, r1)"
    using assms(2) by (simp add: calls token_consume_def token_ensure_def new_token_client_def)
  with open_calls [OF assms(1), of ?c sha r1 calls] known same show ?thesis by simp
qed

text \<open>The limiter on Redis does not recover. Once its client is open without a digest the
  server knows, because the first load failed or the scripts were flushed, every call of any
  sequence raises, whatever the buckets hold, and the client stays as it is: the script is never
  loaded again. A caller sees an error that is no refusal and carries no time to retry after.\<close>

theorem redis_bucket_stuck:
  assumes "script_laws h script inf_reply known buckets" and "tc_open c"
    and "case tc_sha c of None \<Rightarrow> True | Some sha \<Rightarrow> sha \<notin> known r"
  shows "\<exists>x. (x = Py_Exc ''NoScriptError'' '''' \<or> x = Py_Exc ''DataError'' '''') \<and>
    token_calls h script calls (c, r) = (replicate (length calls) (Inl x), c, r)"
proof -
  define x where "x = (case tc_sha c of None \<Rightarrow> Py_Exc ''DataError'' '''' | Some sha \<Rightarrow> Py_Exc ''NoScriptError'' '''')"
  have "sh_evalsha h (tc_sha c) key cp rt now cost r = (Inl x, r)" for key cp rt now cost
    using assms(3) by (cases "tc_sha c")
      (simp_all add: x_def script_laws_none [OF assms(1)] script_laws_unknown [OF assms(1)])
  then have one: "token_consume h script (c, r) key cp rt cost now = (Inl x, c, r)" for key cp rt cost now
    using assms(2) by (simp add: token_consume_def token_ensure_def)
  have "token_calls h script calls (c, r) = (replicate (length calls) (Inl x), c, r)"
  proof (induction calls)
    case (Cons call calls)
    obtain key cp rt cost now where "call = (key, cp, rt, cost, now)" by (metis prod.exhaust)
    with Cons one show ?case by simp
  qed simp
  moreover have "x = Py_Exc ''NoScriptError'' '''' \<or> x = Py_Exc ''DataError'' ''''"
    by (simp add: x_def split: option.split)
  ultimately show ?thesis by blast
qed

text \<open>How it gets there: a load that fails, and a second caller while the first still loads.\<close>

lemma failed_load_opens:
  assumes "sh_load h script r = (Inl x, r1)"
  shows "token_consume h script (new_token_client, r) key c rt cost now
    = (Inl x, \<lparr>tc_open = True, tc_sha = None\<rparr>, r1)"
  using assms by (simp add: token_consume_def token_ensure_def new_token_client_def)

lemma second_caller_fails:
  assumes "script_laws h script inf_reply known buckets"
  shows "token_consume h script (new_token_client\<lparr>tc_open := True\<rparr>, r) key c rt cost now
    = (Inl (Py_Exc ''DataError'' ''''), new_token_client\<lparr>tc_open := True\<rparr>, r)"
  by (simp add: token_consume_def token_ensure_def new_token_client_def script_laws_none [OF assms])

text \<open>A server of scripts: whether it is up, whether it holds the script, and the buckets.\<close>

definition demo_host :: "(bool \<times> bool \<times> redis_buckets) script_host" where
  "demo_host =
     \<lparr>sh_load = (\<lambda>script (up, loaded, b).
        if up then (Inr ''d1'', up, True, b) else (Inl (Py_Exc ''ConnectionError'' ''''), up, loaded, b)),
      sh_evalsha = (\<lambda>sha key c rt now cost (up, loaded, b).
        case sha of
          None \<Rightarrow> (Inl (Py_Exc ''DataError'' ''''), up, loaded, b)
        | Some d \<Rightarrow>
            if loaded \<and> d = ''d1'' then
              (case redis_consume 0 b key c rt cost now of (b1, a, m) \<Rightarrow> (Inr (a, m), up, loaded, b1))
            else (Inl (Py_Exc ''NoScriptError'' ''''), up, loaded, b))\<rparr>"

definition demo_known :: "bool \<times> bool \<times> redis_buckets \<Rightarrow> string set" where
  "demo_known r = (if fst (snd r) then {''d1''} else {})"

lemma demo_host_laws: "script_laws demo_host script 0 demo_known (\<lambda>r. snd (snd r))"
  by (auto simp: script_laws_def demo_host_def demo_known_def split: prod.split if_splits)

theorem redis_bucket_runs_script_witness:
  "fst (token_calls demo_host ''lua'' [(''k'', 1, 1, 1, 1000), (''k'', 1, 1, 1, 1500)]
      (new_token_client, True, False, Map.empty)) = [Inr (1, 0), Inr (0, 500)]"
proof -
  have "sh_load demo_host ''lua'' (True, False, Map.empty) = (Inr ''d1'', True, True, Map.empty)"
    by (simp add: demo_host_def)
  from redis_bucket_runs_script [OF demo_host_laws this, of "[(''k'', 1, 1, 1, 1000), (''k'', 1, 1, 1, 1500)]"]
  show ?thesis
    by (auto simp: redis_consume_def redis_live_def refilled_def redis_ttl_ms_def)
qed

theorem redis_bucket_stuck_witness:
  "fst (token_calls demo_host ''lua'' [(''k'', 1, 1, 1, 1000)]
      (snd (token_consume demo_host ''lua'' (new_token_client, False, False, Map.empty) ''k'' 1 1 1 0)))
     = [Inl (Py_Exc ''DataError'' '''')]"
proof -
  have "sh_load demo_host ''lua'' (False, False, Map.empty) =
      (Inl (Py_Exc ''ConnectionError'' ''''), False, False, Map.empty)"
    by (simp add: demo_host_def)
  note first = failed_load_opens [OF this]
  from redis_bucket_stuck [OF demo_host_laws, of "\<lparr>tc_open = True, tc_sha = None\<rparr>"
      "(False, False, Map.empty)" "''lua''" "[(''k'', 1, 1, 1, 1000)]"]
  show ?thesis
    by (simp add: first) (simp add: token_consume_def token_ensure_def demo_host_def)
qed

end
