(* ===== verification/Planner.thy ===== *)
theory Planner
  imports Agent_Base
begin

text \<open>
  The planner agent (\<^verbatim>\<open>agents/planner.py\<close>): the customer id found in the question by the regular
  expression \<^verbatim>\<open>\b(?:cust|customer|account|acct)[_-]?([A-Za-z0-9\-_]{3,64})\b\<close>, ignoring case, and
  the plan the model returns. The matcher tries positions from the left, the alternatives in
  their order, the separator before its absence, and the longest id first, as the regular
  expression engine does.
\<close>

section \<open>The customer id\<close>

definition is_letter :: "char \<Rightarrow> bool" where
  "is_letter c = (let n = (of_char c :: nat) in 65 \<le> n \<and> n \<le> 90 \<or> 97 \<le> n \<and> n \<le> 122)"

text \<open>The characters \<^verbatim>\<open>\w\<close> matches below 256.\<close>

definition word_char :: "char \<Rightarrow> bool" where
  "word_char c = (let n = (of_char c :: nat) in
     is_letter c \<or> is_digit c \<or> c = CHR ''_'' \<or> n \<in> {170, 178, 179, 181, 185, 186, 188, 189, 190}
     \<or> 192 \<le> n \<and> n \<noteq> 215 \<and> n \<noteq> 247)"

definition id_char :: "char \<Rightarrow> bool" where
  "id_char c \<longleftrightarrow> is_letter c \<or> is_digit c \<or> c = CHR ''-'' \<or> c = CHR ''_''"

definition boundary :: "string \<Rightarrow> nat \<Rightarrow> bool" where
  "boundary s i \<longleftrightarrow>
     (0 < i \<and> word_char (s ! (i - 1))) \<noteq> (i < length s \<and> word_char (s ! i))"

text \<open>The group at a position: the longest of at most \<open>n\<close> characters that ends at a boundary.\<close>

fun id_of_length :: "string \<Rightarrow> nat \<Rightarrow> nat \<Rightarrow> string option" where
  "id_of_length s i 0 = None"
| "id_of_length s i (Suc n) =
     (if Suc n < 3 then None
      else if boundary s (i + Suc n) then Some (take (Suc n) (drop i s))
      else id_of_length s i n)"

definition id_at :: "string \<Rightarrow> nat \<Rightarrow> string option" where
  "id_at s i = id_of_length s i (length (takeWhile id_char (take 64 (drop i s))))"

definition after_keyword :: "string \<Rightarrow> nat \<Rightarrow> string option" where
  "after_keyword s i =
     (if i < length s \<and> s ! i \<in> {CHR ''_'', CHR ''-''}
      then (case id_at s (Suc i) of Some r \<Rightarrow> Some r | None \<Rightarrow> id_at s i)
      else id_at s i)"

definition id_keywords :: "string list" where
  "id_keywords = [''cust'', ''customer'', ''account'', ''acct'']"

fun try_keywords :: "string \<Rightarrow> nat \<Rightarrow> string list \<Rightarrow> string option" where
  "try_keywords s i [] = None"
| "try_keywords s i (kw # kws) =
     (if startswith (str_lower (drop i s)) kw
      then (case after_keyword s (i + length kw) of Some r \<Rightarrow> Some r | None \<Rightarrow> try_keywords s i kws)
      else try_keywords s i kws)"

fun search_from :: "string \<Rightarrow> nat \<Rightarrow> nat \<Rightarrow> string option" where
  "search_from s i 0 = None"
| "search_from s i (Suc n) =
     (case (if boundary s i then try_keywords s i id_keywords else None) of
        Some r \<Rightarrow> Some r
      | None \<Rightarrow> search_from s (Suc i) n)"

definition extract_customer_id :: "string \<Rightarrow> string option" where
  "extract_customer_id question = search_from question 0 (length question)"

section \<open>The plan\<close>

record plan_step =
  ps_id :: string
  ps_description :: string
  ps_priority :: int

record plan =
  pn_needs :: "plan_step list"
  pn_customer_id_required :: bool
  pn_notes :: string
  pn_customer_id :: "string option"

definition plan_step_of :: "runtime \<Rightarrow> json \<Rightarrow> plan_step outcome" where
  "plan_step_of rt n =
     bind_res (py_item ''id'' n) (\<lambda>i.
     bind_res (py_item ''description'' n) (\<lambda>d.
     bind_res (py_get ''priority'' (JInt 2) n) (\<lambda>p.
     bind_res (py_int_of p) (\<lambda>prio.
       Inr \<lparr>ps_id = py_str rt i, ps_description = py_str rt d, ps_priority = prio\<rparr>))))"

definition plan_of :: "runtime \<Rightarrow> string option \<Rightarrow> json \<Rightarrow> plan outcome" where
  "plan_of rt customer_id data =
     bind_res (py_get ''needs'' (JList []) data) (\<lambda>needs.
     bind_res (py_iter needs) (\<lambda>ns.
     bind_res (map_res (plan_step_of rt) ns) (\<lambda>steps.
     bind_res (py_get ''customer_id_required'' JNull data) (\<lambda>req.
     bind_res (py_get ''notes'' (JStr '''') data) (\<lambda>notes.
       Inr \<lparr>pn_needs = steps, pn_customer_id_required = truthy req, pn_notes = py_str rt notes,
            pn_customer_id = customer_id\<rparr>)))))"

definition planner_messages :: "string \<Rightarrow> message list" where
  "planner_messages question =
     [\<lparr>ms_role = ''user'',
       ms_content = ''Customer question:'' @ [CHR 0x0A] @ question @ [CHR 0x0A, CHR 0x0A]
         @ ''Return a retrieval plan as JSON.''\<rparr>]"

definition planner_act ::
    "runtime \<Rightarrow> 'w llm \<Rightarrow> string \<Rightarrow> string \<Rightarrow> agent_run \<Rightarrow> 'w \<Rightarrow> plan outcome \<times> agent_run \<times> 'w" where
  "planner_act rt llm system question run w =
     (let customer_id = extract_customer_id question
      in case complete_json rt llm system (planner_messages question) 400 run w of
           (r, run1, w1) \<Rightarrow> (bind_res r (plan_of rt customer_id), run1, w1))"

section \<open>Facts\<close>

lemma takeWhile_prefix_all: "n \<le> length (takeWhile P xs) \<Longrightarrow> list_all P (take n xs)"
  by (metis list_all_iff set_takeWhileD takeWhile_eq_take take_take min.absorb1 in_set_takeD)

lemma id_of_length_sound:
  "id_of_length s i n = Some r \<Longrightarrow>
     \<exists>m. 3 \<le> m \<and> m \<le> n \<and> r = take m (drop i s) \<and> boundary s (i + m)"
proof (induction n)
  case (Suc n)
  show ?case
  proof (cases "boundary s (i + Suc n)")
    case True
    with Suc.prems show ?thesis by (intro exI [of _ "Suc n"]) (auto split: if_splits)
  next
    case False
    with Suc show ?thesis by (auto split: if_splits intro: le_SucI)
  qed
qed simp

definition found_id :: "string \<Rightarrow> string \<Rightarrow> bool" where
  "found_id s r \<longleftrightarrow> 3 \<le> length r \<and> length r \<le> 64 \<and> list_all id_char r \<and>
     (\<exists>i. 4 \<le> i \<and> i + length r \<le> length s \<and> r = take (length r) (drop i s) \<and> boundary s (i + length r))"

lemma id_at_sound:
  assumes "id_at s i = Some r" and "4 \<le> i"
  shows "found_id s r"
proof -
  let ?t = "take 64 (drop i s)"
  from assms id_of_length_sound obtain m where m: "3 \<le> m" "m \<le> length (takeWhile id_char ?t)"
    "r = take m (drop i s)" "boundary s (i + m)" unfolding id_at_def by blast
  have len: "length (takeWhile id_char ?t) \<le> length ?t" by (rule length_takeWhile_le)
  then have m64: "m \<le> 64" "m \<le> length s - i" using m(2) by simp_all
  have "list_all id_char (take m ?t)" using takeWhile_prefix_all [OF m(2)] .
  moreover have "take m ?t = r" using m(3) m64(1) by (simp add: min_absorb1)
  ultimately have "list_all id_char r" by simp
  moreover have "length r = m" using m(1,3) m64 by simp
  ultimately show ?thesis
    using m m64 assms(2) unfolding found_id_def by (intro conjI exI [of _ i]) auto
qed

lemma after_keyword_sound: "after_keyword s i = Some r \<Longrightarrow> 4 \<le> i \<Longrightarrow> found_id s r"
  using id_at_sound [of s i r] id_at_sound [of s "Suc i" r]
  by (auto simp: after_keyword_def split: if_splits option.splits)

lemma try_keywords_sound:
  "try_keywords s i kws = Some r \<Longrightarrow> \<forall>kw \<in> set kws. 4 \<le> length kw \<Longrightarrow> found_id s r"
  by (induction s i kws rule: try_keywords.induct)
     (auto split: if_splits option.splits dest: after_keyword_sound)

lemma search_from_sound: "search_from s i n = Some r \<Longrightarrow> found_id s r"
proof (induction s i n rule: search_from.induct)
  case (2 s i n)
  have "\<forall>kw \<in> set id_keywords. 4 \<le> length kw" by (simp add: id_keywords_def)
  with 2 show ?case by (auto split: if_splits option.splits dest: try_keywords_sound)
qed simp

text \<open>The first alternative makes an id of the end of the word \<^verbatim>\<open>customer\<close> itself.\<close>

lemma customer_is_omer: "extract_customer_id ''Why was the customer charged?'' = Some ''omer''"
  by code_simp

section \<open>Properties\<close>

text \<open>The customer id is never the model's. Whatever the language model answers, a plan carries
  the id that was found in the question or none; an id that is found is a run of 3 to 64 letters,
  digits, hyphens and underscores of the question itself that ends at a word boundary. The
  accounting of the turn grows by exactly the tokens of the model's answer, and no tool is called.\<close>

theorem plan_id_from_question:
  assumes "planner_act rt llm system question run w = (r, run', w')"
  shows "(\<forall>p. r = Inr p \<longrightarrow> pn_customer_id p = extract_customer_id question) \<and>
    (\<forall>i. extract_customer_id question = Some i \<longrightarrow>
       3 \<le> length i \<and> length i \<le> 64 \<and> list_all id_char i \<and>
       (\<exists>pre post. question = pre @ i @ post \<and> boundary question (length pre + length i))) \<and>
    ag_tool_calls run' = ag_tool_calls run \<and>
    (case fst (llm system (planner_messages question) 400 w) of
       Inl x \<Rightarrow> r = Inl x \<and> run' = run
     | Inr resp \<Rightarrow> ag_tokens_in run' = ag_tokens_in run + lr_input_tokens resp \<and>
         ag_tokens_out run' = ag_tokens_out run + lr_output_tokens resp)"
proof -
  have "r = Inr p \<Longrightarrow> pn_customer_id p = extract_customer_id question" for p
    using assms by (auto simp: planner_act_def Let_def res_simps plan_of_def split: prod.splits)
  moreover have "3 \<le> length i \<and> length i \<le> 64 \<and> list_all id_char i \<and>
       (\<exists>pre post. question = pre @ i @ post \<and> boundary question (length pre + length i))"
    if "extract_customer_id question = Some i" for i
  proof -
    have f: "found_id question i" using that by (simp add: extract_customer_id_def search_from_sound)
    then obtain j where j: "j + length i \<le> length question" "i = take (length i) (drop j question)"
      "boundary question (j + length i)" by (auto simp: found_id_def)
    have "question = take j question @ i @ drop (j + length i) question"
      by (metis add.commute append_take_drop_id drop_drop j(2))
    moreover have "length (take j question) = j" using j(1) by simp
    ultimately show ?thesis using f j(3) unfolding found_id_def by metis
  qed
  moreover have "ag_tool_calls run' = ag_tool_calls run"
    "case fst (llm system (planner_messages question) 400 w) of
       Inl x \<Rightarrow> r = Inl x \<and> run' = run
     | Inr resp \<Rightarrow> ag_tokens_in run' = ag_tokens_in run + lr_input_tokens resp \<and>
         ag_tokens_out run' = ag_tokens_out run + lr_output_tokens resp"
    using assms by (auto simp: planner_act_def Let_def complete_json_def complete_text_def split: prod.splits sum.splits)
  ultimately show ?thesis by blast
qed

definition fixed_llm :: "string \<Rightarrow> 'w llm" where
  "fixed_llm text system messages max_tokens w =
     (Inr \<lparr>lr_blocks = [(''text'', text)], lr_input_tokens = 7, lr_output_tokens = 3\<rparr>, w)"

theorem plan_id_from_question_witness:
  "ag_tokens_in (fst (snd (planner_act plain_runtime (fixed_llm '''') ''s'' ''refund for CUST-1234?'' (new_run ''r'') (0::nat)))) = 7 \<and>
   extract_customer_id ''refund for CUST-1234?'' = Some ''1234''"
proof -
  obtain r run' w' where d: "planner_act plain_runtime (fixed_llm '''') ''s'' ''refund for CUST-1234?''
      (new_run ''r'') (0::nat) = (r, run', w')" by (metis prod_cases3)
  have "extract_customer_id ''refund for CUST-1234?'' = Some ''1234''" by code_simp
  with plan_id_from_question [OF d] d show ?thesis by (simp add: fixed_llm_def new_run_def)
qed

end
