(* ===== verification/Copilot.thy ===== *)
theory Copilot
  imports Planner Prompts
begin

text \<open>
  The agents behind the planner and the copilot that runs them (\<^verbatim>\<open>agents/retriever.py\<close>,
  \<^verbatim>\<open>agents/synthesizer.py\<close>, \<^verbatim>\<open>agents/critic.py\<close>, \<^verbatim>\<open>agents/orchestrator.py\<close>). The language model and
  the tool server are parameters and may answer anything; what is proved bounds what the agents
  do with the answers.
\<close>

record 'w copilot =
  cp_runtime :: runtime
  cp_llm :: "'w llm"
  cp_mcp :: "'w mcp_transport"
  cp_max_iterations :: nat
  cp_new_run_id :: "'w \<Rightarrow> string"

abbreviation nl :: string where "nl \<equiv> [CHR 0x0A]"

definition user_message :: "string \<Rightarrow> message" where
  "user_message text = \<lparr>ms_role = ''user'', ms_content = text\<rparr>"

definition assistant_message :: "string \<Rightarrow> message" where
  "assistant_message text = \<lparr>ms_role = ''assistant'', ms_content = text\<rparr>"

section \<open>The retriever\<close>

definition retriever_tools :: "string list" where
  "retriever_tools = [''customer.build_context'', ''semantic_search'', ''hybrid_search'', ''postgres.query'',
     ''elasticsearch.search'', ''vector.search'']"

record finding =
  fi_source :: string
  fi_summary :: string
  fi_raw :: json

record retrieval_result =
  rr_findings :: "finding list"
  rr_iterations_used :: nat
  rr_exceeded_budget :: bool

text \<open>Membership of a value in the frozen set; a list or a dictionary cannot be hashed.\<close>

definition tool_allowed :: "json \<Rightarrow> bool outcome" where
  "tool_allowed j =
     (case j of
        JStr s \<Rightarrow> Inr (s \<in> set retriever_tools)
      | JList _ \<Rightarrow> Inl (Py_Exc ''TypeError'' (''unhashable type: '' @ [sq_char] @ ''list'' @ [sq_char]))
      | JObj _ \<Rightarrow> Inl (Py_Exc ''TypeError'' (''unhashable type: '' @ [sq_char] @ ''dict'' @ [sq_char]))
      | _ \<Rightarrow> Inr False)"

fun keep_allowed :: "json list \<Rightarrow> json list outcome" where
  "keep_allowed [] = Inr []"
| "keep_allowed (t # ts) =
     bind_res (py_get ''name'' JNull t) (\<lambda>name.
     bind_res (tool_allowed name) (\<lambda>ok.
     bind_res (keep_allowed ts) (\<lambda>rest. Inr (if ok then t # rest else rest))))"

definition fetch_tool_specs :: "'w mcp_transport \<Rightarrow> 'w \<Rightarrow> json list outcome \<times> 'w" where
  "fetch_tool_specs mt w =
     (case mcp_list_tools mt w of (r, w1) \<Rightarrow> (bind_res r keep_allowed, w1))"

definition spec_line :: "runtime \<Rightarrow> json \<Rightarrow> string outcome" where
  "spec_line rt t =
     bind_res (py_item ''name'' t) (\<lambda>name.
     bind_res (py_get ''description'' (JStr '''') t) (\<lambda>d. Inr (''- '' @ py_str rt name @ '': '' @ py_str rt d)))"

definition answer_formats :: string where
  "answer_formats =
     ''Respond with EITHER {'' @ [dq_char] @ ''tool'' @ [dq_char] @ '': '' @ [dq_char] @ ''<name>'' @ [dq_char] @ '', ''
     @ [dq_char] @ ''arguments'' @ [dq_char] @ '': {...}} to call a tool, OR {'' @ [dq_char] @ ''done'' @ [dq_char]
     @ '': true, '' @ [dq_char] @ ''findings'' @ [dq_char] @ '': [{'' @ [dq_char] @ ''source'' @ [dq_char] @ '': ''
     @ [dq_char] @ ''<tool>'' @ [dq_char] @ '', '' @ [dq_char] @ ''summary'' @ [dq_char] @ '': '' @ [dq_char] @ ''...''
     @ [dq_char] @ ''}]} when you have enough information.''"

definition initial_prompt :: "runtime \<Rightarrow> string \<Rightarrow> plan \<Rightarrow> json list \<Rightarrow> string outcome" where
  "initial_prompt rt question plan specs =
     bind_res (map_res (spec_line rt) specs) (\<lambda>tool_lines.
       Inr (py_join nl
         ([''Customer question: '' @ question, '''',
           ''Customer id (if extracted): '' @ or_str (pn_customer_id plan) ''<unknown>'', '''', ''Retrieval plan:'']
          @ map (\<lambda>s. ''- ['' @ ps_id s @ ''] (p'' @ str_of_int (ps_priority s) @ '') '' @ ps_description s) (pn_needs plan)
          @ ['''', ''Available tools:''] @ tool_lines @ ['''', answer_formats])))"

text \<open>The ellipsis is outside the model's characters; it is its three UTF-8 bytes here.\<close>

definition summarise_result :: "nat \<Rightarrow> string \<Rightarrow> string" where
  "summarise_result max_chars text =
     (if length text \<le> max_chars then text
      else take max_chars text @ [CHR 0xE2, CHR 0x80, CHR 0xA6] @ '' (truncated)'')"

definition no_tool_reminder :: string where
  "no_tool_reminder =
     ''Your last response had no `tool` and no `done`. Emit {'' @ [dq_char] @ ''done'' @ [dq_char] @ '': true, ''
     @ [dq_char] @ ''findings'' @ [dq_char] @ '': [...]} if you have enough, otherwise {'' @ [dq_char] @ ''tool''
     @ [dq_char] @ '': '' @ [dq_char] @ ''<name>'' @ [dq_char] @ '', '' @ [dq_char] @ ''arguments'' @ [dq_char] @ '': {...}}.''"

definition model_finding :: "runtime \<Rightarrow> json \<Rightarrow> finding outcome" where
  "model_finding rt f =
     bind_res (py_get ''source'' (JStr '''') f) (\<lambda>s.
     bind_res (py_get ''summary'' (JStr '''') f) (\<lambda>t.
       Inr \<lparr>fi_source = py_str rt s, fi_summary = py_str rt t, fi_raw = JNull\<rparr>))"

definition not_allowed_result :: "runtime \<Rightarrow> json \<Rightarrow> tool_result" where
  "not_allowed_result rt name =
     \<lparr>tr_ok = False, tr_value = JNull, tr_error_code = Some ''tool_not_allowed'', tr_retryable = False,
      tr_hint = Some (py_repr_json rt name @ '' is not in the retriever'' @ [sq_char] @ ''s allow-list'')\<rparr>"

definition observed :: "runtime \<Rightarrow> json \<Rightarrow> json \<Rightarrow> string \<Rightarrow> message list \<Rightarrow> message list" where
  "observed rt decision name observation messages =
     messages @ [assistant_message (dumps rt decision),
       user_message (''Tool `'' @ py_str rt name @ ''` result:'' @ nl @ observation @ nl @ nl @ ''Decide next step.'')]"

text \<open>
  The loop: \<open>n\<close> iterations are left and \<open>used\<close> have been used. It ends when the model is done, when
  an exception escapes, or when no iterations are left.
\<close>

fun retrieve ::
    "'w copilot \<Rightarrow> nat \<Rightarrow> nat \<Rightarrow> message list \<Rightarrow> finding list \<Rightarrow> agent_run \<Rightarrow> 'w
       \<Rightarrow> retrieval_result outcome \<times> agent_run \<times> 'w" where
  "retrieve cp 0 used messages findings run w =
     (Inr \<lparr>rr_findings = findings, rr_iterations_used = used, rr_exceeded_budget = True\<rparr>, run, w)"
| "retrieve cp (Suc n) used messages findings run w =
     (let rt = cp_runtime cp; layout = mt_layout (cp_mcp cp)
      in case complete_json rt (cp_llm cp) retriever_system messages 800 run w of
           (Inl x, run1, w1) \<Rightarrow> (Inl x, run1, w1)
         | (Inr decision, run1, w1) \<Rightarrow>
             (case (py_get ''done'' JNull decision, py_get ''tool'' JNull decision, py_get ''arguments'' JNull decision) of
                (Inr done_, Inr name, Inr raw_args) \<Rightarrow>
                  let arguments = (if truthy raw_args then raw_args else JObj [])
                  in if truthy done_ then
                       (bind_res (py_get ''findings'' (JList []) decision) (\<lambda>fs.
                        bind_res (py_iter fs) (\<lambda>fl.
                        bind_res (map_res (model_finding rt) fl) (\<lambda>more.
                          Inr \<lparr>rr_findings = findings @ more, rr_iterations_used = Suc used,
                               rr_exceeded_budget = False\<rparr>))), run1, w1)
                     else if \<not> truthy name then
                       retrieve cp n (Suc used)
                         (messages @ [assistant_message (dumps rt decision), user_message no_tool_reminder])
                         findings run1 w1
                     else
                       (case tool_allowed name of
                          Inl x \<Rightarrow> (Inl x, run1, w1)
                        | Inr False \<Rightarrow>
                            retrieve cp n (Suc used)
                              (observed rt decision name (layout (observation_value (not_allowed_result rt name))) messages)
                              findings run1 w1
                        | Inr True \<Rightarrow>
                            (let run2 = run1\<lparr>ag_tool_calls := ag_tool_calls run1 + 1\<rparr>
                             in case mcp_call_tool rt (cp_mcp cp) (py_str rt name) arguments w1 of
                                  (Inl x, w2) \<Rightarrow> (Inl x, run2, w2)
                                | (Inr tr, w2) \<Rightarrow>
                                    retrieve cp n (Suc used)
                                      (observed rt decision name (layout (observation_value tr)) messages)
                                      (findings @ [\<lparr>fi_source = py_str rt name,
                                         fi_summary = summarise_result 500 (layout (observation_value tr)),
                                         fi_raw = tr_value tr\<rparr>])
                                      run2 w2))
              | (Inl x, _, _) \<Rightarrow> (Inl x, run1, w1)
              | (_, Inl x, _) \<Rightarrow> (Inl x, run1, w1)
              | (_, _, Inl x) \<Rightarrow> (Inl x, run1, w1)))"

definition retriever_act ::
    "'w copilot \<Rightarrow> plan \<Rightarrow> string \<Rightarrow> agent_run \<Rightarrow> 'w \<Rightarrow> retrieval_result outcome \<times> agent_run \<times> 'w" where
  "retriever_act cp plan question run w =
     (case fetch_tool_specs (cp_mcp cp) w of
        (Inl x, w1) \<Rightarrow> (Inl x, run, w1)
      | (Inr specs, w1) \<Rightarrow>
          (case initial_prompt (cp_runtime cp) question plan specs of
             Inl x \<Rightarrow> (Inl x, run, w1)
           | Inr prompt \<Rightarrow> retrieve cp (cp_max_iterations cp) 0 [user_message prompt] [] run w1))"

section \<open>The synthesizer\<close>

record draft =
  dr_text :: string
  dr_citations :: "string list"

fun findings_lines :: "nat \<Rightarrow> finding list \<Rightarrow> string list" where
  "findings_lines i [] = []"
| "findings_lines i (f # fs) =
     (''[S'' @ str_of_nat i @ ''] '' @ fi_source f @ '': '' @ fi_summary f) # findings_lines (Suc i) fs"

definition findings_block :: "finding list \<Rightarrow> string" where
  "findings_block fs = py_join nl (findings_lines 1 fs)"

text \<open>The anchors \<^verbatim>\<open>\[S\d+\]\<close> of a text, from left to right.\<close>

definition anchor_at :: "string \<Rightarrow> string option" where
  "anchor_at s =
     (if startswith s ''[S'' then
        (let ds = takeWhile is_digit (drop 2 s)
         in if ds \<noteq> [] \<and> startswith (drop (2 + length ds) s) '']''
            then Some (''[S'' @ ds @ '']'') else None)
      else None)"

function anchors :: "string \<Rightarrow> string list" where
  "anchors [] = []"
| "anchors (c # cs) =
     (case anchor_at (c # cs) of
        Some a \<Rightarrow> a # anchors (drop (length a) (c # cs))
      | None \<Rightarrow> anchors cs)"
  by pat_completeness auto
termination
  by (relation "measure length") (auto simp: anchor_at_def Let_def split: if_splits)

definition extract_citations :: "string \<Rightarrow> string list" where
  "extract_citations text = sort (remdups (anchors text))"

definition synthesizer_act ::
    "'w copilot \<Rightarrow> string \<Rightarrow> finding list \<Rightarrow> agent_run \<Rightarrow> 'w \<Rightarrow> draft outcome \<times> agent_run \<times> 'w" where
  "synthesizer_act cp question findings run w =
     (case complete_text (cp_llm cp) synthesizer_system
             [user_message (''Customer question:'' @ nl @ question @ nl @ nl @ ''Findings:'' @ nl
                @ findings_block findings @ nl @ nl
                @ ''Write the draft reply. Use [S1], [S2]... anchors to cite findings.'')] 400 run w of
        (r, run1, w1) \<Rightarrow>
          (bind_res r (\<lambda>text. Inr \<lparr>dr_text = py_strip text, dr_citations = extract_citations text\<rparr>), run1, w1))"

section \<open>The critic\<close>

record verdict =
  vd_approved :: bool
  vd_issues :: "string list"
  vd_revision_hints :: json

definition verdict_of :: "runtime \<Rightarrow> json \<Rightarrow> verdict outcome" where
  "verdict_of rt data =
     bind_res (py_get ''verdict'' JNull data) (\<lambda>v.
     bind_res (py_get ''issues'' (JList []) data) (\<lambda>issues.
     bind_res (py_iter issues) (\<lambda>is.
     bind_res (py_get ''revision_hints'' JNull data) (\<lambda>hints.
       Inr \<lparr>vd_approved = (v = JStr ''approve''), vd_issues = map (py_str rt) is, vd_revision_hints = hints\<rparr>))))"

definition critic_act ::
    "'w copilot \<Rightarrow> string \<Rightarrow> finding list \<Rightarrow> draft \<Rightarrow> agent_run \<Rightarrow> 'w \<Rightarrow> verdict outcome \<times> agent_run \<times> 'w" where
  "critic_act cp question findings d run w =
     (case complete_json (cp_runtime cp) (cp_llm cp) critic_system
             [user_message (''Customer question:'' @ nl @ question @ nl @ nl @ ''Findings:'' @ nl
                @ findings_block findings @ nl @ nl @ ''Draft:'' @ nl @ dr_text d @ nl @ nl
                @ ''Evaluate the draft against the rules and emit the verdict JSON.'')] 400 run w of
        (r, run1, w1) \<Rightarrow> (bind_res r (verdict_of (cp_runtime cp)), run1, w1))"

section \<open>The copilot\<close>

record copilot_response =
  cr_draft :: string
  cr_approved :: bool
  cr_citations :: "string list"
  cr_plan :: plan
  cr_retrieval :: retrieval_result
  cr_critic :: verdict
  cr_run :: agent_run

definition short_circuit :: "agent_run \<Rightarrow> plan \<Rightarrow> string \<Rightarrow> copilot_response" where
  "short_circuit run plan message =
     \<lparr>cr_draft = message, cr_approved = True, cr_citations = [], cr_plan = plan,
      cr_retrieval = \<lparr>rr_findings = [], rr_iterations_used = 0, rr_exceeded_budget = False\<rparr>,
      cr_critic = \<lparr>vd_approved = True, vd_issues = [], vd_revision_hints = JNull\<rparr>, cr_run = run\<rparr>"

definition revision_block :: "runtime \<Rightarrow> draft \<Rightarrow> verdict \<Rightarrow> string" where
  "revision_block rt first_draft v =
     nl @ nl @ ''YOUR PREVIOUS DRAFT WAS REJECTED:'' @ nl @ dr_text first_draft @ nl @ nl
     @ ''Issues flagged by the critic:'' @ nl @ py_join nl (map (\<lambda>i. ''- '' @ i) (vd_issues v))
     @ (if truthy (vd_revision_hints v)
        then nl @ nl @ ''Revision hints: '' @ py_str rt (vd_revision_hints v) else '''')"

definition revise ::
    "'w copilot \<Rightarrow> string \<Rightarrow> retrieval_result \<Rightarrow> draft \<Rightarrow> verdict \<Rightarrow> agent_run \<Rightarrow> 'w
       \<Rightarrow> draft outcome \<times> agent_run \<times> 'w" where
  "revise cp question retrieval first_draft v run w =
     synthesizer_act cp (question @ revision_block (cp_runtime cp) first_draft v) (rr_findings retrieval) run w"

definition missing_id_message :: string where
  "missing_id_message = ''I couldn'' @ [sq_char] @ ''t find a customer id in that question. ''
     @ ''Please include it (e.g. CUST-1234) and I'' @ [sq_char] @ ''ll try again.''"

definition nothing_found_message :: string where
  "nothing_found_message = ''I wasn'' @ [sq_char] @ ''t able to find any relevant information in our systems. ''
     @ ''Please double-check the customer id and question.''"

text \<open>An exception of any step ends the turn.\<close>

definition next_step ::
    "'a outcome \<times> agent_run \<times> 'w \<Rightarrow> ('a \<Rightarrow> agent_run \<Rightarrow> 'w \<Rightarrow> 'b outcome \<times> agent_run \<times> 'w)
       \<Rightarrow> 'b outcome \<times> agent_run \<times> 'w" where
  "next_step rw f = (case rw of (Inl x, run, w) \<Rightarrow> (Inl x, run, w) | (Inr v, run, w) \<Rightarrow> f v run w)"

definition respond ::
    "plan \<Rightarrow> retrieval_result \<Rightarrow> draft \<Rightarrow> verdict \<Rightarrow> agent_run \<Rightarrow> 'w \<Rightarrow> copilot_response outcome \<times> agent_run \<times> 'w" where
  "respond plan retrieval d v run w =
     (Inr \<lparr>cr_draft = dr_text d, cr_approved = vd_approved v, cr_citations = dr_citations d, cr_plan = plan,
           cr_retrieval = retrieval, cr_critic = v, cr_run = run\<rparr>, run, w)"

definition synthesize_and_review ::
    "'w copilot \<Rightarrow> string \<Rightarrow> plan \<Rightarrow> retrieval_result \<Rightarrow> agent_run \<Rightarrow> 'w
       \<Rightarrow> copilot_response outcome \<times> agent_run \<times> 'w" where
  "synthesize_and_review cp question plan retrieval run w =
     next_step (synthesizer_act cp question (rr_findings retrieval) run w) (\<lambda>d run w.
     next_step (critic_act cp question (rr_findings retrieval) d run w) (\<lambda>v run w.
       if \<not> vd_approved v then
         next_step (revise cp question retrieval d v run w) (\<lambda>d2 run w.
         next_step (critic_act cp question (rr_findings retrieval) d2 run w) (\<lambda>v2 run w.
           respond plan retrieval d2 v2 run w))
       else respond plan retrieval d v run w))"

definition answer :: "'w copilot \<Rightarrow> string \<Rightarrow> 'w \<Rightarrow> copilot_response outcome \<times> agent_run \<times> 'w" where
  "answer cp question w =
     next_step (planner_act (cp_runtime cp) (cp_llm cp) planner_system question (new_run (cp_new_run_id cp w)) w)
       (\<lambda>plan run w.
          if pn_customer_id_required plan \<and> or_str (pn_customer_id plan) '''' = ''''
          then (Inr (short_circuit run plan missing_id_message), run, w)
          else
            next_step (retriever_act cp plan question run w) (\<lambda>retrieval run w.
              if rr_findings retrieval = []
              then (Inr (short_circuit run plan nothing_found_message), run, w)
              else synthesize_and_review cp question plan retrieval run w))"

definition plan_step_json :: "plan_step \<Rightarrow> json" where
  "plan_step_json s = JObj [(''id'', JStr (ps_id s)), (''description'', JStr (ps_description s)),
     (''priority'', JInt (ps_priority s))]"

definition response_json :: "copilot_response \<Rightarrow> (string \<times> json) list" where
  "response_json r =
     [(''draft'', JStr (cr_draft r)), (''approved'', JBool (cr_approved r)),
      (''citations'', JList (map JStr (cr_citations r))), (''run_id'', JStr (ag_run_id (cr_run r))),
      (''tokens_in'', JInt (ag_tokens_in (cr_run r))), (''tokens_out'', JInt (ag_tokens_out (cr_run r))),
      (''tool_calls'', JInt (ag_tool_calls (cr_run r))),
      (''plan'', JObj [(''customer_id'', json_opt_str (pn_customer_id (cr_plan r))),
         (''needs'', JList (map plan_step_json (pn_needs (cr_plan r)))), (''notes'', JStr (pn_notes (cr_plan r)))]),
      (''retrieval'', JObj [(''iterations_used'', JInt (int (rr_iterations_used (cr_retrieval r)))),
         (''exceeded_budget'', JBool (rr_exceeded_budget (cr_retrieval r))),
         (''findings_count'', JInt (int (length (rr_findings (cr_retrieval r)))))]),
      (''critic'', JObj [(''approved'', JBool (vd_approved (cr_critic r))),
         (''issues'', JList (map JStr (vd_issues (cr_critic r)))), (''revision_hints'', vd_revision_hints (cr_critic r))])]"

end
