(* ===== verification/Copilot_Correct.thy ===== *)
theory Copilot_Correct
  imports Copilot
begin

text \<open>
  The bounds of a turn of the copilot, whatever the language model and the tool server answer:
  how often either is asked, which tools are called, and when a draft counts as approved.
\<close>

section \<open>What a completion does\<close>

lemma complete_json_state:
  "snd (snd (complete_json rt llm sys ms n run w)) = snd (llm sys ms n w)"
  "ag_tool_calls (fst (snd (complete_json rt llm sys ms n run w))) = ag_tool_calls run"
  by (simp_all add: complete_json_def complete_text_def split: prod.split sum.split)

lemma complete_text_state:
  "snd (snd (complete_text llm sys ms n run w)) = snd (llm sys ms n w)"
  "ag_tool_calls (fst (snd (complete_text llm sys ms n run w))) = ag_tool_calls run"
  by (simp_all add: complete_text_def split: prod.split sum.split)

section \<open>The loop of the retriever\<close>

text \<open>One iteration: the loop ends with a result that does not depend on what is left, or goes on.\<close>

datatype 'w iteration =
    Ends "retrieval_result outcome" agent_run 'w
  | Goes_On "message list" "finding list" agent_run 'w

definition iterate :: "'w copilot \<Rightarrow> nat \<Rightarrow> message list \<Rightarrow> finding list \<Rightarrow> agent_run \<Rightarrow> 'w \<Rightarrow> 'w iteration" where
  "iterate cp used messages findings run w =
     (let rt = cp_runtime cp; layout = mt_layout (cp_mcp cp)
      in case complete_json rt (cp_llm cp) retriever_system messages 800 run w of
           (Inl x, run1, w1) \<Rightarrow> Ends (Inl x) run1 w1
         | (Inr decision, run1, w1) \<Rightarrow>
             (case (py_get ''done'' JNull decision, py_get ''tool'' JNull decision, py_get ''arguments'' JNull decision) of
                (Inr done_, Inr name, Inr raw_args) \<Rightarrow>
                  let arguments = (if truthy raw_args then raw_args else JObj [])
                  in if truthy done_ then
                       Ends (bind_res (py_get ''findings'' (JList []) decision) (\<lambda>fs.
                        bind_res (py_iter fs) (\<lambda>fl.
                        bind_res (map_res (model_finding rt) fl) (\<lambda>more.
                          Inr \<lparr>rr_findings = findings @ more, rr_iterations_used = Suc used,
                               rr_exceeded_budget = False\<rparr>)))) run1 w1
                     else if \<not> truthy name then
                       Goes_On (messages @ [assistant_message (dumps rt decision), user_message no_tool_reminder])
                         findings run1 w1
                     else
                       (case tool_allowed name of
                          Inl x \<Rightarrow> Ends (Inl x) run1 w1
                        | Inr False \<Rightarrow>
                            Goes_On (observed rt decision name (layout (observation_value (not_allowed_result rt name))) messages)
                              findings run1 w1
                        | Inr True \<Rightarrow>
                            (let run2 = run1\<lparr>ag_tool_calls := ag_tool_calls run1 + 1\<rparr>
                             in case mcp_call_tool rt (cp_mcp cp) (py_str rt name) arguments w1 of
                                  (Inl x, w2) \<Rightarrow> Ends (Inl x) run2 w2
                                | (Inr tr, w2) \<Rightarrow>
                                    Goes_On (observed rt decision name (layout (observation_value tr)) messages)
                                      (findings @ [\<lparr>fi_source = py_str rt name,
                                         fi_summary = summarise_result 500 (layout (observation_value tr)),
                                         fi_raw = tr_value tr\<rparr>])
                                      run2 w2))
              | (Inl x, _, _) \<Rightarrow> Ends (Inl x) run1 w1
              | (_, Inl x, _) \<Rightarrow> Ends (Inl x) run1 w1
              | (_, _, Inl x) \<Rightarrow> Ends (Inl x) run1 w1))"

lemma retrieve_iterate:
  "retrieve cp (Suc n) used messages findings run w =
     (case iterate cp used messages findings run w of
        Ends r run1 w1 \<Rightarrow> (r, run1, w1)
      | Goes_On ms fs run1 w1 \<Rightarrow> retrieve cp n (Suc used) ms fs run1 w1)"
  by (simp add: iterate_def Let_def split: prod.split sum.split bool.split)

lemmas iterate_splits = prod.split sum.split bool.split

lemma iterate_calls:
  "case iterate cp used ms fs run w of
     Ends r run1 w1 \<Rightarrow> ag_tool_calls run \<le> ag_tool_calls run1 \<and> ag_tool_calls run1 \<le> ag_tool_calls run + 1 \<and>
       (\<forall>res. r = Inr res \<longrightarrow> ag_tool_calls run1 = ag_tool_calls run \<and> rr_iterations_used res = Suc used \<and>
          \<not> rr_exceeded_budget res \<and> prefix fs (rr_findings res))
   | Goes_On ms1 fs1 run1 w1 \<Rightarrow> ag_tool_calls run \<le> ag_tool_calls run1 \<and>
       ag_tool_calls run1 \<le> ag_tool_calls run + 1 \<and> prefix fs fs1 \<and>
       int (length fs1) - int (length fs) = ag_tool_calls run1 - ag_tool_calls run"
proof -
  obtain r run1 w1 where c: "complete_json (cp_runtime cp) (cp_llm cp) retriever_system ms 800 run w = (r, run1, w1)"
    by (metis prod_cases3)
  have t: "ag_tool_calls run1 = ag_tool_calls run"
    using complete_json_state(2) [of "cp_runtime cp" "cp_llm cp" retriever_system ms 800 run w] c by simp
  show ?thesis
    by (auto simp: iterate_def Let_def c t res_simps split: iterate_splits)
qed

lemma retrieve_bounds:
  assumes "retrieve cp n used ms fs run w = (r, run', w')"
  shows "ag_tool_calls run \<le> ag_tool_calls run' \<and> ag_tool_calls run' \<le> ag_tool_calls run + int n \<and>
    (\<forall>res. r = Inr res \<longrightarrow> used \<le> rr_iterations_used res \<and> rr_iterations_used res \<le> used + n \<and>
       ag_tool_calls run' - ag_tool_calls run \<le> int (rr_iterations_used res) - int used \<and>
       (rr_exceeded_budget res \<longrightarrow> rr_iterations_used res = used + n) \<and> prefix fs (rr_findings res))"
  using assms
proof (induction n arbitrary: used ms fs run w)
  case 0
  then show ?case by auto
next
  case (Suc n)
  show ?case
  proof (cases "iterate cp used ms fs run w")
    case (Ends r1 run1 w1)
    with Ends iterate_calls [where cp = cp and used = used and ms = ms and fs = fs and run = run and w = w] Suc.prems show ?thesis
      by (auto simp: retrieve_iterate simp del: retrieve.simps)
  next
    case (Goes_On ms1 fs1 run1 w1)
    with iterate_calls [where cp = cp and used = used and ms = ms and fs = fs and run = run and w = w] Suc.prems Suc.IH [of "Suc used" ms1 fs1 run1 w1] show ?thesis
      by (fastforce simp: retrieve_iterate simp del: retrieve.simps dest: prefix_order.trans)
  qed
qed

section \<open>What the outside sees\<close>

text \<open>A counter of the world that only a completion moves, and by at most one.\<close>

definition counts_completions :: "('w \<Rightarrow> nat) \<Rightarrow> 'w copilot \<Rightarrow> bool" where
  "counts_completions cnt cp \<longleftrightarrow>
     (\<forall>sys ms n w. cnt (snd (cp_llm cp sys ms n w)) \<le> cnt w + 1) \<and>
     (\<forall>body hs w. cnt (snd (mt_post (cp_mcp cp) body hs w)) \<le> cnt w)"

lemma llm_count: "counts_completions cnt cp \<Longrightarrow> cnt (snd (cp_llm cp sys ms n w)) \<le> cnt w + 1"
  by (simp add: counts_completions_def)

lemma rpc_state:
  "\<exists>body hs. snd (rpc mt meth params w) = snd (mt_post mt body hs w)"
proof -
  let ?body = "[(''jsonrpc'', JStr ''2.0''), (''id'', JStr (mt_new_id mt w)), (''method'', JStr meth), (''params'', JObj params)]"
  let ?hs = "case mt_session_id mt of None \<Rightarrow> [] | Some s \<Rightarrow> if s = '''' then [] else [(''Mcp-Session-Id'', s)]"
  have "snd (rpc mt meth params w) = snd (mt_post mt ?body ?hs w)"
    unfolding rpc_def by (simp split: prod.split sum.split option.split)
  then show ?thesis by blast
qed

lemma rpc_count: "counts_completions cnt cp \<Longrightarrow> cnt (snd (rpc (cp_mcp cp) meth params w)) \<le> cnt w"
  using rpc_state [of "cp_mcp cp" meth params w] by (auto simp: counts_completions_def)

lemma mcp_call_count:
  assumes "counts_completions cnt cp"
  shows "cnt (snd (mcp_call_tool rt (cp_mcp cp) name arguments w)) \<le> cnt w"
proof -
  have "snd (mcp_call_tool rt (cp_mcp cp) name arguments w) =
      snd (rpc (cp_mcp cp) ''tools/call'' [(''name'', JStr name), (''arguments'', arguments)] w)"
    by (simp add: mcp_call_tool_def split: prod.split rpc_result.split)
  with rpc_count [OF assms] show ?thesis by simp
qed

lemma specs_count:
  assumes "counts_completions cnt cp"
  shows "cnt (snd (fetch_tool_specs (cp_mcp cp) w)) \<le> cnt w"
proof -
  have "snd (fetch_tool_specs (cp_mcp cp) w) = snd (rpc (cp_mcp cp) ''tools/list'' [] w)"
    by (simp add: fetch_tool_specs_def mcp_list_tools_def split: prod.split rpc_result.split)
  with rpc_count [OF assms] show ?thesis by simp
qed

lemma iterate_count:
  assumes "counts_completions cnt cp"
  shows "case iterate cp used ms fs run w of
     Ends r run1 w1 \<Rightarrow> cnt w1 \<le> cnt w + 1
   | Goes_On ms1 fs1 run1 w1 \<Rightarrow> cnt w1 \<le> cnt w + 1"
proof -
  obtain r run1 w1 where c: "complete_json (cp_runtime cp) (cp_llm cp) retriever_system ms 800 run w = (r, run1, w1)"
    by (metis prod_cases3)
  then have w1: "cnt w1 \<le> Suc (cnt w)"
    using complete_json_state(1) [of "cp_runtime cp" "cp_llm cp" retriever_system ms 800 run w]
      llm_count [OF assms, of retriever_system ms 800 w] by simp
  have call: "cnt w2 \<le> Suc (cnt w)" if "mcp_call_tool (cp_runtime cp) (cp_mcp cp) name arguments w1 = (x, w2)" for name arguments x w2
    using mcp_call_count [OF assms, of "cp_runtime cp" name arguments w1] that w1 by simp
  show ?thesis
    using w1 by (auto simp: iterate_def Let_def c split: iterate_splits intro: call)
qed

lemma retrieve_count:
  assumes "counts_completions cnt cp"
  shows "cnt (snd (snd (retrieve cp n used ms fs run w))) \<le> cnt w + n"
proof (induction n arbitrary: used ms fs run w)
  case (Suc n)
  show ?case
  proof (cases "iterate cp used ms fs run w")
    case (Ends r1 run1 w1)
    with iterate_count [OF assms, where used = used and ms = ms and fs = fs and run = run and w = w] show ?thesis
      by (simp add: retrieve_iterate del: retrieve.simps)
  next
    case (Goes_On ms1 fs1 run1 w1)
    with iterate_count [OF assms, where used = used and ms = ms and fs = fs and run = run and w = w]
      Suc.IH [of "Suc used" ms1 fs1 run1 w1] show ?thesis
      by (simp add: retrieve_iterate del: retrieve.simps)
  qed
qed simp

section \<open>Only the listed tools are called\<close>

text \<open>
  Two copilots that differ only in how the tool server answers a call of a tool that is not on the
  retriever's list.
\<close>

definition calls_unlisted :: "(string \<times> json) list \<Rightarrow> bool" where
  "calls_unlisted body \<longleftrightarrow>
     map_of body ''method'' = Some (JStr ''tools/call'') \<and>
     (\<forall>n \<in> set retriever_tools. dict_get ''name'' JNull (json_obj (dict_get ''params'' JNull body)) \<noteq> JStr n)"

definition same_to_retriever :: "'w copilot \<Rightarrow> 'w copilot \<Rightarrow> bool" where
  "same_to_retriever cp cp' \<longleftrightarrow>
     cp_runtime cp' = cp_runtime cp \<and> cp_llm cp' = cp_llm cp \<and> cp_max_iterations cp' = cp_max_iterations cp \<and>
     mt_new_id (cp_mcp cp') = mt_new_id (cp_mcp cp) \<and> mt_session_id (cp_mcp cp') = mt_session_id (cp_mcp cp) \<and>
     mt_layout (cp_mcp cp') = mt_layout (cp_mcp cp) \<and>
     (\<forall>body hs w. \<not> calls_unlisted body \<longrightarrow> mt_post (cp_mcp cp') body hs w = mt_post (cp_mcp cp) body hs w)"

lemma rpc_same:
  assumes "same_to_retriever cp cp'"
    and "meth = ''tools/call'' \<Longrightarrow> \<exists>n \<in> set retriever_tools. dict_get ''name'' JNull params = JStr n"
  shows "rpc (cp_mcp cp') meth params w = rpc (cp_mcp cp) meth params w"
proof -
  have "\<not> calls_unlisted [(''jsonrpc'', JStr ''2.0''), (''id'', JStr i), (''method'', JStr meth), (''params'', JObj params)]" for i
    using assms(2) by (auto simp: calls_unlisted_def dict_get_def [of "''params''"] json_obj_def)
  with assms(1) show ?thesis by (simp add: rpc_def same_to_retriever_def)
qed

lemma specs_same:
  "same_to_retriever cp cp' \<Longrightarrow> fetch_tool_specs (cp_mcp cp') w = fetch_tool_specs (cp_mcp cp) w"
  using rpc_same [of cp cp' "''tools/list''" "[]" w] by (simp add: fetch_tool_specs_def mcp_list_tools_def)

lemma tool_allowed_listed:
  "tool_allowed j = Inr True \<Longrightarrow> \<exists>n \<in> set retriever_tools. j = JStr n"
  by (cases j) (simp_all add: tool_allowed_def)

lemma call_same:
  assumes "same_to_retriever cp cp'" and "tool_allowed name = Inr True"
  shows "mcp_call_tool rt (cp_mcp cp') (py_str rt name) arguments w = mcp_call_tool rt (cp_mcp cp) (py_str rt name) arguments w"
proof -
  from tool_allowed_listed [OF assms(2)] obtain n where "n \<in> set retriever_tools" and "name = JStr n" by blast
  then have "\<exists>n \<in> set retriever_tools. dict_get ''name'' JNull [(''name'', JStr (py_str rt name)), (''arguments'', arguments)] = JStr n"
    by (simp add: dict_get_def py_str_def)
  from rpc_same [OF assms(1) this] show ?thesis by (simp add: mcp_call_tool_def)
qed

lemma iterate_same:
  assumes "same_to_retriever cp cp'"
  shows "iterate cp' used ms fs run w = iterate cp used ms fs run w"
proof -
  have eqs: "cp_runtime cp' = cp_runtime cp" "cp_llm cp' = cp_llm cp" "mt_layout (cp_mcp cp') = mt_layout (cp_mcp cp)"
    using assms by (simp_all add: same_to_retriever_def)
  show ?thesis
    unfolding iterate_def Let_def eqs
    by (intro prod.case_cong sum.case_cong refl if_cong bool.case_cong) (simp_all add: call_same [OF assms])
qed

lemma retrieve_same:
  assumes "same_to_retriever cp cp'"
  shows "retrieve cp' n used ms fs run w = retrieve cp n used ms fs run w"
  by (induction n arbitrary: used ms fs run w)
    (simp_all add: retrieve_iterate iterate_same [OF assms] del: retrieve.simps(2) split: iteration.split)

lemma retriever_same:
  assumes "same_to_retriever cp cp'"
  shows "retriever_act cp' plan question run w = retriever_act cp plan question run w"
proof -
  have eqs: "cp_runtime cp' = cp_runtime cp" "cp_max_iterations cp' = cp_max_iterations cp"
    using assms by (simp_all add: same_to_retriever_def)
  show ?thesis
    unfolding retriever_act_def eqs specs_same [OF assms] retrieve_same [OF assms] ..
qed

lemma retriever_act_cases:
  assumes "retriever_act cp plan question run w = (r, run', w')"
  obtains "run' = run" "\<forall>res. r \<noteq> Inr res" "w' = snd (fetch_tool_specs (cp_mcp cp) w)"
  | prompt w1 where "retrieve cp (cp_max_iterations cp) 0 [user_message prompt] [] run w1 = (r, run', w')"
      "w1 = snd (fetch_tool_specs (cp_mcp cp) w)"
proof -
  obtain specs w1 where f: "fetch_tool_specs (cp_mcp cp) w = (specs, w1)" by (rule prod.exhaust)
  show ?thesis
  proof (cases specs)
    case (Inl x)
    with assms f show ?thesis by (intro that(1)) (auto simp: retriever_act_def)
  next
    case (Inr ts)
    show ?thesis
    proof (cases "initial_prompt (cp_runtime cp) question plan ts")
      case (Inl x)
      with assms f \<open>specs = Inr ts\<close> show ?thesis by (intro that(1)) (auto simp: retriever_act_def)
    next
      case (Inr prompt)
      with assms f \<open>specs = Inr ts\<close> show ?thesis by (intro that(2) [of prompt w1]) (auto simp: retriever_act_def)
    qed
  qed
qed

section \<open>The bounds of a turn\<close>

text \<open>C18: The retriever's loop is bounded and confined to its list. Whatever the model answers, the
  loop asks for at most \<^verbatim>\<open>max_iterations\<close> tool calls and uses at most that many iterations, reports
  an exceeded budget only with all of them used, and what it does does not depend on how the
  tool server would answer a call of a tool that is not on the list: no such call is made.\<close>

theorem retriever_bounded:
  assumes "retriever_act cp plan question run w = (r, run', w')" and "same_to_retriever cp cp'"
  shows "retriever_act cp' plan question run w = (r, run', w') \<and>
    ag_tool_calls run \<le> ag_tool_calls run' \<and>
    ag_tool_calls run' \<le> ag_tool_calls run + int (cp_max_iterations cp) \<and>
    (\<forall>res. r = Inr res \<longrightarrow> rr_iterations_used res \<le> cp_max_iterations cp \<and>
       ag_tool_calls run' - ag_tool_calls run \<le> int (rr_iterations_used res) \<and>
       (rr_exceeded_budget res \<longrightarrow> rr_iterations_used res = cp_max_iterations cp))"
proof
  show "retriever_act cp' plan question run w = (r, run', w')"
    using assms(1) by (simp add: retriever_same [OF assms(2)])
next
  show "ag_tool_calls run \<le> ag_tool_calls run' \<and>
    ag_tool_calls run' \<le> ag_tool_calls run + int (cp_max_iterations cp) \<and>
    (\<forall>res. r = Inr res \<longrightarrow> rr_iterations_used res \<le> cp_max_iterations cp \<and>
       ag_tool_calls run' - ag_tool_calls run \<le> int (rr_iterations_used res) \<and>
       (rr_exceeded_budget res \<longrightarrow> rr_iterations_used res = cp_max_iterations cp))"
    using assms(1)
  proof (cases rule: retriever_act_cases)
    case 1
    then show ?thesis by simp
  next
    case (2 prompt w1)
    from retrieve_bounds [OF 2(1)] show ?thesis by simp
  qed
qed

text \<open>A model that gives one text and counts its completions, and a server with nothing to say.\<close>

definition counting_llm :: "string \<Rightarrow> nat llm" where
  "counting_llm text system messages max_tokens w =
     (Inr \<lparr>lr_blocks = [(''text'', text)], lr_input_tokens = 7, lr_output_tokens = 3\<rparr>, Suc w)"

definition quiet_copilot :: "string \<Rightarrow> (string \<times> json) list \<Rightarrow> nat copilot" where
  "quiet_copilot text unlisted =
     \<lparr>cp_runtime = plain_runtime, cp_llm = counting_llm text,
      cp_mcp = \<lparr>mt_post = \<lambda>body hs w. (Inr (if calls_unlisted body then unlisted else [(''result'', JObj [])]), w),
        mt_new_id = \<lambda>w. ''id'', mt_session_id = None, mt_layout = \<lambda>j. ''''\<rparr>,
      cp_max_iterations = 3, cp_new_run_id = \<lambda>w. ''run''\<rparr>"

lemma quiet_copilot_same: "same_to_retriever (quiet_copilot text a) (quiet_copilot text b)"
  by (simp add: same_to_retriever_def quiet_copilot_def)

lemma quiet_copilot_counts: "counts_completions (\<lambda>w. w) (quiet_copilot text a)"
  by (simp add: counts_completions_def quiet_copilot_def counting_llm_def)

definition quiet_plan :: plan where
  "quiet_plan = \<lparr>pn_needs = [], pn_customer_id_required = False, pn_notes = '''', pn_customer_id = None\<rparr>"

lemma next_step_count:
  assumes "cnt (snd (snd rw)) \<le> (c :: nat)"
    and "\<And>v run w. cnt (snd (snd (f v run w))) \<le> cnt w + k"
    and "c + k \<le> b"
  shows "cnt (snd (snd (next_step rw f))) \<le> b"
proof -
  obtain r run w where rw: "rw = (r, run, w)" by (cases rw)
  show ?thesis
  proof (cases r)
    case (Inl x)
    with rw assms(1,3) show ?thesis by (simp add: next_step_def)
  next
    case (Inr v)
    with rw assms(1,3) assms(2) [of v run w] show ?thesis by (simp add: next_step_def)
  qed
qed

lemma next_step_Inr:
  "next_step rw f = (Inr x, run', w') \<longleftrightarrow> (\<exists>v run w. rw = (Inr v, run, w) \<and> f v run w = (Inr x, run', w'))"
  by (cases rw) (auto simp: next_step_def split: sum.splits)

lemma act_counts:
  assumes "counts_completions cnt cp"
  shows "cnt (snd (snd (planner_act (cp_runtime cp) (cp_llm cp) sys q run w))) \<le> cnt w + 1"
    and "cnt (snd (snd (synthesizer_act cp q fs run w))) \<le> cnt w + 1"
    and "cnt (snd (snd (revise cp q retrieval d v run w))) \<le> cnt w + 1"
    and "cnt (snd (snd (critic_act cp q fs d run w))) \<le> cnt w + 1"
  using llm_count [OF assms]
  by (simp_all add: planner_act_def synthesizer_act_def revise_def critic_act_def Let_def case_prod_beta
      complete_json_state complete_text_state)

lemma retriever_count:
  assumes "counts_completions cnt cp"
  shows "cnt (snd (snd (retriever_act cp plan q run w))) \<le> cnt w + cp_max_iterations cp"
proof -
  obtain r run' w' where act: "retriever_act cp plan q run w = (r, run', w')" by (metis prod_cases3)
  have specs: "cnt (snd (fetch_tool_specs (cp_mcp cp) w)) \<le> cnt w" by (rule specs_count [OF assms])
  have "cnt w' \<le> cnt w + cp_max_iterations cp"
    using act
  proof (cases rule: retriever_act_cases)
    case 1
    with specs show ?thesis by simp
  next
    case (2 prompt w1)
    with specs retrieve_count [OF assms, of "cp_max_iterations cp" 0 "[user_message prompt]" "[]" run w1]
    show ?thesis by simp
  qed
  with act show ?thesis by simp
qed

lemma respond_count: "cnt (snd (snd (respond plan retrieval d v run w))) \<le> (cnt w :: nat) + 0"
  by (simp add: respond_def)

lemma review_count:
  assumes "counts_completions cnt cp"
  shows "cnt (snd (snd (synthesize_and_review cp q plan retrieval run w))) \<le> cnt w + 4"
proof -
  note act = act_counts [OF assms]
  have second: "cnt (snd (snd (next_step (revise cp q retrieval d v run w) (\<lambda>d2 run w.
         next_step (critic_act cp q (rr_findings retrieval) d2 run w) (\<lambda>v2 run w.
           respond plan retrieval d2 v2 run w))))) \<le> cnt w + 2" for d v run w
    by (rule next_step_count [where cnt = cnt and k = 1, OF act(3)],
        rule next_step_count [where cnt = cnt and k = 0, OF act(4) respond_count]) simp_all
  have fork: "cnt (snd (snd (if \<not> vd_approved v then
         next_step (revise cp q retrieval d v run w) (\<lambda>d2 run w.
         next_step (critic_act cp q (rr_findings retrieval) d2 run w) (\<lambda>v2 run w.
           respond plan retrieval d2 v2 run w))
       else respond plan retrieval d v run w))) \<le> cnt w + 2" for d v run w
    using second [of d v run w] by (simp add: respond_def)
  show ?thesis
    unfolding synthesize_and_review_def
    by (rule next_step_count [where cnt = cnt and k = 3, OF act(2)],
        rule next_step_count [where cnt = cnt and k = 2, OF act(4) fork]) simp_all
qed

lemma answer_count:
  assumes "counts_completions cnt cp"
  shows "cnt (snd (snd (answer cp q w))) \<le> cnt w + (cp_max_iterations cp + 5)"
proof -
  have found: "cnt (snd (snd (if rr_findings retrieval = []
      then (Inr (short_circuit run plan nothing_found_message), run, w)
      else synthesize_and_review cp q plan retrieval run w))) \<le> cnt w + 4" for plan retrieval run w
    using review_count [OF assms, of q plan retrieval run w] by simp
  have mid: "cnt (snd (snd (next_step (retriever_act cp plan q run w) (\<lambda>retrieval run w. if rr_findings retrieval = []
      then (Inr (short_circuit run plan nothing_found_message), run, w)
      else synthesize_and_review cp q plan retrieval run w)))) \<le> cnt w + (cp_max_iterations cp + 4)" for plan run w
    by (rule next_step_count [where cnt = cnt and k = 4, OF retriever_count [OF assms] found]) simp
  have fork: "cnt (snd (snd (if pn_customer_id_required plan \<and> or_str (pn_customer_id plan) '''' = ''''
      then (Inr (short_circuit run plan missing_id_message), run, w)
      else next_step (retriever_act cp plan q run w) (\<lambda>retrieval run w. if rr_findings retrieval = []
      then (Inr (short_circuit run plan nothing_found_message), run, w)
      else synthesize_and_review cp q plan retrieval run w)))) \<le> cnt w + (cp_max_iterations cp + 4)" for plan run w
    using mid [of plan run w] by simp
  show ?thesis
    unfolding answer_def
    by (rule next_step_count [where cnt = cnt and k = "cp_max_iterations cp + 4", OF act_counts(1) [OF assms] fork]) simp
qed

text \<open>How a turn that answers came to its answer.\<close>

lemma review_result:
  assumes "synthesize_and_review cp q plan retrieval run w = (Inr resp, run', w')"
  shows "cr_approved resp = vd_approved (cr_critic resp) \<and> cr_retrieval resp = retrieval \<and>
    (\<exists>d run1 w1. critic_act cp q (rr_findings retrieval) d run1 w1 = (Inr (cr_critic resp), run', w') \<and>
       cr_draft resp = dr_text d \<and> cr_citations resp = dr_citations d)"
  using assms by (auto simp: synthesize_and_review_def next_step_Inr respond_def split: if_splits) metis+

lemma answer_cases:
  assumes "answer cp q w = (Inr resp, run', w')"
  obtains plan where "resp = short_circuit run' plan missing_id_message"
  | plan where "resp = short_circuit run' plan nothing_found_message"
  | plan retrieval run v where "synthesize_and_review cp q plan retrieval run v = (Inr resp, run', w')"
  using assms unfolding answer_def next_step_Inr
  by (elim exE conjE) (auto simp: next_step_Inr split: if_splits)

lemma answer_verdict:
  assumes "answer cp question w = (Inr resp, run', w')"
  shows "cr_approved resp = vd_approved (cr_critic resp) \<and>
       ((cr_draft resp = missing_id_message \<or> cr_draft resp = nothing_found_message) \<and> cr_citations resp = [] \<or>
        (\<exists>d run1 w1. critic_act cp question (rr_findings (cr_retrieval resp)) d run1 w1 = (Inr (cr_critic resp), run', w') \<and>
           cr_draft resp = dr_text d \<and> cr_citations resp = dr_citations d))"
  using assms
proof (cases rule: answer_cases)
  case (3 plan retrieval run v)
  from review_result [OF this] show ?thesis by (elim conjE) simp
qed (simp_all add: short_circuit_def)

text \<open>C19: A turn is bounded and only the critic approves. Whatever the model and the server answer,
  a turn asks the model at most \<^verbatim>\<open>max_iterations\<close> plus five times: for the plan, in the loop, and
  for two drafts and two reviews. A response marked approved is one of the two fixed texts of a
  turn that stopped early, with nothing cited, or the draft the critic approved; a draft that is
  rejected twice is returned as not approved.\<close>

theorem copilot_bounded:
  assumes "answer cp question w = (r, run', w')" and "counts_completions cnt cp"
  shows "cnt w' \<le> cnt w + (cp_max_iterations cp + 5) \<and>
    (\<forall>resp. r = Inr resp \<longrightarrow>
       cr_approved resp = vd_approved (cr_critic resp) \<and>
       ((cr_draft resp = missing_id_message \<or> cr_draft resp = nothing_found_message) \<and> cr_citations resp = [] \<or>
        (\<exists>d run1 w1. critic_act cp question (rr_findings (cr_retrieval resp)) d run1 w1 = (Inr (cr_critic resp), run', w') \<and>
           cr_draft resp = dr_text d \<and> cr_citations resp = dr_citations d)))"
proof
  show "cnt w' \<le> cnt w + (cp_max_iterations cp + 5)"
    using answer_count [OF assms(2), of question w] assms(1) by simp
next
  show "\<forall>resp. r = Inr resp \<longrightarrow>
       cr_approved resp = vd_approved (cr_critic resp) \<and>
       ((cr_draft resp = missing_id_message \<or> cr_draft resp = nothing_found_message) \<and> cr_citations resp = [] \<or>
        (\<exists>d run1 w1. critic_act cp question (rr_findings (cr_retrieval resp)) d run1 w1 = (Inr (cr_critic resp), run', w') \<and>
           cr_draft resp = dr_text d \<and> cr_citations resp = dr_citations d))"
  proof (intro allI impI)
    fix resp assume "r = Inr resp"
    with assms(1) have "answer cp question w = (Inr resp, run', w')" by simp
    from answer_verdict [OF this] show "cr_approved resp = vd_approved (cr_critic resp) \<and>
       ((cr_draft resp = missing_id_message \<or> cr_draft resp = nothing_found_message) \<and> cr_citations resp = [] \<or>
        (\<exists>d run1 w1. critic_act cp question (rr_findings (cr_retrieval resp)) d run1 w1 = (Inr (cr_critic resp), run', w') \<and>
           cr_draft resp = dr_text d \<and> cr_citations resp = dr_citations d))" .
  qed
qed

lemma case_runD:
  "(case x of (Inr a, b, c) \<Rightarrow> P a b c | _ \<Rightarrow> False) \<Longrightarrow> \<exists>a b c. x = (Inr a, b, c) \<and> P a b c"
  by (cases x) (auto split: sum.splits)

definition asks_unlisted :: string where
  "asks_unlisted = [CHR ''{'', dq_char] @ ''tool'' @ [dq_char] @ '':'' @ [dq_char] @ ''x'' @ [dq_char, CHR ''}'']"

lemma asks_unlisted_run:
  "(case retriever_act (quiet_copilot asks_unlisted []) quiet_plan ''q'' (new_run ''r'') 0 of
      (Inr res, run', w') \<Rightarrow> rr_exceeded_budget res \<and> ag_tool_calls run' = 0 \<and> w' = 3
    | _ \<Rightarrow> False)"
  by code_simp

definition does_it_all :: string where
  "does_it_all = dumps plain_runtime (JObj [(''done'', JBool True),
     (''findings'', JList [JObj [(''source'', JStr ''s''), (''summary'', JStr ''t'')]]), (''verdict'', JStr ''approve'')])"

lemma does_it_all_run:
  "(case answer (quiet_copilot does_it_all []) ''q'' 0 of
      (Inr resp, run', w') \<Rightarrow> cr_approved resp \<and> cr_draft resp = does_it_all \<and> w' = 4
    | _ \<Rightarrow> False)"
  by code_simp

theorem retriever_bounded_witness:
  "\<exists>res run'. retriever_act (quiet_copilot asks_unlisted []) quiet_plan ''q'' (new_run ''r'') 0 = (Inr res, run', 3) \<and>
     retriever_act (quiet_copilot asks_unlisted [(''error'', JNull)]) quiet_plan ''q'' (new_run ''r'') 0 = (Inr res, run', 3) \<and>
     rr_iterations_used res = 3 \<and> ag_tool_calls run' = 0"
proof -
  from case_runD [OF asks_unlisted_run] obtain res run'
    where act: "retriever_act (quiet_copilot asks_unlisted []) quiet_plan ''q'' (new_run ''r'') 0 = (Inr res, run', 3)"
      and over: "rr_exceeded_budget res" and calls: "ag_tool_calls run' = 0"
    by blast
  have n: "cp_max_iterations (quiet_copilot asks_unlisted []) = 3"
    by (simp add: quiet_copilot_def)
  from retriever_bounded [OF act quiet_copilot_same [of _ _ "[(''error'', JNull)]"]] over n
  show ?thesis using act calls by (intro exI [of _ res] exI [of _ run'] conjI) simp_all
qed

theorem copilot_bounded_witness:
  "\<exists>resp run'. answer (quiet_copilot does_it_all []) ''q'' 0 = (Inr resp, run', 4) \<and> (4 :: nat) \<le> 0 + (3 + 5) \<and>
     cr_approved resp \<and> vd_approved (cr_critic resp)"
proof -
  from case_runD [OF does_it_all_run] obtain resp run'
    where act: "answer (quiet_copilot does_it_all []) ''q'' 0 = (Inr resp, run', 4)" and ok: "cr_approved resp"
    by blast
  from copilot_bounded [OF act quiet_copilot_counts]
  have "vd_approved (cr_critic resp) \<and> (4 :: nat) \<le> 0 + (3 + 5)"
    using ok by (simp add: quiet_copilot_def)
  with act ok show ?thesis by blast
qed


end
