(* ===== verification/Cli.thy ===== *)
theory Cli
  imports Copilot_Correct
begin

text \<open>
  The command line of the copilot (\<^verbatim>\<open>agents/cli.py\<close>) and the connection its client opens
  (\<^verbatim>\<open>AtlasMCPClient\<close> of \<^verbatim>\<open>agents/mcp_client.py\<close>): what a run prints and the status it exits with.
\<close>

section \<open>The connection\<close>

text \<open>
  Opening the HTTP client for a base address and its headers is the library's; it gives the
  exchange of the client, which has no session until it is initialised.
\<close>

definition client_headers :: "string \<Rightarrow> string option \<Rightarrow> (string \<times> string) list" where
  "client_headers token tenant =
     [(''Authorization'', ''Bearer '' @ token), (''Content-Type'', ''application/json''),
      (''Accept'', ''application/json, text/event-stream'')]
     @ (if or_str tenant '''' \<noteq> '''' then [(''X-Tenant-Id'', or_str tenant '''')] else [])"

definition client_base_url :: "string \<Rightarrow> string" where
  "client_base_url url = rev (dropWhile (\<lambda>c. c = CHR ''/'') (rev url))"

record 'w cli_env =
  ce_environ :: "string \<Rightarrow> string option"
  ce_open :: "string \<Rightarrow> (string \<times> string) list \<Rightarrow> 'w mcp_transport"
  ce_copilot :: "'w mcp_transport \<Rightarrow> 'w copilot"

definition enter_client ::
    "'w cli_env \<Rightarrow> string \<Rightarrow> string \<Rightarrow> string option \<Rightarrow> 'w \<Rightarrow> 'w mcp_transport outcome \<times> 'w" where
  "enter_client ce url token tenant w =
     initialize ((ce_open ce (client_base_url url) (client_headers token tenant))\<lparr>mt_session_id := None\<rparr>) w"

section \<open>The command\<close>

record printed =
  pd_stdout :: "string list"
  pd_stderr :: "string list"

definition rule_line :: string where
  "rule_line = replicate 72 (CHR ''='')"

definition report :: "(json \<Rightarrow> string) \<Rightarrow> copilot_response \<Rightarrow> string list" where
  "report layout resp =
     [rule_line,
      if cr_approved resp then ''DRAFT REPLY (approved)'' else ''DRAFT REPLY (not approved)'',
      rule_line, cr_draft resp, '''', rule_line, ''TRACE SUMMARY'', rule_line, layout (JObj (response_json resp))]"

text \<open>An exception that escapes ends the process; otherwise the exit status is the result.\<close>

definition cli_answer :: "'w cli_env \<Rightarrow> string \<Rightarrow> 'w \<Rightarrow> (int \<times> printed) outcome \<times> 'w" where
  "cli_answer ce question w =
     (let url = (case ce_environ ce ''ATLAS_MCP_URL'' of None \<Rightarrow> ''http://localhost:8080'' | Some u \<Rightarrow> u);
          token = or_str (ce_environ ce ''ATLAS_MCP_TOKEN'') '''';
          tenant = (case ce_environ ce ''ATLAS_TENANT'' of None \<Rightarrow> ''default'' | Some t \<Rightarrow> t)
      in if token = ''''
         then (Inr (2, \<lparr>pd_stdout = [], pd_stderr = [''error: ATLAS_MCP_TOKEN is required'']\<rparr>), w)
         else (case enter_client ce url token (Some tenant) w of
                 (Inl x, w1) \<Rightarrow> (Inl x, w1)
               | (Inr mt, w1) \<Rightarrow>
                   (case answer (ce_copilot ce mt) question w1 of
                      (Inl x, run, w2) \<Rightarrow> (Inl x, w2)
                    | (Inr resp, run, w2) \<Rightarrow>
                        (Inr (if cr_approved resp then 0 else 1,
                              \<lparr>pd_stdout = report (mt_layout mt) resp, pd_stderr = []\<rparr>), w2))))"

definition cli_main :: "'w cli_env \<Rightarrow> string list \<Rightarrow> 'w \<Rightarrow> (int \<times> printed) outcome \<times> 'w" where
  "cli_main ce argv w =
     (if length argv < 2
      then (Inr (2, \<lparr>pd_stdout = [],
              pd_stderr = [''usage: atlas-copilot '' @ [dq_char] @ ''<customer question>'' @ [dq_char]]\<rparr>), w)
      else cli_answer ce (py_join '' '' (tl argv)) w)"

section \<open>What the exit status says\<close>

lemma client_base_url_end: "client_base_url url = [] \<or> last (client_base_url url) \<noteq> CHR ''/''"
proof (cases "dropWhile (\<lambda>c. c = CHR ''/'') (rev url) = []")
  case False
  with hd_dropWhile [OF this] show ?thesis by (simp add: client_base_url_def last_rev)
qed (simp add: client_base_url_def)

lemma initialize_count:
  assumes "\<And>body hs w. cnt (snd (mt_post mt body hs w)) \<le> (cnt w :: nat)"
  shows "cnt (snd (initialize mt w)) \<le> cnt w"
proof -
  have "snd (initialize mt w) = snd (rpc mt ''initialize''
      [(''protocolVersion'', JStr ''2025-11''), (''capabilities'', JObj [(''tools'', JObj [])]),
       (''clientInfo'', JObj [(''name'', JStr ''atlas-agent''), (''version'', JStr ''0.1.0'')])] w)"
    unfolding initialize_def by (simp split: prod.split rpc_result.split)
  with rpc_state [of mt] assms show ?thesis by metis
qed

lemma cli_zero:
  assumes "cli_main ce argv w = (Inr (0, out), w')"
  obtains mt w1 resp run where "answer (ce_copilot ce mt) (py_join '' '' (tl argv)) w1 = (Inr resp, run, w')"
    and "cr_approved resp" and "pd_stdout out = report (mt_layout mt) resp"
  using assms
  by (auto simp: cli_main_def cli_answer_def Let_def split: if_splits prod.splits sum.splits)

text \<open>The exit status of the command line tells the outcome. It is 2 when the question or the token
  is missing, and then nothing was asked of anyone; it is 0 only for a turn whose verdict is an
  approval: the critic's of the printed draft, or that of one of the two fixed texts of a turn that
  stopped early; it is 1 when the draft was not approved.\<close>

theorem cli_exit_status:
  assumes "cli_main ce argv w = (Inr (code, out), w')"
  shows "(code = 2 \<and> w' = w \<and> pd_stdout out = []) \<or>
    (\<exists>mt w1 resp run. answer (ce_copilot ce mt) (py_join '' '' (tl argv)) w1 = (Inr resp, run, w') \<and>
       pd_stdout out = report (mt_layout mt) resp \<and> code = (if vd_approved (cr_critic resp) then 0 else 1) \<and>
       (cr_draft resp = missing_id_message \<or> cr_draft resp = nothing_found_message \<or>
        (\<exists>d run1 w2. critic_act (ce_copilot ce mt) (py_join '' '' (tl argv)) (rr_findings (cr_retrieval resp)) d run1 w2 =
             (Inr (cr_critic resp), run, w') \<and> cr_draft resp = dr_text d)))"
proof -
  consider "code = 2" "w' = w" "pd_stdout out = []"
    | mt w1 resp run where "answer (ce_copilot ce mt) (py_join '' '' (tl argv)) w1 = (Inr resp, run, w')"
      "pd_stdout out = report (mt_layout mt) resp" "code = (if cr_approved resp then 0 else 1)"
    using assms by (auto simp: cli_main_def cli_answer_def Let_def split: if_splits prod.splits sum.splits)
  then show ?thesis
  proof cases
    case 2
    have "cr_draft resp = missing_id_message \<or> cr_draft resp = nothing_found_message \<or>
        (\<exists>d run1 w2. critic_act (ce_copilot ce mt) (py_join '' '' (tl argv)) (rr_findings (cr_retrieval resp)) d run1 w2 =
             (Inr (cr_critic resp), run, w') \<and> cr_draft resp = dr_text d)"
      using answer_verdict [OF 2(1), THEN conjunct2] by blast
    with answer_verdict [OF 2(1), THEN conjunct1] 2 show ?thesis
      by (rule_tac disjI2) (intro exI [of _ mt] exI [of _ w1] exI [of _ resp] exI [of _ run] conjI, simp_all)
  qed simp
qed

definition demo_cli :: "nat cli_env" where
  "demo_cli = \<lparr>ce_environ = (\<lambda>name. if name = ''ATLAS_MCP_TOKEN'' then Some ''t'' else None),
     ce_open = (\<lambda>url hs. cp_mcp (quiet_copilot does_it_all [])), ce_copilot = (\<lambda>mt. quiet_copilot does_it_all [])\<rparr>"

theorem cli_exit_status_witness:
  "\<exists>out w'. cli_main demo_cli [''atlas-copilot'', ''q''] 0 = (Inr (0, out), w') \<and> pd_stdout out \<noteq> []"
proof -
  obtain resp run where ans: "answer (quiet_copilot does_it_all []) ''q'' 0 = (Inr resp, run, 4)" and ok: "cr_approved resp"
    using case_runD [OF does_it_all_run] by blast
  obtain mt where mt: "enter_client demo_cli ''http://localhost:8080'' ''t'' (Some ''default'') 0 = (Inr mt, 0)"
    by (auto simp: enter_client_def demo_cli_def initialize_def rpc_def quiet_copilot_def calls_unlisted_def dict_get_def
        json_obj_def)
  have "cli_main demo_cli [''atlas-copilot'', ''q''] 0 =
      (Inr (0, \<lparr>pd_stdout = report (mt_layout mt) resp, pd_stderr = []\<rparr>), 4)"
    using ans ok mt by (simp add: cli_main_def cli_answer_def demo_cli_def or_str_def)
  from cli_exit_status [OF this] this show ?thesis by (auto simp: report_def)
qed


end
