(* ===== verification/Memory.thy ===== *)
theory Memory
  imports Py_Json Json_Roundtrip
begin

text \<open>
  The memory of the copilot (\<^verbatim>\<open>agents/memory.py\<close>): the conversation of a session in a list of the
  Redis server, trimmed to the last turns, and the long-term memory, which is a stub. The server
  is a parameter with the laws of its list commands; the double of the tests
  (\<^verbatim>\<open>tests/test_agents_critic_memory.py\<close>) is an instance of them.
\<close>

section \<open>The list commands\<close>

record 's redis_lists =
  rl_rpush :: "string \<Rightarrow> string \<Rightarrow> 's \<Rightarrow> 's"
  rl_ltrim :: "string \<Rightarrow> int \<Rightarrow> int \<Rightarrow> 's \<Rightarrow> 's"
  rl_expire :: "string \<Rightarrow> int \<Rightarrow> 's \<Rightarrow> 's"
  rl_lrange :: "string \<Rightarrow> int \<Rightarrow> int \<Rightarrow> 's \<Rightarrow> string list"
  rl_delete :: "string \<Rightarrow> 's \<Rightarrow> 's"

definition take_last :: "nat \<Rightarrow> 'a list \<Rightarrow> 'a list" where
  "take_last n xs = drop (length xs - n) xs"

lemma take_last_snoc: "0 < n \<Longrightarrow> take_last n (take_last n xs @ [x]) = take_last n (xs @ [x])"
  by (cases "length xs < n") (auto simp: take_last_def Suc_diff_le)

lemma take_last_map: "take_last n (map f xs) = map f (take_last n xs)"
  by (simp add: take_last_def drop_map)

lemma length_take_last: "length (take_last n xs) = min n (length xs)"
  by (simp add: take_last_def)

text \<open>
  What the client relies on: the lists of the keys that have not expired, and the time to live
  last set on a key.
\<close>

locale list_server =
  fixes ops :: "'s redis_lists"
    and items :: "'s \<Rightarrow> string \<Rightarrow> string list"
    and ttl :: "'s \<Rightarrow> string \<Rightarrow> int option"
  assumes rpush_items: "items (rl_rpush ops k v s) = (items s)(k := items s k @ [v])"
    and ltrim_items: "0 < n \<Longrightarrow> items (rl_ltrim ops k (- int n) (- 1) s) = (items s)(k := take_last n (items s k))"
    and expire_items: "0 < secs \<Longrightarrow> items (rl_expire ops k secs s) = items s"
    and expire_ttl: "0 < secs \<Longrightarrow> ttl (rl_expire ops k secs s) k = Some secs"
    and lrange_items: "rl_lrange ops k 0 (- 1) s = items s k"
    and delete_items: "items (rl_delete ops k s) = (items s)(k := [])"

section \<open>Turns\<close>

text \<open>The fields of a turn hold what the caller, or the JSON read back, puts there.\<close>

record turn =
  tn_role :: json
  tn_content :: json
  tn_created_at :: json

definition turn_json :: "turn \<Rightarrow> json" where
  "turn_json t = JObj [(''role'', tn_role t), (''content'', tn_content t), (''created_at'', tn_created_at t)]"

text \<open>
  \<^verbatim>\<open>Turn(**d)\<close>: the two fields without a default must be there, no other names may be, and the
  time of a turn that has none is the present.
\<close>

definition turn_of :: "rat \<Rightarrow> json \<Rightarrow> turn outcome" where
  "turn_of now j =
     (case j of
        JObj ps \<Rightarrow>
          (case (map_of ps ''role'', map_of ps ''content'') of
             (Some r, Some c) \<Rightarrow>
               if list_all (\<lambda>(k, v). k \<in> {''role'', ''content'', ''created_at''}) ps
               then Inr \<lparr>tn_role = r, tn_content = c,
                         tn_created_at = (case map_of ps ''created_at'' of Some t \<Rightarrow> t | None \<Rightarrow> JFloat now)\<rparr>
               else Inl (Py_Exc ''TypeError'' ''unexpected keyword argument'')
           | _ \<Rightarrow> Inl (Py_Exc ''TypeError'' ''missing required positional argument''))
      | _ \<Rightarrow> Inl (Py_Exc ''TypeError'' ''argument after ** must be a mapping''))"

lemma turn_of_turn_json: "turn_of now (turn_json t) = Inr t"
  by (simp add: turn_of_def turn_json_def)

section \<open>Short-term memory\<close>

definition ttl_seconds :: int where "ttl_seconds = 3600"
definition max_turns :: nat where "max_turns = 20"

definition stm_key :: "string \<Rightarrow> string" where
  "stm_key session_id = ''atlas:stm:'' @ session_id"

definition stm_append :: "'s redis_lists \<Rightarrow> runtime \<Rightarrow> string \<Rightarrow> turn \<Rightarrow> 's \<Rightarrow> 's" where
  "stm_append ops rt session_id turn s =
     (let key = stm_key session_id
      in rl_expire ops key ttl_seconds
           (rl_ltrim ops key (- int max_turns) (- 1) (rl_rpush ops key (dumps rt (turn_json turn)) s)))"

definition turn_of_text :: "runtime \<Rightarrow> rat \<Rightarrow> string \<Rightarrow> turn outcome" where
  "turn_of_text rt now r =
     (case loads rt r of None \<Rightarrow> Inl (Py_Exc ''JSONDecodeError'' '''') | Some j \<Rightarrow> turn_of now j)"

definition stm_history :: "'s redis_lists \<Rightarrow> runtime \<Rightarrow> rat \<Rightarrow> string \<Rightarrow> 's \<Rightarrow> turn list outcome" where
  "stm_history ops rt now session_id s =
     map_res (turn_of_text rt now) (rl_lrange ops (stm_key session_id) 0 (- 1) s)"

definition stm_clear :: "'s redis_lists \<Rightarrow> string \<Rightarrow> 's \<Rightarrow> 's" where
  "stm_clear ops session_id s = rl_delete ops (stm_key session_id) s"

section \<open>Long-term memory\<close>

record memory_record =
  me_customer_id :: string
  me_tenant :: string
  me_text :: string
  me_metadata :: "(string \<times> json) list"

definition remember :: "memory_record \<Rightarrow> rat list \<Rightarrow> 'w \<Rightarrow> unit outcome \<times> 'w" where
  "remember rec embedding w =
     (Inl (Py_Exc ''NotImplementedError''
        (''vector.upsert is not yet exposed as an MCP tool; ''
         @ ''add it with destructive=True and route via governance.approval.'')), w)"

section \<open>The double of the tests\<close>

record fake_redis =
  fr_store :: "(string, string list) odict"
  fr_expires :: "(string, int) odict"

definition fake_items :: "fake_redis \<Rightarrow> string \<Rightarrow> string list" where
  "fake_items r k = (case map_of (fr_store r) k of None \<Rightarrow> [] | Some xs \<Rightarrow> xs)"

text \<open>\<^verbatim>\<open>items[start:]\<close> and \<^verbatim>\<open>items[start:stop]\<close> with indices that may count from the end.\<close>

definition slice_index :: "int \<Rightarrow> nat \<Rightarrow> nat" where
  "slice_index i n = nat (if i < 0 then max 0 (int n + i) else min i (int n))"

definition py_slice :: "int \<Rightarrow> int option \<Rightarrow> 'a list \<Rightarrow> 'a list" where
  "py_slice start stop xs =
     drop (slice_index start (length xs))
       (take (case stop of None \<Rightarrow> length xs | Some e \<Rightarrow> slice_index e (length xs)) xs)"

definition fake_rpush :: "string \<Rightarrow> string \<Rightarrow> fake_redis \<Rightarrow> fake_redis" where
  "fake_rpush k v r = r\<lparr>fr_store := AList.update k (fake_items r k @ [v]) (fr_store r)\<rparr>"

definition fake_ltrim :: "string \<Rightarrow> int \<Rightarrow> int \<Rightarrow> fake_redis \<Rightarrow> fake_redis" where
  "fake_ltrim k start stop r =
     r\<lparr>fr_store := AList.update k
        (py_slice start (if stop = - 1 then None else Some (stop + 1)) (fake_items r k)) (fr_store r)\<rparr>"

definition fake_expire :: "string \<Rightarrow> int \<Rightarrow> fake_redis \<Rightarrow> fake_redis" where
  "fake_expire k seconds r = r\<lparr>fr_expires := AList.update k seconds (fr_expires r)\<rparr>"

definition fake_lrange :: "string \<Rightarrow> int \<Rightarrow> int \<Rightarrow> fake_redis \<Rightarrow> string list" where
  "fake_lrange k start stop r =
     (if stop = - 1 then fake_items r k else py_slice start (Some (stop + 1)) (fake_items r k))"

definition fake_delete :: "string \<Rightarrow> fake_redis \<Rightarrow> fake_redis" where
  "fake_delete k r = r\<lparr>fr_store := AList.delete k (fr_store r)\<rparr>"

definition fake_lists :: "fake_redis redis_lists" where
  "fake_lists = \<lparr>rl_rpush = fake_rpush, rl_ltrim = fake_ltrim, rl_expire = fake_expire,
     rl_lrange = fake_lrange, rl_delete = fake_delete\<rparr>"

lemma py_slice_last: "0 < n \<Longrightarrow> py_slice (- int n) None xs = take_last n xs"
proof -
  assume "0 < n"
  then have "slice_index (- int n) (length xs) = length xs - n"
    by (simp add: slice_index_def max_def) linarith
  then show ?thesis by (simp add: py_slice_def take_last_def)
qed

interpretation fake: list_server fake_lists fake_items "\<lambda>r. map_of (fr_expires r)"
  by (unfold_locales)
    (auto simp: fake_lists_def fake_rpush_def fake_ltrim_def fake_expire_def fake_lrange_def fake_delete_def
      fake_items_def fun_eq_iff py_slice_last split: option.split)

section \<open>Sessions\<close>

text \<open>What happens to the memory, and the turns of a session it should hold.\<close>

datatype stm_event = Append string turn | Clear string

fun stm_step :: "'s redis_lists \<Rightarrow> runtime \<Rightarrow> stm_event \<Rightarrow> 's \<Rightarrow> 's" where
  "stm_step ops rt (Append sid t) s = stm_append ops rt sid t s"
| "stm_step ops rt (Clear sid) s = stm_clear ops sid s"

fun conversation :: "string \<Rightarrow> stm_event list \<Rightarrow> turn list \<Rightarrow> turn list" where
  "conversation sid [] ts = ts"
| "conversation sid (Append sid' t # es) ts = conversation sid es (if sid' = sid then ts @ [t] else ts)"
| "conversation sid (Clear sid' # es) ts = conversation sid es (if sid' = sid then [] else ts)"

lemma stm_key_eq [simp]: "stm_key a = stm_key b \<longleftrightarrow> a = b"
  by (simp add: stm_key_def)

context list_server
begin

lemma stm_append_items:
  "items (stm_append ops rt sid t s) =
     (items s)(stm_key sid := take_last max_turns (items s (stm_key sid) @ [dumps rt (turn_json t)]))"
  by (simp add: stm_append_def Let_def expire_items ltrim_items rpush_items ttl_seconds_def max_turns_def
      ltrim_items [of 20, simplified])

lemma stm_append_ttl: "ttl (stm_append ops rt sid t s) (stm_key sid) = Some ttl_seconds"
  by (simp add: stm_append_def Let_def expire_ttl ttl_seconds_def)

lemma stm_clear_items: "items (stm_clear ops sid s) = (items s)(stm_key sid := [])"
  by (simp add: stm_clear_def delete_items)

lemma stm_run_items:
  assumes "items s (stm_key sid) = take_last max_turns (map (\<lambda>t. dumps rt (turn_json t)) ts)"
  shows "items (fold (stm_step ops rt) es s) (stm_key sid) =
    take_last max_turns (map (\<lambda>t. dumps rt (turn_json t)) (conversation sid es ts))"
  using assms
proof (induction es arbitrary: s ts)
  case (Cons e es)
  have n: "0 < max_turns" by (simp add: max_turns_def)
  show ?case
  proof (cases e)
    case (Append sid' t)
    with Cons.prems Cons.IH [of "stm_step ops rt e s" "if sid' = sid then ts @ [t] else ts"] show ?thesis
      by (auto simp: stm_append_items take_last_snoc [OF n] fun_upd_def split: if_splits)
  next
    case (Clear sid')
    with Cons.prems Cons.IH [of "stm_step ops rt e s" "if sid' = sid then [] else ts"] show ?thesis
      by (auto simp: stm_clear_items take_last_def fun_upd_def split: if_splits)
  qed
qed simp

end

lemma map_res_read:
  assumes "list_all (\<lambda>t. wf_json rt (turn_json t)) ts"
  shows "map_res (turn_of_text rt now) (map (\<lambda>t. dumps rt (turn_json t)) ts) = Inr ts"
  using assms by (induction ts) (simp_all add: turn_of_text_def loads_dumps turn_of_turn_json res_simps)

lemma conversation_turns:
  "set (conversation sid es ts) \<subseteq> set ts \<union> {t. Append sid t \<in> set es}"
  by (induction sid es ts rule: conversation.induct) (auto split: if_splits)

lemma take_last_all: "list_all P xs \<Longrightarrow> list_all P (take_last n xs)"
  by (auto simp: take_last_def list_all_iff dest: in_set_dropD)

text \<open>A session's memory is the end of its conversation. Over a server that keeps the laws of the
  list commands, after any interleaving of turns appended to and clearings of any sessions, reading
  a session gives exactly the last twenty turns appended to it since it was last cleared, in order
  and as they were written; what happens in other sessions changes nothing. An append leaves the
  session an hour to live.\<close>

theorem stm_last_turns:
  assumes "list_server ops items ttl" and "items s = (\<lambda>k. [])"
    and "\<forall>t. Append sid t \<in> set es \<longrightarrow> wf_json rt (turn_json t)"
  shows "stm_history ops rt now sid (fold (stm_step ops rt) es s) = Inr (take_last 20 (conversation sid es [])) \<and>
    ttl (stm_append ops rt sid t s) (stm_key sid) = Some 3600"
proof -
  have srv: "list_server ops items ttl" by (rule assms(1))
  have "items (fold (stm_step ops rt) es s) (stm_key sid) =
      map (\<lambda>t. dumps rt (turn_json t)) (take_last 20 (conversation sid es []))"
    using list_server.stm_run_items [OF srv, of s sid rt "[]" es] assms(2)
    by (simp add: take_last_map max_turns_def take_last_def [of _ "[]"])
  moreover have "list_all (\<lambda>t. wf_json rt (turn_json t)) (take_last 20 (conversation sid es []))"
    using conversation_turns [of sid es "[]"] assms(3) by (intro take_last_all) (auto simp: list_all_iff)
  ultimately show ?thesis
    using list_server.lrange_items [OF srv] list_server.stm_append_ttl [OF srv]
    by (simp add: stm_history_def map_res_read ttl_seconds_def)
qed

definition demo_events :: "stm_event list" where
  "demo_events = map (\<lambda>i. Append (if i mod 2 = 0 then ''a'' else ''b'')
     \<lparr>tn_role = JStr ''user'', tn_content = JInt (int i), tn_created_at = JInt 0\<rparr>) [0..<50] @ [Clear ''b'']"

theorem stm_last_turns_witness:
  "stm_history fake_lists plain_runtime 0 ''b'' (fold (stm_step fake_lists plain_runtime) demo_events
      \<lparr>fr_store = [], fr_expires = []\<rparr>) = Inr [] \<and>
   (\<exists>ts. stm_history fake_lists plain_runtime 0 ''a'' (fold (stm_step fake_lists plain_runtime) demo_events
      \<lparr>fr_store = [], fr_expires = []\<rparr>) = Inr ts \<and> length ts = 20)"
proof -
  have e: "fake_items \<lparr>fr_store = [], fr_expires = []\<rparr> = (\<lambda>k. [])" by (simp add: fake_items_def fun_eq_iff)
  have ok: "\<forall>t. Append sid t \<in> set demo_events \<longrightarrow> wf_json plain_runtime (turn_json t)" for sid
    by (auto simp: demo_events_def turn_json_def)
  have "conversation ''b'' demo_events [] = []" "length (take_last 20 (conversation ''a'' demo_events [])) = 20"
    by code_simp+
  with stm_last_turns [OF fake.list_server_axioms e ok] show ?thesis
    by (simp add: take_last_def [of _ "[]"])
qed


end
