(* ===== verification/Tracing.thy ===== *)
theory Tracing
  imports Errors Settings
begin

text \<open>
  Tracing (\<^verbatim>\<open>observability/tracing.py\<close>): the tracer provider and its installation, the span of a
  tool call with its attributes, and the trace id as text. OpenTelemetry is a parameter: the
  record \<open>otel\<close> holds the calls the module makes, each on the library's own state \<open>'w\<close>.
\<close>

section \<open>The library\<close>

record span_context =
  sc_trace_id :: int
  sc_is_valid :: bool

text \<open>
  Providers, processors, tracers and spans are the library's; a span is closed with the exception
  that leaves its block, if one does.
\<close>

record ('p, 'pr, 'tr, 'sp, 'w) otel =
  ot_provider :: "(string \<times> string) list \<Rightarrow> 'w \<Rightarrow> 'p \<times> 'w"
  ot_otlp_processor :: "string \<Rightarrow> bool \<Rightarrow> 'w \<Rightarrow> 'pr \<times> 'w"
  ot_add_processor :: "'p \<Rightarrow> 'pr \<Rightarrow> 'w \<Rightarrow> 'w"
  ot_set_provider :: "'p \<Rightarrow> 'w \<Rightarrow> 'w"
  ot_tracer_of :: "'p \<Rightarrow> string \<Rightarrow> 'tr"
  ot_global_tracer :: "string \<Rightarrow> 'w \<Rightarrow> 'tr"
  ot_current_span :: "'w \<Rightarrow> 'sp option"
  ot_span_context :: "'sp \<Rightarrow> span_context"
  ot_start_span :: "'tr \<Rightarrow> string \<Rightarrow> 'w \<Rightarrow> 'sp \<times> 'w"
  ot_set_attribute :: "'sp \<Rightarrow> string \<Rightarrow> string \<Rightarrow> 'w \<Rightarrow> 'w"
  ot_end_span :: "'sp \<Rightarrow> exc option \<Rightarrow> 'w \<Rightarrow> 'w"

section \<open>The provider\<close>

definition build_tracer_provider ::
    "('p, 'pr, 'tr, 'sp, 'w) otel \<Rightarrow> settings \<Rightarrow> 'pr option \<Rightarrow> 'w \<Rightarrow> 'p \<times> 'w" where
  "build_tracer_provider ot cfg processor w =
     (case ot_provider ot [(''service.name'', service_name cfg), (''service.version'', ''0.1.0'')] w of
        (p, w1) \<Rightarrow>
          (case processor of
             None \<Rightarrow> (case ot_otlp_processor ot (otel_endpoint cfg) True w1 of
                       (pr, w2) \<Rightarrow> (p, ot_add_processor ot p pr w2))
           | Some pr \<Rightarrow> (p, ot_add_processor ot p pr w1)))"

text \<open>The flag \<^verbatim>\<open>_INITIALISED\<close> is threaded with the library's state.\<close>

definition init_tracing ::
    "('p, 'pr, 'tr, 'sp, 'w) otel \<Rightarrow> settings \<Rightarrow> 'pr option \<Rightarrow> bool \<times> 'w \<Rightarrow> bool \<times> 'w" where
  "init_tracing ot cfg processor s =
     (case s of (initialised, w) \<Rightarrow>
        if initialised then (initialised, w)
        else (case build_tracer_provider ot cfg processor w of
                (p, w1) \<Rightarrow> (True, ot_set_provider ot p w1)))"

definition get_tracer :: "('p, 'pr, 'tr, 'sp, 'w) otel \<Rightarrow> 'p option \<Rightarrow> 'w \<Rightarrow> 'tr" where
  "get_tracer ot provider w =
     (case provider of
        Some p \<Rightarrow> ot_tracer_of ot p ''atlas_mcp''
      | None \<Rightarrow> ot_global_tracer ot ''atlas_mcp'' w)"

section \<open>The trace id\<close>

fun hex_of_nat :: "nat \<Rightarrow> string" where
  "hex_of_nat n = (if n < 16 then [hex_digit n] else hex_of_nat (n div 16) @ [hex_digit (n mod 16)])"

declare hex_of_nat.simps [simp del]

text \<open>\<^verbatim>\<open>f"{n:032x}"\<close> of a number that is not negative: at least 32 digits, padded with zeros.\<close>

definition fmt_032x :: "int \<Rightarrow> string" where
  "fmt_032x n = (let s = hex_of_nat (nat n) in replicate (32 - length s) (CHR ''0'') @ s)"

definition current_trace_id :: "('p, 'pr, 'tr, 'sp, 'w) otel \<Rightarrow> 'w \<Rightarrow> string option" where
  "current_trace_id ot w =
     (case ot_current_span ot w of
        None \<Rightarrow> None
      | Some sp \<Rightarrow>
          let ctx = ot_span_context ot sp
          in if \<not> sc_is_valid ctx then None else Some (fmt_032x (sc_trace_id ctx)))"

section \<open>Spans\<close>

text \<open>
  The body of the \<^verbatim>\<open>with\<close> block gets the span; however it ends, the span is closed, and an
  exception leaves the block.
\<close>

definition tool_span ::
    "('p, 'pr, 'tr, 'sp, 'w) otel \<Rightarrow> 'tr \<Rightarrow> string \<Rightarrow> string \<Rightarrow> ('sp \<Rightarrow> 'w \<Rightarrow> 'a outcome \<times> 'w)
       \<Rightarrow> 'w \<Rightarrow> 'a outcome \<times> 'w" where
  "tool_span ot tracer tool tenant body w =
     (case ot_start_span ot tracer (''tool.'' @ tool) w of
        (sp, w1) \<Rightarrow>
          (case body sp (ot_set_attribute ot sp ''atlas.tenant'' tenant
                           (ot_set_attribute ot sp ''atlas.tool'' tool w1)) of
             (Inl x, w2) \<Rightarrow> (Inl x, ot_end_span ot sp (Some x) w2)
           | (Inr a, w2) \<Rightarrow> (Inr a, ot_end_span ot sp None w2)))"

definition annotate_cache :: "('p, 'pr, 'tr, 'sp, 'w) otel \<Rightarrow> 'sp \<Rightarrow> string \<Rightarrow> 'w \<Rightarrow> 'w" where
  "annotate_cache ot sp out = ot_set_attribute ot sp ''atlas.cache'' out"

definition annotate_circuit :: "('p, 'pr, 'tr, 'sp, 'w) otel \<Rightarrow> 'sp \<Rightarrow> string \<Rightarrow> 'w \<Rightarrow> 'w" where
  "annotate_circuit ot sp state = ot_set_attribute ot sp ''atlas.circuit_state'' state"

definition annotate_error :: "('p, 'pr, 'tr, 'sp, 'w) otel \<Rightarrow> 'sp \<Rightarrow> string \<Rightarrow> 'w \<Rightarrow> 'w" where
  "annotate_error ot sp error_code = ot_set_attribute ot sp ''atlas.error_code'' error_code"

section \<open>Installing once\<close>

lemma init_tracing_sets: "fst (init_tracing ot cfg processor s)"
  by (simp add: init_tracing_def split: prod.split)

lemma init_tracing_idempotent:
  "init_tracing ot cfg' processor' (init_tracing ot cfg processor s) = init_tracing ot cfg processor s"
  using init_tracing_sets [of ot cfg processor s]
  by (cases "init_tracing ot cfg processor s") (simp add: init_tracing_def)

section \<open>Reading a trace id back\<close>

text \<open>The value of a lower-case hexadecimal digit, and \<^verbatim>\<open>int(s, 16)\<close>.\<close>

definition hex_value :: "char \<Rightarrow> nat" where
  "hex_value c = (let n = (of_char c :: nat) in if n < 58 then n - 48 else n - 87)"

definition nat_of_hex :: "string \<Rightarrow> nat" where
  "nat_of_hex s = foldl (\<lambda>a c. 16 * a + hex_value c) 0 s"

definition hex_digits :: "string" where
  "hex_digits = map hex_digit [0..<16]"

lemma hex_value_digit [simp]:
  assumes "d < 16"
  shows "hex_value (hex_digit d) = d"
  using assms by (simp add: hex_value_def hex_digit_def Let_def)

lemma hex_digit_mem [simp]: "d < 16 \<Longrightarrow> hex_digit d \<in> set hex_digits"
  by (simp add: hex_digits_def)

lemma nat_of_hex_snoc [simp]: "nat_of_hex (s @ [c]) = 16 * nat_of_hex s + hex_value c"
  by (simp add: nat_of_hex_def)

lemma nat_of_hex_zeros [simp]: "nat_of_hex (replicate k (CHR ''0'') @ s) = nat_of_hex s"
  by (induction k) (simp_all add: nat_of_hex_def hex_value_def Let_def)

lemma nat_of_hex_of_nat [simp]: "nat_of_hex (hex_of_nat n) = n"
proof (induction n rule: hex_of_nat.induct)
  case (1 n)
  then show ?case
    by (subst hex_of_nat.simps) (simp add: nat_of_hex_def)
qed

lemma hex_of_nat_digits: "set (hex_of_nat n) \<subseteq> set hex_digits"
proof (induction n rule: hex_of_nat.induct)
  case (1 n)
  then show ?case
    by (subst hex_of_nat.simps) simp
qed

lemma hex_of_nat_length:
  "n < 16 ^ Suc k \<Longrightarrow> length (hex_of_nat n) \<le> Suc k"
proof (induction k arbitrary: n)
  case 0
  then show ?case by (subst hex_of_nat.simps) simp
next
  case (Suc k)
  from Suc.prems have "n div 16 < 16 ^ Suc k"
    by (simp add: less_mult_imp_div_less)
  from Suc.IH [OF this] show ?case
    by (subst hex_of_nat.simps) simp
qed

text \<open>The id of the current trace, as text, is 32 lower-case hexadecimal digits, and reading them
  as a number gives the id back, for every id of 128 bits, the width OpenTelemetry promises;
  without a valid current span there is no id.
\<close>

theorem trace_id_roundtrip:
  assumes "\<And>sp. ot_current_span ot w = Some sp \<Longrightarrow> sc_is_valid (ot_span_context ot sp)
             \<Longrightarrow> 0 \<le> sc_trace_id (ot_span_context ot sp)
               \<and> sc_trace_id (ot_span_context ot sp) < 2 ^ 128"
  shows "case current_trace_id ot w of
           None \<Rightarrow> ot_current_span ot w = None
             \<or> map_option (\<lambda>sp. sc_is_valid (ot_span_context ot sp)) (ot_current_span ot w) = Some False
         | Some s \<Rightarrow> length s = 32 \<and> set s \<subseteq> set hex_digits
             \<and> map_option (\<lambda>sp. sc_trace_id (ot_span_context ot sp)) (ot_current_span ot w)
                 = Some (int (nat_of_hex s))"
proof (cases "ot_current_span ot w")
  case None
  then show ?thesis by (simp add: current_trace_id_def)
next
  case (Some sp)
  let ?id = "sc_trace_id (ot_span_context ot sp)"
  show ?thesis
  proof (cases "sc_is_valid (ot_span_context ot sp)")
    case False
    with Some show ?thesis by (simp add: current_trace_id_def)
  next
    case True
    with assms Some have id: "0 \<le> ?id" "?id < 2 ^ 128" by blast+
    then have "nat ?id < 16 ^ Suc 31"
      by (simp add: nat_less_iff)
    then have "length (hex_of_nat (nat ?id)) \<le> 32"
      using hex_of_nat_length [of "nat ?id" 31] by simp
    moreover have "CHR ''0'' \<in> set hex_digits"
      by code_simp
    ultimately show ?thesis
      using Some True id hex_of_nat_digits [of "nat ?id"]
      by (auto simp: current_trace_id_def fmt_032x_def Let_def)
  qed
qed

text \<open>Setting an attribute of a span is what a reader of the span sees.\<close>

definition keeps_attributes ::
    "('p, 'pr, 'tr, 'sp, 'w) otel \<Rightarrow> ('sp \<Rightarrow> 'w \<Rightarrow> string \<Rightarrow> string option) \<Rightarrow> bool" where
  "keeps_attributes ot attrs \<longleftrightarrow>
     (\<forall>sp k v w. attrs sp (ot_set_attribute ot sp k v w) = (attrs sp w)(k \<mapsto> v))"

text \<open>The span of a tool call names the tool and the tenant before its body runs, is closed
  exactly once after it, with the exception that leaves the body if one does, and the outcome of
  the body is the outcome of the block.
\<close>

theorem tool_span_brackets:
  assumes "keeps_attributes ot attrs"
  shows "\<exists>w1 r w2. let sp = fst (ot_start_span ot tracer (''tool.'' @ tool) w) in
           attrs sp w1 ''atlas.tool'' = Some tool \<and> attrs sp w1 ''atlas.tenant'' = Some tenant
         \<and> body sp w1 = (r, w2)
         \<and> tool_span ot tracer tool tenant body w
             = (r, ot_end_span ot sp (case r of Inl x \<Rightarrow> Some x | Inr a \<Rightarrow> None) w2)"
proof -
  obtain sp w0 where start: "ot_start_span ot tracer (''tool.'' @ tool) w = (sp, w0)"
    by fastforce
  define w1 where "w1 = ot_set_attribute ot sp ''atlas.tenant'' tenant
    (ot_set_attribute ot sp ''atlas.tool'' tool w0)"
  obtain r w2 where body: "body sp w1 = (r, w2)"
    by fastforce
  have "tool_span ot tracer tool tenant body w
      = (r, ot_end_span ot sp (case r of Inl x \<Rightarrow> Some x | Inr a \<Rightarrow> None) w2)"
    using start body by (cases r) (simp_all add: tool_span_def w1_def)
  moreover have "attrs sp w1 ''atlas.tool'' = Some tool" "attrs sp w1 ''atlas.tenant'' = Some tenant"
    using assms by (simp_all add: w1_def keeps_attributes_def)
  ultimately show ?thesis
    using start body by (auto simp: Let_def)
qed

text \<open>A library whose state is the number of spans, their attributes, and the spans closed.\<close>

type_synonym span_log = "nat \<times> (nat \<Rightarrow> string \<Rightarrow> string option) \<times> (nat \<times> exc option) list"

definition demo_otel :: "(unit, unit, unit, nat, span_log) otel" where
  "demo_otel =
     \<lparr>ot_provider = (\<lambda>resource w. ((), w)), ot_otlp_processor = (\<lambda>endpoint insecure w. ((), w)),
      ot_add_processor = (\<lambda>p pr w. w), ot_set_provider = (\<lambda>p w. w),
      ot_tracer_of = (\<lambda>p name. ()), ot_global_tracer = (\<lambda>name w. ()),
      ot_current_span = (\<lambda>(n, attrs, closed). if n = 0 then None else Some (n - 1)),
      ot_span_context = (\<lambda>sp. \<lparr>sc_trace_id = int sp + 255, sc_is_valid = True\<rparr>),
      ot_start_span = (\<lambda>tracer name (n, attrs, closed). (n, n + 1, attrs, closed)),
      ot_set_attribute = (\<lambda>sp k v (n, attrs, closed). (n, attrs(sp := (attrs sp)(k \<mapsto> v)), closed)),
      ot_end_span = (\<lambda>sp x (n, attrs, closed). (n, attrs, closed @ [(sp, x)]))\<rparr>"

theorem tool_span_brackets_witness:
  "snd (snd (snd (tool_span demo_otel () ''server.ping'' ''acme''
      (\<lambda>sp w. (Inl Cancelled :: unit outcome, annotate_cache demo_otel sp ''miss'' w)) (0, (\<lambda>_. Map.empty), []))))
     = [(0, Some Cancelled)]"
proof -
  have "keeps_attributes demo_otel (\<lambda>sp (n, attrs, closed). attrs sp)"
    by (simp add: keeps_attributes_def demo_otel_def)
  from tool_span_brackets [OF this, of "()" "''server.ping''" "(0, (\<lambda>_. Map.empty), [])" "''acme''"
      "\<lambda>sp w. (Inl Cancelled :: unit outcome, annotate_cache demo_otel sp ''miss'' w)"]
  show ?thesis
    by (simp add: demo_otel_def annotate_cache_def tool_span_def)
qed

theorem trace_id_roundtrip_witness:
  "current_trace_id demo_otel (1, (\<lambda>_. Map.empty), []) = Some (replicate 30 (CHR ''0'') @ ''ff'')"
proof -
  have "char_of (102::nat) = CHR ''f''" by code_simp
  with trace_id_roundtrip [of demo_otel "(1, (\<lambda>_. Map.empty), [])"] show ?thesis
    by (simp add: demo_otel_def current_trace_id_def fmt_032x_def hex_of_nat.simps hex_digit_def)
qed

end
